(* ===== verification/Galatea_Prelude.thy ===== *)
theory Galatea_Prelude
  imports Main "HOL-Library.Word" "HOL-Library.Multiset"
begin

text \<open>
  What every component of the development shares: the widths of the machine integers, the
  fact collections the proofs draw on, the list operations that the Rust code spells as
  \<open>iter().position(..)\<close> followed by \<open>remove\<close> or \<open>iter_mut().find(..)\<close>, and the
  reachability predicate with the locale of its invariants.
\<close>

unbundle bit_operations_syntax

subsection \<open>Machine integers\<close>

type_synonym u8 = "8 word"
type_synonym u16 = "16 word"
type_synonym u32 = "32 word"
type_synonym u64 = "64 word"
type_synonym i32 = "32 word"

text \<open>
  A signed 32-bit integer is a word read with \<^const>\<open>sint\<close>: addition on words wraps, as
  Rust's does without overflow checks; the comparisons read the sign.
\<close>

definition i32_lt :: "i32 \<Rightarrow> i32 \<Rightarrow> bool" where
  "i32_lt a b \<longleftrightarrow> sint a < sint b"

definition i32_le :: "i32 \<Rightarrow> i32 \<Rightarrow> bool" where
  "i32_le a b \<longleftrightarrow> sint a \<le> sint b"

lemma i32_le_iff_not_lt: "i32_le a b \<longleftrightarrow> \<not> i32_lt b a"
  by (auto simp: i32_le_def i32_lt_def)

text \<open>The addition of two signed values leaves the range of the type: a debug build panics.\<close>

definition i32_add_overflows :: "i32 \<Rightarrow> i32 \<Rightarrow> bool" where
  "i32_add_overflows a b \<longleftrightarrow> sint a + sint b < - (2 ^ 31) \<or> 2 ^ 31 \<le> sint a + sint b"

lemma sint_i32_add:
  "\<not> i32_add_overflows a b \<Longrightarrow> sint (a + b) = sint a + sint b"
  by (auto simp: i32_add_overflows_def sint_word_ariths(1) signed_take_bit_int_eq_self)

lemma unat_of_nat_u64: "n < 2 ^ 64 \<Longrightarrow> unat (of_nat n :: u64) = n"
  by (simp add: unat_of_nat take_bit_nat_eq_self)

lemma word_less_Suc: "x \<noteq> - 1 \<Longrightarrow> x < x + (1 :: 'a::len word)"
proof -
  assume "x \<noteq> - 1"
  then have "1 + x \<noteq> 0" by (simp add: add_eq_0_iff)
  from unatSuc [OF this] show ?thesis by (simp add: word_less_nat_alt add.commute)
qed

subsection \<open>Collections of facts\<close>

named_theorems frame_simps \<open>fields that an operation does not write\<close>
named_theorems op_defs \<open>definitions of the operations of a component\<close>
named_theorems inv_intros \<open>an operation keeps an invariant\<close>

subsection \<open>The first element of a list that satisfies a predicate\<close>

text \<open>
  \<open>if let Some(idx) = list.iter().position(p) { list.remove(idx) }\<close>: the element at the
  first position is taken out, the others keep their order.
\<close>

fun remove_first :: "('a \<Rightarrow> bool) \<Rightarrow> 'a list \<Rightarrow> 'a list" where
  "remove_first p [] = []"
| "remove_first p (x # xs) = (if p x then xs else x # remove_first p xs)"

text \<open>\<open>if let Some(x) = list.iter_mut().find(p) { f(x) }\<close>.\<close>

fun update_first :: "('a \<Rightarrow> bool) \<Rightarrow> ('a \<Rightarrow> 'a) \<Rightarrow> 'a list \<Rightarrow> 'a list" where
  "update_first p f [] = []"
| "update_first p f (x # xs) = (if p x then f x # xs else x # update_first p f xs)"

lemma set_remove_first_subset: "set (remove_first p xs) \<subseteq> set xs"
  by (induction xs) auto

lemma in_remove_first: "x \<in> set (remove_first p xs) \<Longrightarrow> x \<in> set xs"
  using set_remove_first_subset by fastforce

lemma remove_first_absent [simp]: "(\<And>x. x \<in> set xs \<Longrightarrow> \<not> p x) \<Longrightarrow> remove_first p xs = xs"
  by (induction xs) auto

lemma length_remove_first_le: "length (remove_first p xs) \<le> length xs"
  by (induction xs) auto

lemma remove_first_append:
  "remove_first p (xs @ ys) =
     (if \<exists>x \<in> set xs. p x then remove_first p xs @ ys else xs @ remove_first p ys)"
  by (induction xs) auto

lemma distinct_map_remove_first: "distinct (map f xs) \<Longrightarrow> distinct (map f (remove_first p xs))"
proof (induction xs)
  case Nil
  then show ?case by simp
next
  case (Cons x xs)
  then show ?case
    using set_remove_first_subset [of p xs] by auto
qed

text \<open>
  With distinct keys, taking the first element of key \<open>k\<close> out takes out exactly the
  elements of that key.
\<close>

lemma set_remove_first_key:
  "distinct (map key xs) \<Longrightarrow>
     set (remove_first (\<lambda>x. key x = k) xs) = {x \<in> set xs. key x \<noteq> k}"
proof (induction xs)
  case Nil
  then show ?case by simp
next
  case (Cons y ys)
  then have "\<And>x. x \<in> set ys \<Longrightarrow> key x \<noteq> key y" by (auto simp: image_iff)
  with Cons show ?case by (cases "key y = k") auto
qed

lemma find_eq_Some_key:
  assumes "distinct (map key xs)" and "x \<in> set xs"
  shows "find (\<lambda>y. key y = key x) xs = Some x"
  using assms by (induction xs) (auto simp: rev_image_eqI)

lemma find_SomeD: "find p xs = Some x \<Longrightarrow> x \<in> set xs \<and> p x"
  by (auto simp: find_Some_iff)

lemma find_NoneD: "find p xs = None \<Longrightarrow> x \<in> set xs \<Longrightarrow> \<not> p x"
  by (auto simp: find_None_iff)

lemma length_update_first [simp]: "length (update_first p f xs) = length xs"
  by (induction xs) auto

lemma map_update_first_key:
  "(\<And>x. p x \<Longrightarrow> key (f x) = key x) \<Longrightarrow> map key (update_first p f xs) = map key xs"
  by (induction xs) auto

lemma in_update_first:
  "y \<in> set (update_first p f xs) \<Longrightarrow> y \<in> set xs \<or> (\<exists>x \<in> set xs. p x \<and> y = f x)"
  by (induction xs) (auto split: if_splits)

lemma set_update_first_key:
  assumes "distinct (map key xs)" and "\<And>x. key (f x) = key x"
  shows "set (update_first (\<lambda>x. key x = k) f xs) = {if key x = k then f x else x | x. x \<in> set xs}"
  using assms
proof (induction xs)
  case Nil
  then show ?case by simp
next
  case (Cons y ys)
  from Cons.prems(1) have "\<And>x. x \<in> set ys \<Longrightarrow> key x \<noteq> key y"
    by (auto simp: image_iff)
  with Cons show ?case by (cases "key y = k") fastforce+
qed

text \<open>Lists seen as multisets: what moves between two lists stays distinct.\<close>

lemma mset_remove_first:
  "find p xs = Some x \<Longrightarrow> mset xs = add_mset x (mset (remove_first p xs))"
  by (induction xs) (auto split: if_splits)

lemma distinct_mset_subset:
  assumes "distinct xs" and "mset ys \<subseteq># mset xs"
  shows "distinct ys"
proof -
  have "count (mset ys) a \<le> count (mset xs) a" for a using assms(2) by (rule mset_subset_eq_count)
  moreover have "count (mset xs) a \<le> 1" for a using assms(1) by (simp add: distinct_count_atmost_1)
  ultimately have "count (mset ys) a \<le> 1" for a by (meson le_trans)
  then have "count (mset ys) a = (if a \<in> set ys then 1 else 0)" for a
    by (metis One_nat_def Suc_leI count_eq_zero_iff count_greater_zero_iff le_antisym set_mset_mset)
  then show ?thesis by (simp add: distinct_count_atmost_1)
qed

lemma mset_remove1_split: "x \<in> set xs \<Longrightarrow> mset xs = add_mset x (mset (remove1 x xs))"
  by simp

subsection \<open>Reachable states and their invariants\<close>

inductive reach :: "('s \<Rightarrow> bool) \<Rightarrow> ('s \<Rightarrow> 's \<Rightarrow> bool) \<Rightarrow> 's \<Rightarrow> bool"
  for init :: "'s \<Rightarrow> bool" and step :: "'s \<Rightarrow> 's \<Rightarrow> bool" where
  reach_init: "init s \<Longrightarrow> reach init step s"
| reach_step: "reach init step s \<Longrightarrow> step s t \<Longrightarrow> reach init step t"

locale invariant_system =
  fixes init :: "'s \<Rightarrow> bool"
    and step :: "'s \<Rightarrow> 's \<Rightarrow> bool"
    and inv :: "'s \<Rightarrow> bool"
  assumes init_inv: "init s \<Longrightarrow> inv s"
    and step_inv: "inv s \<Longrightarrow> step s t \<Longrightarrow> inv t"
begin

lemma reach_inv: "reach init step s \<Longrightarrow> inv s"
  by (induction rule: reach.induct) (auto intro: init_inv step_inv)

lemma steps_inv: "step\<^sup>*\<^sup>* s t \<Longrightarrow> inv s \<Longrightarrow> inv t"
  by (induction rule: rtranclp_induct) (auto intro: step_inv)

end

text \<open>
  A run in which nothing makes new work: a step keeps the work that is left or makes it less. If the work
  that is left is taken up again and again, there is none in the end. A run may stand still.
\<close>

definition is_run :: "('s \<Rightarrow> 's \<Rightarrow> bool) \<Rightarrow> (nat \<Rightarrow> 's) \<Rightarrow> bool" where
  "is_run step f \<longleftrightarrow> (\<forall>n. f (Suc n) = f n \<or> step (f n) (f (Suc n)))"

locale draining_system =
  fixes step :: "'s \<Rightarrow> 's \<Rightarrow> bool"
    and inv :: "'s \<Rightarrow> bool"
    and work :: "'s \<Rightarrow> nat"
  assumes run_inv: "inv s \<Longrightarrow> step s t \<Longrightarrow> inv t"
    and work_step: "inv s \<Longrightarrow> step s t \<Longrightarrow> work t \<le> work s"
begin

lemma run_invariant: "is_run step f \<Longrightarrow> inv (f 0) \<Longrightarrow> inv (f n)"
proof (induction n)
  case (Suc n)
  then show ?case using run_inv [of "f n" "f (Suc n)"] by (metis is_run_def)
qed simp

lemma work_antimono:
  assumes "is_run step f" and "inv (f 0)" and "n \<le> m"
  shows "work (f m) \<le> work (f n)"
  using assms(3)
proof (induction m rule: dec_induct)
  case base
  then show ?case by simp
next
  case (step m)
  have "work (f (Suc m)) \<le> work (f m)"
    using assms(1) work_step [OF run_invariant [OF assms(1,2)]] by (metis is_run_def order_refl)
  with step.IH show ?case by simp
qed

lemma drains:
  assumes run: "is_run step f" "inv (f 0)"
    and fair: "\<And>n. work (f n) \<noteq> 0 \<Longrightarrow> \<exists>m \<ge> n. work (f (Suc m)) \<noteq> work (f m)"
  shows "\<exists>n. \<forall>m \<ge> n. work (f m) = 0"
proof -
  have "\<exists>m \<ge> n. work (f m) = 0" for n
  proof (induction "work (f n)" arbitrary: n rule: less_induct)
    case less
    show ?case
    proof (cases "work (f n) = 0")
      case False
      then obtain m where m: "n \<le> m" "work (f (Suc m)) \<noteq> work (f m)" using fair by blast
      with work_antimono [OF run, of m "Suc m"] work_antimono [OF run m(1)]
      have "work (f (Suc m)) < work (f n)" by simp
      from less [OF this] m(1) show ?thesis by (meson Suc_leD le_trans)
    qed auto
  qed
  then obtain n where "work (f n) = 0" by blast
  with work_antimono [OF run] show ?thesis by (metis le_zero_eq)
qed

end

lemma reach_rtranclp: "reach init step s \<Longrightarrow> step\<^sup>*\<^sup>* s t \<Longrightarrow> reach init step t"
  by (rotate_tac 1, induction rule: rtranclp_induct) (auto intro: reach_step)

end
