(* ===== verification/Rust_Strings.thy ===== *)
theory Rust_Strings
  imports Galatea_Prelude "HOL-Library.Sublist"
begin

text \<open>
  The operations of Rust's \<open>str\<close> and \<open>String\<close> that the code uses. A string is its UTF-8
  encoding, a list of bytes written as \<^typ>\<open>char\<close> list, so lengths and slices count bytes
  as they do in Rust. Case folding and white space follow the ASCII part of the standard
  library's tables: a byte above 127 is never a letter to fold nor white space.
\<close>

subsection \<open>Bytes of a character\<close>

abbreviation byte_of :: "char \<Rightarrow> nat" where
  "byte_of c \<equiv> of_char c"

definition ascii_lower_char :: "char \<Rightarrow> char" where
  "ascii_lower_char c =
     (if 65 \<le> byte_of c \<and> byte_of c \<le> 90 then char_of (byte_of c + 32) else c)"

definition to_ascii_lowercase :: "string \<Rightarrow> string" where
  "to_ascii_lowercase = map ascii_lower_char"

abbreviation to_lowercase :: "string \<Rightarrow> string" where
  "to_lowercase \<equiv> to_ascii_lowercase"

lemma byte_of_char_of [simp]: "n < 256 \<Longrightarrow> byte_of (char_of n) = n"
  by simp

lemma ascii_lower_char_idem [simp]: "ascii_lower_char (ascii_lower_char c) = ascii_lower_char c"
  by (simp add: ascii_lower_char_def)

lemma to_ascii_lowercase_idem [simp]:
  "to_ascii_lowercase (to_ascii_lowercase s) = to_ascii_lowercase s"
  by (simp add: to_ascii_lowercase_def)

lemma length_to_ascii_lowercase [simp]: "length (to_ascii_lowercase s) = length s"
  by (simp add: to_ascii_lowercase_def)

lemma to_ascii_lowercase_append [simp]:
  "to_ascii_lowercase (s @ t) = to_ascii_lowercase s @ to_ascii_lowercase t"
  by (simp add: to_ascii_lowercase_def)

lemma to_ascii_lowercase_Nil [simp]: "to_ascii_lowercase [] = []"
  by (simp add: to_ascii_lowercase_def)

lemma to_ascii_lowercase_eq_Nil [simp]: "to_ascii_lowercase s = [] \<longleftrightarrow> s = []"
  by (simp add: to_ascii_lowercase_def)

lemma to_ascii_lowercase_Cons [simp]:
  "to_ascii_lowercase (c # s) = ascii_lower_char c # to_ascii_lowercase s"
  by (simp add: to_ascii_lowercase_def)

definition is_ws :: "char \<Rightarrow> bool" where
  "is_ws c \<longleftrightarrow> byte_of c = 32 \<or> (9 \<le> byte_of c \<and> byte_of c \<le> 13)"

subsection \<open>Searching, trimming, splitting\<close>

definition starts_with :: "string \<Rightarrow> string \<Rightarrow> bool" where
  "starts_with s p \<longleftrightarrow> take (length p) s = p"

definition ends_with :: "string \<Rightarrow> string \<Rightarrow> bool" where
  "ends_with s p \<longleftrightarrow> length p \<le> length s \<and> drop (length s - length p) s = p"

fun str_contains :: "string \<Rightarrow> string \<Rightarrow> bool" where
  "str_contains [] p = (p = [])"
| "str_contains (c # s) p = (starts_with (c # s) p \<or> str_contains s p)"

definition strip_prefix_str :: "string \<Rightarrow> string \<Rightarrow> string option" where
  "strip_prefix_str s p = (if starts_with s p then Some (drop (length p) s) else None)"

definition trim_matches :: "(char \<Rightarrow> bool) \<Rightarrow> string \<Rightarrow> string" where
  "trim_matches p s = rev (dropWhile p (rev (dropWhile p s)))"

definition trim :: "string \<Rightarrow> string" where
  "trim = trim_matches is_ws"

lemma starts_with_iff_prefix: "starts_with s p \<longleftrightarrow> prefix p s"
  by (metis append_take_drop_id prefix_def starts_with_def append_eq_conv_conj)

lemma ends_with_iff_suffix: "ends_with s p \<longleftrightarrow> suffix p s"
proof
  assume "ends_with s p"
  then show "suffix p s"
    by (metis append_take_drop_id ends_with_def suffix_def)
next
  assume "suffix p s"
  then show "ends_with s p" by (auto simp: ends_with_def suffix_def)
qed

lemma str_contains_iff_sublist: "str_contains s p \<longleftrightarrow> sublist p s"
  by (induction s) (auto simp: starts_with_iff_prefix sublist_Cons_right)

lemma str_contains_Nil [simp]: "str_contains s []"
  by (simp add: str_contains_iff_sublist)

lemma dropWhile_all_Nil: "(\<And>x. x \<in> set xs \<Longrightarrow> p x) \<Longrightarrow> dropWhile p xs = []"
  by simp

lemma trim_matches_id:
  assumes "s \<noteq> []" and "\<not> p (hd s)" and "\<not> p (last s)"
  shows "trim_matches p s = s"
proof -
  have "dropWhile p s = s" using assms by (cases s) auto
  moreover have "dropWhile p (rev s) = rev s"
    using assms by (cases "rev s") (auto simp: hd_rev [symmetric])
  ultimately show ?thesis by (simp add: trim_matches_def)
qed

text \<open>\<open>str::split_once(c)\<close>: the text before and after the first \<open>c\<close>.\<close>

fun split_once_char :: "char \<Rightarrow> string \<Rightarrow> (string \<times> string) option" where
  "split_once_char c [] = None"
| "split_once_char c (x # xs) =
     (if x = c then Some ([], xs)
      else map_option (\<lambda>(a, b). (x # a, b)) (split_once_char c xs))"

lemma split_once_char_Some:
  "split_once_char c s = Some (a, b) \<Longrightarrow> s = a @ c # b \<and> c \<notin> set a"
  by (induction s arbitrary: a) (auto split: if_splits)

lemma split_once_char_None: "split_once_char c s = None \<longleftrightarrow> c \<notin> set s"
  by (induction s) auto

lemma split_once_char_append: "c \<notin> set a \<Longrightarrow> split_once_char c (a @ c # b) = Some (a, b)"
  by (induction a) auto

text \<open>\<open>str::split_whitespace\<close>: the maximal runs of characters that are not white space.\<close>

fun split_ws_acc :: "string \<Rightarrow> string \<Rightarrow> string list" where
  "split_ws_acc acc [] = (if acc = [] then [] else [rev acc])"
| "split_ws_acc acc (c # s) =
     (if is_ws c then (if acc = [] then [] else [rev acc]) @ split_ws_acc [] s
      else split_ws_acc (c # acc) s)"

definition split_whitespace :: "string \<Rightarrow> string list" where
  "split_whitespace s = split_ws_acc [] s"

lemma split_ws_acc_nonempty: "t \<in> set (split_ws_acc acc s) \<Longrightarrow> t \<noteq> []"
  by (induction acc s rule: split_ws_acc.induct) (auto split: if_splits)

lemma split_ws_acc_no_ws:
  "(\<And>c. c \<in> set acc \<Longrightarrow> \<not> is_ws c) \<Longrightarrow> t \<in> set (split_ws_acc acc s) \<Longrightarrow> c \<in> set t \<Longrightarrow> \<not> is_ws c"
  by (induction acc s rule: split_ws_acc.induct) (auto split: if_splits)

lemma split_ws_acc_token:
  "(\<And>c. c \<in> set t \<Longrightarrow> \<not> is_ws c) \<Longrightarrow> split_ws_acc acc (t @ s) = split_ws_acc (rev t @ acc) s"
  by (induction t arbitrary: acc) auto

text \<open>\<open>str::replace\<close> of one character by a string.\<close>

definition replace_char :: "char \<Rightarrow> string \<Rightarrow> string \<Rightarrow> string" where
  "replace_char c t s = concat (map (\<lambda>x. if x = c then t else [x]) s)"

lemma replace_char_Nil [simp]: "replace_char c t [] = []"
  by (simp add: replace_char_def)

lemma replace_char_append [simp]: "replace_char c t (a @ b) = replace_char c t a @ replace_char c t b"
  by (simp add: replace_char_def)

lemma replace_char_Cons [simp]:
  "replace_char c t (x # xs) = (if x = c then t else [x]) @ replace_char c t xs"
  by (simp add: replace_char_def)

lemma replace_char_absent: "c \<notin> set s \<Longrightarrow> replace_char c t s = s"
  by (induction s) auto

lemma set_replace_char: "set (replace_char c t s) \<subseteq> set t \<union> (set s - {c})"
  by (induction s) (auto split: if_splits)

text \<open>\<open>[String]::join(sep)\<close>.\<close>

fun join_str :: "string \<Rightarrow> string list \<Rightarrow> string" where
  "join_str sep [] = []"
| "join_str sep [s] = s"
| "join_str sep (s # t # ts) = s @ sep @ join_str sep (t # ts)"

subsection \<open>Numbers as text\<close>

definition digit_char :: "nat \<Rightarrow> char" where
  "digit_char d = (if d < 10 then char_of (48 + d) else char_of (87 + d))"

fun nat_digits :: "nat \<Rightarrow> nat \<Rightarrow> string" where
  "nat_digits base n =
     (if base < 2 \<or> n < base then [digit_char n]
      else nat_digits base (n div base) @ [digit_char (n mod base)])"

declare nat_digits.simps [simp del]

definition show_nat :: "nat \<Rightarrow> string" where
  "show_nat n = nat_digits 10 n"

definition show_int :: "int \<Rightarrow> string" where
  "show_int i = (if i < 0 then CHR ''-'' # show_nat (nat (- i)) else show_nat (nat i))"

text \<open>\<open>format!("{:#x}")\<close>: lower-case hexadecimal with the prefix.\<close>

definition show_hex :: "nat \<Rightarrow> string" where
  "show_hex n = ''0x'' @ nat_digits 16 n"

lemma nat_digits_nonempty: "nat_digits b n \<noteq> []"
  by (subst nat_digits.simps) simp

subsection \<open>UTF-16 to UTF-8\<close>

definition utf8_encode :: "nat \<Rightarrow> string" where
  "utf8_encode cp =
     (if cp < 0x80 then [char_of cp]
      else if cp < 0x800 then [char_of (0xC0 + cp div 64), char_of (0x80 + cp mod 64)]
      else if cp < 0x10000 then
        [char_of (0xE0 + cp div 4096), char_of (0x80 + (cp div 64) mod 64), char_of (0x80 + cp mod 64)]
      else
        [char_of (0xF0 + cp div 262144), char_of (0x80 + (cp div 4096) mod 64),
         char_of (0x80 + (cp div 64) mod 64), char_of (0x80 + cp mod 64)])"

definition is_high_surrogate :: "nat \<Rightarrow> bool" where
  "is_high_surrogate u \<longleftrightarrow> 0xD800 \<le> u \<and> u < 0xDC00"

definition is_low_surrogate :: "nat \<Rightarrow> bool" where
  "is_low_surrogate u \<longleftrightarrow> 0xDC00 \<le> u \<and> u < 0xE000"

text \<open>\<open>String::from_utf16_lossy\<close>: an unpaired surrogate becomes U+FFFD.\<close>

fun from_utf16_lossy :: "u16 list \<Rightarrow> string" where
  "from_utf16_lossy [] = []"
| "from_utf16_lossy [u] =
     utf8_encode (if is_high_surrogate (unat u) \<or> is_low_surrogate (unat u) then 0xFFFD else unat u)"
| "from_utf16_lossy (u # v # us) =
     (if is_high_surrogate (unat u) then
        (if is_low_surrogate (unat v)
         then utf8_encode (0x10000 + (unat u - 0xD800) * 0x400 + (unat v - 0xDC00)) @ from_utf16_lossy us
         else utf8_encode 0xFFFD @ from_utf16_lossy (v # us))
      else if is_low_surrogate (unat u) then utf8_encode 0xFFFD @ from_utf16_lossy (v # us)
      else utf8_encode (unat u) @ from_utf16_lossy (v # us))"

text \<open>The text of a wide string of ASCII characters (the macro \<open>w!\<close> of the drivers).\<close>

definition wide :: "string \<Rightarrow> u16 list" where
  "wide s = map (\<lambda>c. of_nat (byte_of c)) s"

definition is_ascii :: "string \<Rightarrow> bool" where
  "is_ascii s \<longleftrightarrow> (\<forall>c \<in> set s. byte_of c < 128)"

lemma utf8_encode_ascii: "byte_of c < 128 \<Longrightarrow> utf8_encode (byte_of c) = [c]"
  by (simp add: utf8_encode_def)

lemma wide_Nil [simp]: "wide [] = []"
  by (simp add: wide_def)

lemma wide_Cons [simp]: "wide (c # s) = of_nat (byte_of c) # wide s"
  by (simp add: wide_def)

lemma length_wide [simp]: "length (wide s) = length s"
  by (simp add: wide_def)

lemma unat_wide_char: "unat (of_nat (byte_of c) :: u16) = byte_of c"
proof -
  have "byte_of c < 65536" using nat_of_char_less_256 [of c] by linarith
  then show ?thesis by (simp add: unat_of_nat)
qed

lemma from_utf16_lossy_wide: "is_ascii s \<Longrightarrow> from_utf16_lossy (wide s) = s"
proof (induction s rule: induct_list012)
  case 1
  then show ?case by simp
next
  case (2 c)
  then show ?case
    by (simp add: is_ascii_def unat_wide_char is_high_surrogate_def is_low_surrogate_def
        utf8_encode_ascii)
next
  case (3 c d s)
  then have "from_utf16_lossy (wide (d # s)) = d # s" by (simp add: is_ascii_def)
  with 3 show ?case
    by (simp add: is_ascii_def unat_wide_char is_high_surrogate_def is_low_surrogate_def
        utf8_encode_ascii)
qed

text \<open>The name held by a fixed array of code units: up to the first zero, or the whole array.\<close>

definition until_nul :: "u16 list \<Rightarrow> u16 list" where
  "until_nul us = takeWhile (\<lambda>c. c \<noteq> 0) us"

lemma until_nul_append: "(\<And>u. u \<in> set us \<Longrightarrow> u \<noteq> 0) \<Longrightarrow> until_nul (us @ 0 # vs) = us"
  by (simp add: until_nul_def takeWhile_append)

end
