(* ===== verification/Shared_Api.thy ===== *)
theory Shared_Api
  imports Complex_Main Rust_Strings
begin

text \<open>
  The interface crate \<open>galatea-shared\<close>: the IOCTL codes and the structures that cross the
  boundary between the kernel sensor, the kernel filter, the agent and the client. A
  \<open>[u16; 260]\<close> path is a list of 260 words; the lengths of the structures in memory follow the
  layout rules of \<open>#[repr(C)]\<close>, which \<open>repr_c_size\<close> computes.
\<close>

subsection \<open>Agent and sensor\<close>

definition IOCTL_GET_EVENT :: u32 where "IOCTL_GET_EVENT = 0x80002000"
definition IOCTL_SEND_VERDICT :: u32 where "IOCTL_SEND_VERDICT = 0x80002004"
definition IOCTL_REGISTER_AGENT :: u32 where "IOCTL_REGISTER_AGENT = 0x80002008"

lemma ioctl_codes_distinct [simp]:
  "IOCTL_GET_EVENT \<noteq> IOCTL_SEND_VERDICT" "IOCTL_SEND_VERDICT \<noteq> IOCTL_GET_EVENT"
  "IOCTL_GET_EVENT \<noteq> IOCTL_REGISTER_AGENT" "IOCTL_REGISTER_AGENT \<noteq> IOCTL_GET_EVENT"
  "IOCTL_SEND_VERDICT \<noteq> IOCTL_REGISTER_AGENT" "IOCTL_REGISTER_AGENT \<noteq> IOCTL_SEND_VERDICT"
  by (simp_all add: IOCTL_GET_EVENT_def IOCTL_SEND_VERDICT_def IOCTL_REGISTER_AGENT_def)

definition PATH_LEN :: nat where "PATH_LEN = 260"

record galatea_event =
  ge_process_id :: u64
  ge_request_id :: u64
  ge_frozen :: bool
  ge_image_path :: "u16 list"

record galatea_verdict =
  gv_process_id :: u64
  gv_request_id :: u64
  gv_allow :: bool

subsection \<open>Agent and filter\<close>

definition FILTER_PORT_PAYLOAD_SIZE :: nat where "FILTER_PORT_PAYLOAD_SIZE = 2048"

datatype filter_message_kind = Raw | FileTelemetry

definition filter_message_kind_code :: "filter_message_kind \<Rightarrow> u32" where
  "filter_message_kind_code k = (case k of Raw \<Rightarrow> 0 | FileTelemetry \<Rightarrow> 1)"

record filter_message =
  fm_kind :: filter_message_kind
  fm_payload_len :: u32
  fm_payload :: "u8 list"

definition default_filter_message :: filter_message where
  "default_filter_message =
     \<lparr>fm_kind = Raw, fm_payload_len = 0, fm_payload = replicate FILTER_PORT_PAYLOAD_SIZE 0\<rparr>"

record rename_meta =
  rm_flags :: u32
  rm_new_file_path :: "u16 list"

datatype fs_mod_operation = Rename rename_meta

datatype fs_event_type =
    FileOpen
  | FileCreate
  | FileWrite
  | FileModify fs_mod_operation
  | FileDelete

record galatea_fs_event =
  fe_process_id :: u64
  fe_process_start_key :: u64
  fe_request_id :: u64
  fe_event_type :: fs_event_type
  fe_file_path :: "u16 list"
  fe_file_index :: u64

subsection \<open>Layout of the structures in memory\<close>

text \<open>
  A field is given by its size and alignment. Each field starts at the next multiple of its
  alignment and the size of the structure is rounded up to its largest alignment; an enum with
  fields is a C \<open>int\<close> tag followed by the union of the variants.
\<close>

definition round_up :: "nat \<Rightarrow> nat \<Rightarrow> nat" where
  "round_up n a = (n + a - 1) div a * a"

fun repr_c_end :: "nat \<Rightarrow> (nat \<times> nat) list \<Rightarrow> nat" where
  "repr_c_end off [] = off"
| "repr_c_end off ((sz, al) # fs) = repr_c_end (round_up off al + sz) fs"

definition repr_c_align :: "(nat \<times> nat) list \<Rightarrow> nat" where
  "repr_c_align fs = foldr max (map snd fs) 1"

definition repr_c_size :: "(nat \<times> nat) list \<Rightarrow> nat" where
  "repr_c_size fs = round_up (repr_c_end 0 fs) (repr_c_align fs)"

abbreviation u64_field :: "nat \<times> nat" where "u64_field \<equiv> (8, 8)"
abbreviation u32_field :: "nat \<times> nat" where "u32_field \<equiv> (4, 4)"
abbreviation bool_field :: "nat \<times> nat" where "bool_field \<equiv> (1, 1)"
abbreviation path_field :: "nat \<times> nat" where "path_field \<equiv> (2 * PATH_LEN, 2)"

definition size_of_event :: nat where
  "size_of_event = repr_c_size [u64_field, u64_field, bool_field, path_field]"

definition size_of_verdict :: nat where
  "size_of_verdict = repr_c_size [u64_field, u64_field, bool_field]"

definition size_of_rename_meta :: nat where
  "size_of_rename_meta = repr_c_size [u32_field, path_field]"

definition size_of_fs_mod_operation :: nat where
  "size_of_fs_mod_operation = repr_c_size [u32_field, (size_of_rename_meta, 4)]"

definition size_of_fs_event_type :: nat where
  "size_of_fs_event_type = repr_c_size [u32_field, (size_of_fs_mod_operation, 4)]"

definition size_of_fs_event :: nat where
  "size_of_fs_event =
     repr_c_size [u64_field, u64_field, u64_field, (size_of_fs_event_type, 4), path_field, u64_field]"

definition size_of_filter_message :: nat where
  "size_of_filter_message = repr_c_size [u32_field, u32_field, (FILTER_PORT_PAYLOAD_SIZE, 1)]"

lemmas layout_defs = repr_c_size_def repr_c_align_def round_up_def PATH_LEN_def

lemma size_of_event_eq [simp]: "size_of_event = 544"
  by (simp add: size_of_event_def layout_defs)

lemma size_of_verdict_eq [simp]: "size_of_verdict = 24"
  by (simp add: size_of_verdict_def layout_defs)

lemma size_of_rename_meta_eq [simp]: "size_of_rename_meta = 524"
  by (simp add: size_of_rename_meta_def layout_defs)

lemma size_of_fs_mod_operation_eq [simp]: "size_of_fs_mod_operation = 528"
  by (simp add: size_of_fs_mod_operation_def layout_defs)

lemma size_of_fs_event_type_eq [simp]: "size_of_fs_event_type = 532"
  by (simp add: size_of_fs_event_type_def layout_defs)

lemma size_of_fs_event_eq [simp]: "size_of_fs_event = 1088"
  by (simp add: size_of_fs_event_def layout_defs)

lemma size_of_filter_message_eq [simp]: "size_of_filter_message = 2056"
  by (simp add: size_of_filter_message_def layout_defs FILTER_PORT_PAYLOAD_SIZE_def)

subsection \<open>A path array filled from a source buffer\<close>

text \<open>
  Both drivers copy at most 259 code units of a \<open>UNICODE_STRING\<close> into an array of 260 zeros.
\<close>

definition fill_path :: "u16 list \<Rightarrow> u16 list" where
  "fill_path src =
     (let len = min (length src) (PATH_LEN - 1) in take len src @ replicate (PATH_LEN - len) 0)"

lemma length_fill_path [simp]: "length (fill_path src) = PATH_LEN"
  by (simp add: fill_path_def Let_def PATH_LEN_def)

lemma fill_path_nul_terminated: "fill_path src ! (PATH_LEN - 1) = 0"
  by (simp add: fill_path_def Let_def PATH_LEN_def nth_append)

lemma until_nul_fill_path:
  assumes "\<And>u. u \<in> set src \<Longrightarrow> u \<noteq> 0"
  shows "until_nul (fill_path src) = take 259 src"
proof -
  obtain n where "PATH_LEN - min (length src) (PATH_LEN - 1) = Suc n"
    by (cases "PATH_LEN - min (length src) (PATH_LEN - 1)") (auto simp: PATH_LEN_def)
  then have "fill_path src = take (min (length src) 259) src @ 0 # replicate n 0"
    by (simp add: fill_path_def Let_def PATH_LEN_def)
  moreover have "\<And>u. u \<in> set (take (min (length src) 259) src) \<Longrightarrow> u \<noteq> 0"
    using assms by (blast dest: in_set_takeD)
  ultimately have "until_nul (fill_path src) = take (min (length src) 259) src"
    by (simp add: until_nul_append)
  then show ?thesis by (simp add: min_def)
qed

subsection \<open>Agent and client\<close>

text \<open>An instant, in nanoseconds from the Unix epoch.\<close>

type_synonym instant = int

definition PIPE_BUFFER_SIZE :: nat where "PIPE_BUFFER_SIZE = 65536"
definition PIPE_NAME :: string where
  "PIPE_NAME = [CHR 0x5C, CHR 0x5C, CHR ''.'', CHR 0x5C] @ ''pipe'' @ [CHR 0x5C] @ ''galatea_client_events''"
definition COMMAND_PIPE_NAME :: string where
  "COMMAND_PIPE_NAME = [CHR 0x5C, CHR 0x5C, CHR ''.'', CHR 0x5C] @ ''pipe'' @ [CHR 0x5C] @ ''galatea_client_commands''"
definition PIPE_TIMEOUT_MS :: u32 where "PIPE_TIMEOUT_MS = 5000"

datatype file_context_key_snapshot = KeyFileIndex u64 | KeyPath string

datatype file_verdict_snapshot = VsBenign | VsSuspicious | VsMalicious

record file_scan_summary_snapshot =
  fss_verdict :: file_verdict_snapshot
  fss_threat_score :: i32
  fss_file_size :: u64
  fss_mod_time :: instant
  fss_file_index :: "u64 option"

datatype file_flag_snapshot =
    SnapFileCreateSuccess
  | SnapFileWriteSuccess
  | SnapWhiteListed
  | SnapBlackListed
  | SnapStaticScanMalicious
  | SnapStaticScanSuspicious
  | SnapStaticScanBeneign
  | SnapInAutoStartLocation
  | SnapInTempLocation
  | SnapRenamedToExecutable

record file_context_snapshot =
  fcs_key :: file_context_key_snapshot
  fcs_normalized_file_path :: "string option"
  fcs_file_index :: "u64 option"
  fcs_last_write_process :: "string option"
  fcs_last_write_time :: "instant option"
  fcs_last_rename_time :: "instant option"
  fcs_original_name :: "string option"
  fcs_matching_flags :: "file_flag_snapshot list"
  fcs_last_scan_summary :: "file_scan_summary_snapshot option"

datatype ipc_request = GetFileContextSnapshot nat

datatype ipc_response = FileContextSnapshot "file_context_snapshot list" | IpcError string

record process_info =
  pi_pid :: u64
  pi_name :: string
  pi_path :: string
  pi_parent_pid :: "u64 option"
  pi_command_line :: "string option"
  pi_creation_time :: "instant option"

record signature_match =
  sm_hash :: string
  sm_verdict_score :: i32
  sm_metadata :: string

record authenticode_info =
  ai_is_signed :: bool
  ai_is_trusted :: bool
  ai_is_revoked :: bool
  ai_signer :: "string option"
  ai_score_modifier :: i32

record heuristic_results =
  hr_is_packed :: bool
  hr_packer_name :: "string option"
  hr_has_rwx_sections :: bool
  hr_high_entropy :: bool
  hr_imphash :: "string option"
  hr_score_modifier :: i32

record ml_prediction =
  mp_malicious_probability :: real
  mp_score_modifier :: i32

record detection_details =
  dd_threat_score :: i32
  dd_md5_hash :: "string option"
  dd_signature_match :: "signature_match option"
  dd_authenticode :: "authenticode_info option"
  dd_heuristics :: "heuristic_results option"
  dd_ml_prediction :: "ml_prediction option"

datatype verdict = Allowed | Blocked | SystemAllowed

text \<open>The event identifier is a fresh UUID; the client reads it as its text.\<close>

record detection_event =
  de_event_id :: string
  de_timestamp :: instant
  de_process_info :: process_info
  de_detection :: detection_details
  de_verdict :: verdict

datatype ipc_message = Detection detection_event | StatusUpdate string | ConfigUpdate string

end
