(* ===== verification/Sensor_State.thy ===== *)
theory Sensor_State
  imports Shared_Api
begin

text \<open>
  The kernel sensor's statics (\<open>galatea-kernel-sensor/src/lib.rs\<close>), the objects its pointers
  reach, its entry point and its unload routine, and the static allow list of
  \<open>utils.rs\<close>. A pointer to an IRP, a process object or a freeze context is an address, a
  natural number; \<open>None\<close> is the null pointer. A \<open>static mut X: Option<Vec<_>>\<close> is a
  list option, \<open>None\<close> until the entry point runs.
\<close>

subsection \<open>Status codes\<close>

type_synonym ntstatus = i32

definition STATUS_SUCCESS :: ntstatus where "STATUS_SUCCESS = 0"
definition STATUS_TIMEOUT :: ntstatus where "STATUS_TIMEOUT = 0x102"
definition STATUS_PENDING :: ntstatus where "STATUS_PENDING = 0x103"
definition STATUS_UNSUCCESSFUL :: ntstatus where "STATUS_UNSUCCESSFUL = 0xC0000001"
definition STATUS_INVALID_PARAMETER :: ntstatus where "STATUS_INVALID_PARAMETER = 0xC000000D"
definition STATUS_INVALID_DEVICE_REQUEST :: ntstatus where "STATUS_INVALID_DEVICE_REQUEST = 0xC0000010"
definition STATUS_ACCESS_DENIED :: ntstatus where "STATUS_ACCESS_DENIED = 0xC0000022"
definition STATUS_BUFFER_TOO_SMALL :: ntstatus where "STATUS_BUFFER_TOO_SMALL = 0xC0000023"
definition STATUS_CANCELLED :: ntstatus where "STATUS_CANCELLED = 0xC0000120"

lemmas status_defs = STATUS_SUCCESS_def STATUS_TIMEOUT_def STATUS_PENDING_def
  STATUS_UNSUCCESSFUL_def STATUS_INVALID_PARAMETER_def STATUS_INVALID_DEVICE_REQUEST_def
  STATUS_ACCESS_DENIED_def STATUS_BUFFER_TOO_SMALL_def STATUS_CANCELLED_def

lemma status_distinct [simp]:
  "STATUS_ACCESS_DENIED \<noteq> STATUS_SUCCESS" "STATUS_TIMEOUT \<noteq> STATUS_SUCCESS"
  "STATUS_UNSUCCESSFUL \<noteq> STATUS_SUCCESS" "STATUS_BUFFER_TOO_SMALL \<noteq> STATUS_SUCCESS"
  "STATUS_CANCELLED \<noteq> STATUS_SUCCESS" "STATUS_SUCCESS \<noteq> STATUS_TIMEOUT"
  "STATUS_SUCCESS \<noteq> STATUS_ACCESS_DENIED" "STATUS_PENDING \<noteq> STATUS_SUCCESS"
  "STATUS_PENDING \<noteq> STATUS_UNSUCCESSFUL" "STATUS_PENDING \<noteq> STATUS_ACCESS_DENIED"
  "STATUS_INVALID_PARAMETER \<noteq> STATUS_SUCCESS" "STATUS_SUCCESS \<noteq> STATUS_PENDING"
  "STATUS_UNSUCCESSFUL \<noteq> STATUS_PENDING" "STATUS_ACCESS_DENIED \<noteq> STATUS_PENDING"
  "STATUS_INVALID_DEVICE_REQUEST \<noteq> STATUS_PENDING" "STATUS_SUCCESS \<noteq> STATUS_BUFFER_TOO_SMALL"
  by (simp_all add: status_defs)

subsection \<open>Strings of the kernel\<close>

text \<open>\<open>UNICODE_STRING\<close>: a length in bytes and a buffer, which may be null.\<close>

record unicode_string =
  us_length :: u16
  us_buffer :: "u16 list option"

definition us_slice :: "unicode_string \<Rightarrow> u16 list" where
  "us_slice u = (case us_buffer u of None \<Rightarrow> [] | Some b \<Rightarrow> take (unat (us_length u) div 2) b)"

definition bs :: string where "bs = [CHR 0x5C]"

subsection \<open>The sensor's data\<close>

record pending_scan =
  ps_request_id :: u64
  ps_pid :: u64
  ps_event_ptr :: nat
  ps_verdict :: ntstatus

record target_process =
  tp_pid :: u64
  tp_request_id :: u64

record cached_verdict =
  cv_request_id :: u64
  cv_allowed :: bool
  cv_timestamp :: u64

definition MAX_VERDICT_CACHE_SIZE :: nat where "MAX_VERDICT_CACHE_SIZE = 1024"
definition MAX_VERDICT_CACHE_TTL :: u64 where "MAX_VERDICT_CACHE_TTL = 10 * 10000000"
definition EVENT_QUEUE_LIMIT :: nat where "EVENT_QUEUE_LIMIT = 1000"

text \<open>The box of one freeze APC; \<open>fc_signalled\<close> is the state of its notification event.\<close>

record freeze_apc_ctx =
  fc_signalled :: bool
  fc_pid :: u64
  fc_request_id :: u64

text \<open>
  An IRP as far as the sensor reads or writes it: the parameters of its stack location, its
  system buffer as input and output, its status block, whether a cancel routine is set, and how
  often \<open>IofCompleteRequest\<close> was called on it.
\<close>

record irp =
  irp_control_code :: u32
  irp_output_len :: nat
  irp_input_len :: nat
  irp_input :: galatea_verdict
  irp_output :: "galatea_event option"
  irp_status :: ntstatus
  irp_information :: nat
  irp_cancel_routine :: bool
  irp_pending_returned :: bool
  irp_completions :: nat

record sensor =
  pending_irp :: "nat option"
  irps :: "nat \<Rightarrow> irp"
  pending_scans :: "pending_scan list option"
  target_pids :: "target_process list option"
  request_id_counter :: u64
  event_queue :: "galatea_event list option"
  verdict_cache :: "cached_verdict list option"
  agent_process :: "nat option"
  object_refs :: "nat \<Rightarrow> int"
  apc_count :: u64
  apc_ctxs :: "nat \<rightharpoonup> freeze_apc_ctx"
  terminated :: "u64 list"
  local_device_object :: "nat option"
  device_exists :: bool
  symlinks :: "u16 list list"
  process_callback :: bool
  thread_callback :: bool
  freed_memory_access :: bool

text \<open>
  \<open>freed_memory_access\<close> records an access through a pointer whose box is gone: what happens then
  is undefined in the kernel, and the model only remembers that it happened.
\<close>

subsection \<open>Entry point\<close>

text \<open>The statuses the kernel's registration functions return, in the order of the calls.\<close>

record entry_results =
  er_create_device :: "ntstatus \<times> nat"
  er_symbolic_link :: ntstatus
  er_process_notify :: ntstatus
  er_thread_notify :: ntstatus

definition init_statics :: "sensor \<Rightarrow> sensor" where
  "init_statics s = s\<lparr>target_pids := Some [], pending_scans := Some [],
     verdict_cache := Some [], event_queue := Some []\<rparr>"

definition link_u16 :: "u16 list" where
  "link_u16 = wide (bs @ ''DosDevices'' @ bs @ ''Galatea'')"

text \<open>The name under which \<open>IoCreateSymbolicLink\<close> makes the link: the string of its argument.\<close>

definition entry_link_name :: unicode_string where
  "entry_link_name = \<lparr>us_length = of_nat (length link_u16 * 2), us_buffer = Some link_u16\<rparr>"

definition driver_entry :: "entry_results \<Rightarrow> sensor \<Rightarrow> sensor \<times> ntstatus" where
  "driver_entry r s0 =
     (let s1 = init_statics s0 in
      if fst (er_create_device r) \<noteq> STATUS_SUCCESS then (s1, fst (er_create_device r)) else
      let s2 = s1\<lparr>device_exists := True\<rparr> in
      if er_symbolic_link r \<noteq> STATUS_SUCCESS then (s2, er_symbolic_link r) else
      let s3 = s2\<lparr>symlinks := us_slice entry_link_name # symlinks s2, local_device_object := Some (snd (er_create_device r))\<rparr> in
      if er_process_notify r \<noteq> STATUS_SUCCESS then (s3, er_process_notify r) else
      let s4 = s3\<lparr>process_callback := True\<rparr> in
      if er_thread_notify r \<noteq> STATUS_SUCCESS then (s4, er_thread_notify r) else
      (s4\<lparr>thread_callback := True\<rparr>, STATUS_SUCCESS))"

text \<open>The statics before the entry point runs.\<close>

definition unloaded :: "(nat \<Rightarrow> irp) \<Rightarrow> sensor" where
  "unloaded is =
     \<lparr>pending_irp = None, irps = is, pending_scans = None, target_pids = None,
      request_id_counter = 1, event_queue = None, verdict_cache = None, agent_process = None,
      object_refs = (\<lambda>_. 0), apc_count = 0, apc_ctxs = Map.empty, terminated = [],
      local_device_object = None, device_exists = False, symlinks = [],
      process_callback = False, thread_callback = False, freed_memory_access = False\<rparr>"

definition loaded :: "(nat \<Rightarrow> irp) \<Rightarrow> nat \<Rightarrow> sensor" where
  "loaded is dev =
     fst (driver_entry \<lparr>er_create_device = (STATUS_SUCCESS, dev), er_symbolic_link = STATUS_SUCCESS,
       er_process_notify = STATUS_SUCCESS, er_thread_notify = STATUS_SUCCESS\<rparr> (unloaded is))"

lemma loaded_fields [simp]:
  "pending_irp (loaded is dev) = None" "irps (loaded is dev) = is"
  "pending_scans (loaded is dev) = Some []" "target_pids (loaded is dev) = Some []"
  "event_queue (loaded is dev) = Some []" "verdict_cache (loaded is dev) = Some []"
  "agent_process (loaded is dev) = None" "apc_count (loaded is dev) = 0"
  "apc_ctxs (loaded is dev) = Map.empty" "terminated (loaded is dev) = []"
  "request_id_counter (loaded is dev) = 1" "object_refs (loaded is dev) = (\<lambda>_. 0)"
  "freed_memory_access (loaded is dev) = False" "device_exists (loaded is dev)"
  "symlinks (loaded is dev) = [link_u16]" "local_device_object (loaded is dev) = Some dev" "process_callback (loaded is dev)" "thread_callback (loaded is dev)"
  by (simp_all add: loaded_def unloaded_def driver_entry_def init_statics_def Let_def
      entry_link_name_def us_slice_def link_u16_def bs_def)

subsection \<open>The static allow list\<close>

definition to_upper :: "u16 \<Rightarrow> u16" where
  "to_upper c = (if 97 \<le> c \<and> c \<le> 122 then c - 32 else c)"

definition starts_with_ignore_case :: "u16 list \<Rightarrow> u16 list \<Rightarrow> bool" where
  "starts_with_ignore_case haystack needle =
     (if length haystack < length needle then False
      else list_all (\<lambda>(h, n). to_upper h = to_upper n) (zip haystack needle))"

definition sys32_c :: "u16 list" where
  "sys32_c = wide (bs @ ''??'' @ bs @ ''C:'' @ bs @ ''Windows'' @ bs @ ''System32'' @ bs)"
definition syswow_c :: "u16 list" where
  "syswow_c = wide (bs @ ''??'' @ bs @ ''C:'' @ bs @ ''Windows'' @ bs @ ''SysWOW64'' @ bs)"
definition sys32_root :: "u16 list" where
  "sys32_root = wide (bs @ ''SystemRoot'' @ bs @ ''System32'' @ bs)"
definition syswow_root :: "u16 list" where
  "syswow_root = wide (bs @ ''SystemRoot'' @ bs @ ''SysWOW64'' @ bs)"

definition is_allowlisted_static :: "unicode_string option \<Rightarrow> bool" where
  "is_allowlisted_static image_name =
     (case image_name of
        None \<Rightarrow> False
      | Some u \<Rightarrow>
          (let slice = us_slice u in
           starts_with_ignore_case slice sys32_c \<or> starts_with_ignore_case slice syswow_c
           \<or> starts_with_ignore_case slice sys32_root \<or> starts_with_ignore_case slice syswow_root))"

lemma starts_with_ignore_case_iff:
  "starts_with_ignore_case h n \<longleftrightarrow> (\<exists>p r. h = p @ r \<and> map to_upper p = map to_upper n)"
proof (cases "length h < length n")
  case True
  then have "\<And>p r. h = p @ r \<Longrightarrow> map to_upper p \<noteq> map to_upper n"
    using map_eq_imp_length_eq by fastforce
  with True show ?thesis by (auto simp: starts_with_ignore_case_def)
next
  case False
  then have "starts_with_ignore_case h n \<longleftrightarrow> map to_upper (take (length n) h) = map to_upper n"
    by (auto simp: starts_with_ignore_case_def list_all_length list_eq_iff_nth_eq)
  also have "\<dots> \<longleftrightarrow> (\<exists>p r. h = p @ r \<and> map to_upper p = map to_upper n)"
  proof
    assume "map to_upper (take (length n) h) = map to_upper n"
    then show "\<exists>p r. h = p @ r \<and> map to_upper p = map to_upper n"
      by (metis append_take_drop_id)
  next
    assume "\<exists>p r. h = p @ r \<and> map to_upper p = map to_upper n"
    then obtain p r where h: "h = p @ r" and eq: "map to_upper p = map to_upper n" by blast
    then have "take (length n) h = p" by (metis append_eq_conv_conj map_eq_imp_length_eq)
    with eq show "map to_upper (take (length n) h) = map to_upper n" by simp
  qed
  finally show ?thesis .
qed

lemma starts_with_ignore_case_append: "starts_with_ignore_case (n @ r) n"
  by (auto simp: starts_with_ignore_case_iff)

text \<open>\<open>get_kernel_time\<close>: the signed system time read as an unsigned tick count.\<close>

definition get_kernel_time :: "int \<Rightarrow> u64" where
  "get_kernel_time quad_part = word_of_int quad_part"

subsection \<open>IRPs for the witnesses\<close>

definition sample_verdict :: galatea_verdict where
  "sample_verdict = \<lparr>gv_process_id = 42, gv_request_id = 1, gv_allow = True\<rparr>"

definition sample_event :: galatea_event where
  "sample_event = \<lparr>ge_process_id = 42, ge_request_id = 1, ge_frozen = True,
     ge_image_path = replicate PATH_LEN 0\<rparr>"

definition sample_irp :: "u32 \<Rightarrow> nat \<Rightarrow> irp" where
  "sample_irp code len =
     \<lparr>irp_control_code = code, irp_output_len = len, irp_input_len = 24, irp_input = sample_verdict,
      irp_output = None, irp_status = STATUS_SUCCESS, irp_information = 0, irp_cancel_routine = False,
      irp_pending_returned = False, irp_completions = 0\<rparr>"

definition sample_irps :: "nat \<Rightarrow> irp" where
  "sample_irps p = sample_irp (if p = 0 then IOCTL_REGISTER_AGENT
     else if p = 3 then IOCTL_SEND_VERDICT else IOCTL_GET_EVENT) 544"

end
