(* ===== verification/Sensor_Verdicts.thy ===== *)
theory Sensor_Verdicts
  imports Sensor_State
begin

text \<open>
  The three lists the sensor searches by key (intercepted processes, pending scans, cached
  verdicts) and the delivery of a verdict, \<open>apply_verdict\<close> and \<open>check_early_verdict\<close> of
  \<open>apc.rs\<close>. What one spin lock guards is one definition, so that the step relation of
  \<open>Sensor_Apc\<close> can interleave them.
\<close>

subsection \<open>Taking the first entry of a key out of a list\<close>

locale keyed_list =
  fixes entries :: "'s \<Rightarrow> 'e list"
    and key :: "'e \<Rightarrow> 'k"
    and take_out :: "'k \<Rightarrow> 's \<Rightarrow> 's \<times> 'e option"
  assumes take_out_entries: "entries (fst (take_out k s)) = remove_first (\<lambda>e. key e = k) (entries s)"
    and take_out_result: "snd (take_out k s) = find (\<lambda>e. key e = k) (entries s)"
begin

lemma take_out_None_iff: "snd (take_out k s) = None \<longleftrightarrow> k \<notin> key ` set (entries s)"
  by (auto simp: take_out_result find_None_iff image_iff)

lemma take_out_SomeD: "snd (take_out k s) = Some e \<Longrightarrow> e \<in> set (entries s) \<and> key e = k"
  by (drule trans [OF take_out_result [symmetric]]) (auto dest: find_SomeD)

lemma take_out_keeps_distinct:
  "distinct (map key (entries s)) \<Longrightarrow> distinct (map key (entries (fst (take_out k s))))"
  by (simp add: take_out_entries distinct_map_remove_first)

lemma take_out_set:
  "distinct (map key (entries s)) \<Longrightarrow>
     set (entries (fst (take_out k s))) = {e \<in> set (entries s). key e \<noteq> k}"
  by (simp add: take_out_entries set_remove_first_key)

lemma take_out_subset: "set (entries (fst (take_out k s))) \<subseteq> set (entries s)"
  by (simp add: take_out_entries set_remove_first_subset)

text \<open>A key is taken out once: the second attempt finds nothing.\<close>

lemma take_out_once:
  "distinct (map key (entries s)) \<Longrightarrow> snd (take_out k (fst (take_out k s))) = None"
  by (auto simp: take_out_None_iff take_out_set)

lemma take_out_known:
  "distinct (map key (entries s)) \<Longrightarrow> e \<in> set (entries s) \<Longrightarrow> snd (take_out (key e) s) = Some e"
  by (simp add: take_out_result find_eq_Some_key)

end

definition opt_list :: "'a list option \<Rightarrow> 'a list" where
  "opt_list l = (case l of None \<Rightarrow> [] | Some xs \<Rightarrow> xs)"

lemma opt_list_simps [simp]: "opt_list None = []" "opt_list (Some xs) = xs"
  by (simp_all add: opt_list_def)

lemma opt_list_map_option: "opt_list (map_option f l) = (case l of None \<Rightarrow> [] | Some xs \<Rightarrow> f xs)"
  by (cases l) simp_all

definition take_target :: "u64 \<Rightarrow> sensor \<Rightarrow> sensor \<times> target_process option" where
  "take_target pid s =
     (case target_pids s of
        None \<Rightarrow> (s, None)
      | Some list \<Rightarrow>
          (case find (\<lambda>x. tp_pid x = pid) list of
             None \<Rightarrow> (s, None)
           | Some item \<Rightarrow>
               (s\<lparr>target_pids := Some (remove_first (\<lambda>x. tp_pid x = pid) list)\<rparr>, Some item)))"

definition remove_pending :: "u64 \<Rightarrow> sensor \<Rightarrow> sensor \<times> pending_scan option" where
  "remove_pending pid s =
     (case pending_scans s of
        None \<Rightarrow> (s, None)
      | Some list \<Rightarrow>
          (case find (\<lambda>x. ps_pid x = pid) list of
             None \<Rightarrow> (s, None)
           | Some item \<Rightarrow>
               (s\<lparr>pending_scans := Some (remove_first (\<lambda>x. ps_pid x = pid) list)\<rparr>, Some item)))"

definition take_verdict :: "u64 \<Rightarrow> sensor \<Rightarrow> sensor \<times> cached_verdict option" where
  "take_verdict req_id s =
     (case verdict_cache s of
        None \<Rightarrow> (s, None)
      | Some cache \<Rightarrow>
          (case find (\<lambda>x. cv_request_id x = req_id) cache of
             None \<Rightarrow> (s, None)
           | Some entry \<Rightarrow>
               (s\<lparr>verdict_cache := Some (remove_first (\<lambda>x. cv_request_id x = req_id) cache)\<rparr>,
                Some entry)))"

definition verdict_status :: "bool \<Rightarrow> ntstatus" where
  "verdict_status allow = (if allow then STATUS_SUCCESS else STATUS_ACCESS_DENIED)"

definition check_early_verdict :: "u64 \<Rightarrow> sensor \<Rightarrow> sensor \<times> ntstatus option" where
  "check_early_verdict req_id s =
     (case take_verdict req_id s of
        (s', None) \<Rightarrow> (s', None)
      | (s', Some entry) \<Rightarrow> (s', Some (verdict_status (cv_allowed entry))))"

lemma find_None_remove_first:
  assumes "find p xs = None"
  shows "remove_first p xs = xs"
  using assms by (intro remove_first_absent) (auto simp: find_None_iff)

interpretation targets: keyed_list "\<lambda>s. opt_list (target_pids s)" tp_pid take_target
  by unfold_locales
    (auto simp: take_target_def find_None_remove_first split: option.splits)

interpretation pendings: keyed_list "\<lambda>s. opt_list (pending_scans s)" ps_pid remove_pending
  by unfold_locales
    (auto simp: remove_pending_def find_None_remove_first split: option.splits)

interpretation verdicts: keyed_list "\<lambda>s. opt_list (verdict_cache s)" cv_request_id take_verdict
  by unfold_locales
    (auto simp: take_verdict_def find_None_remove_first split: option.splits)

text \<open>What the three operations leave alone.\<close>

lemma take_target_frame [frame_simps]:
  "pending_scans (fst (take_target k s)) = pending_scans s"
  "apc_ctxs (fst (take_target k s)) = apc_ctxs s"
  "apc_count (fst (take_target k s)) = apc_count s"
  "verdict_cache (fst (take_target k s)) = verdict_cache s"
  "event_queue (fst (take_target k s)) = event_queue s"
  "freed_memory_access (fst (take_target k s)) = freed_memory_access s"
  "terminated (fst (take_target k s)) = terminated s"
  "request_id_counter (fst (take_target k s)) = request_id_counter s"
  "(target_pids (fst (take_target k s)) = None) = (target_pids s = None)"
  by (auto simp: take_target_def split: option.splits)

lemma remove_pending_frame [frame_simps]:
  "target_pids (fst (remove_pending k s)) = target_pids s"
  "apc_ctxs (fst (remove_pending k s)) = apc_ctxs s"
  "apc_count (fst (remove_pending k s)) = apc_count s"
  "verdict_cache (fst (remove_pending k s)) = verdict_cache s"
  "event_queue (fst (remove_pending k s)) = event_queue s"
  "freed_memory_access (fst (remove_pending k s)) = freed_memory_access s"
  "terminated (fst (remove_pending k s)) = terminated s"
  "request_id_counter (fst (remove_pending k s)) = request_id_counter s"
  "(pending_scans (fst (remove_pending k s)) = None) = (pending_scans s = None)"
  by (auto simp: remove_pending_def split: option.splits)

lemma check_early_verdict_frame [frame_simps]:
  "target_pids (fst (check_early_verdict k s)) = target_pids s"
  "pending_scans (fst (check_early_verdict k s)) = pending_scans s"
  "apc_ctxs (fst (check_early_verdict k s)) = apc_ctxs s"
  "apc_count (fst (check_early_verdict k s)) = apc_count s"
  "event_queue (fst (check_early_verdict k s)) = event_queue s"
  "freed_memory_access (fst (check_early_verdict k s)) = freed_memory_access s"
  "terminated (fst (check_early_verdict k s)) = terminated s"
  "request_id_counter (fst (check_early_verdict k s)) = request_id_counter s"
  by (auto simp: check_early_verdict_def take_verdict_def split: option.splits)

lemma check_early_verdict_cases:
  "snd (check_early_verdict k s) \<in> {None, Some STATUS_SUCCESS, Some STATUS_ACCESS_DENIED}"
  by (auto simp: check_early_verdict_def verdict_status_def split: prod.splits option.splits)

lemma check_early_verdict_None_iff:
  "snd (check_early_verdict k s) = None \<longleftrightarrow> k \<notin> cv_request_id ` set (opt_list (verdict_cache s))"
  using verdicts.take_out_None_iff [of k s]
  by (auto simp: check_early_verdict_def split: prod.splits option.splits)

lemma check_early_verdict_absent:
  assumes "k \<notin> cv_request_id ` set (opt_list (verdict_cache s))"
  shows "check_early_verdict k s = (s, None)"
proof (cases "verdict_cache s")
  case (Some c)
  then have "find (\<lambda>x. cv_request_id x = k) c = None" using assms by (auto simp: find_None_iff)
  with Some show ?thesis by (simp add: check_early_verdict_def take_verdict_def)
qed (simp add: check_early_verdict_def take_verdict_def)

subsection \<open>Signalling the event of a pending scan\<close>

definition set_event :: "nat \<Rightarrow> sensor \<Rightarrow> sensor" where
  "set_event p s =
     (case apc_ctxs s p of
        None \<Rightarrow> s\<lparr>freed_memory_access := True\<rparr>
      | Some c \<Rightarrow> s\<lparr>apc_ctxs := (apc_ctxs s)(p \<mapsto> c\<lparr>fc_signalled := True\<rparr>)\<rparr>)"

lemma set_event_frame [frame_simps]:
  "target_pids (set_event p s) = target_pids s"
  "pending_scans (set_event p s) = pending_scans s"
  "apc_count (set_event p s) = apc_count s"
  "verdict_cache (set_event p s) = verdict_cache s"
  "event_queue (set_event p s) = event_queue s"
  "terminated (set_event p s) = terminated s"
  "request_id_counter (set_event p s) = request_id_counter s"
  "dom (apc_ctxs (set_event p s)) = dom (apc_ctxs s)"
  by (auto simp: set_event_def split: option.splits)

text \<open>The first critical section of \<open>apply_verdict\<close>: under \<open>PENDING_SCANS_LOCK\<close>.\<close>

definition deliver_pending :: "u64 \<Rightarrow> bool \<Rightarrow> sensor \<Rightarrow> sensor \<times> bool" where
  "deliver_pending req_id allow s =
     (case pending_scans s of
        None \<Rightarrow> (s, False)
      | Some list \<Rightarrow>
          (case find (\<lambda>x. ps_request_id x = req_id) list of
             None \<Rightarrow> (s, False)
           | Some item \<Rightarrow>
               (set_event (ps_event_ptr item)
                  (s\<lparr>pending_scans := Some (update_first (\<lambda>x. ps_request_id x = req_id)
                        (\<lambda>x. x\<lparr>ps_verdict := verdict_status allow\<rparr>) list)\<rparr>),
                True)))"

subsection \<open>The verdict cache\<close>

text \<open>\<open>cache.retain(|entry| (now - entry.timestamp) < MAX_VERDICT_CACHE_TTL)\<close>.\<close>

definition retain_fresh :: "u64 \<Rightarrow> cached_verdict list \<Rightarrow> cached_verdict list" where
  "retain_fresh now cache = filter (\<lambda>e. now - cv_timestamp e < MAX_VERDICT_CACHE_TTL) cache"

text \<open>\<open>while cache.len() >= MAX_VERDICT_CACHE_SIZE { cache.remove(0); }\<close>.\<close>

function evict_oldest :: "cached_verdict list \<Rightarrow> cached_verdict list" where
  "evict_oldest cache =
     (if MAX_VERDICT_CACHE_SIZE \<le> length cache then evict_oldest (tl cache) else cache)"
  by pat_completeness auto
termination
  by (relation "measure length") (auto simp: MAX_VERDICT_CACHE_SIZE_def)

declare evict_oldest.simps [simp del]

text \<open>The second critical section of \<open>apply_verdict\<close>: under \<open>CACHE_LOCK\<close>.\<close>

definition cache_verdict :: "u64 \<Rightarrow> u64 \<Rightarrow> bool \<Rightarrow> sensor \<Rightarrow> sensor" where
  "cache_verdict now req_id allow s =
     (case verdict_cache s of
        None \<Rightarrow> s
      | Some cache0 \<Rightarrow>
          (let cache = evict_oldest (retain_fresh now cache0) in
           case find (\<lambda>x. cv_request_id x = req_id) cache of
             Some existing \<Rightarrow>
               s\<lparr>verdict_cache := Some (update_first (\<lambda>x. cv_request_id x = req_id)
                   (\<lambda>x. x\<lparr>cv_allowed := allow, cv_timestamp := now\<rparr>) cache)\<rparr>
           | None \<Rightarrow>
               s\<lparr>verdict_cache := Some (cache @
                   [\<lparr>cv_request_id = req_id, cv_allowed = allow, cv_timestamp = now\<rparr>])\<rparr>))"

definition apply_verdict :: "u64 \<Rightarrow> u64 \<Rightarrow> bool \<Rightarrow> u64 \<Rightarrow> sensor \<Rightarrow> sensor \<times> bool" where
  "apply_verdict pid req_id allow now s =
     (case deliver_pending req_id allow s of
        (s', True) \<Rightarrow> (s', True)
      | (s', False) \<Rightarrow> (cache_verdict now req_id allow s', True))"

lemma evict_oldest_eq: "evict_oldest c = drop (Suc (length c) - MAX_VERDICT_CACHE_SIZE) c"
proof (induction c rule: evict_oldest.induct)
  case (1 c)
  show ?case
  proof (cases "MAX_VERDICT_CACHE_SIZE \<le> length c")
    case True
    then obtain x xs where c: "c = x # xs" by (cases c) (auto simp: MAX_VERDICT_CACHE_SIZE_def)
    with True 1 have "evict_oldest c = drop (Suc (length xs) - MAX_VERDICT_CACHE_SIZE) xs"
      by (subst evict_oldest.simps) simp
    with True c show ?thesis by (simp add: Suc_diff_le)
  next
    case False
    then show ?thesis by (subst evict_oldest.simps) simp
  qed
qed

lemma length_evict_oldest: "length (evict_oldest c) < MAX_VERDICT_CACHE_SIZE"
  by (auto simp: evict_oldest_eq MAX_VERDICT_CACHE_SIZE_def)

lemma set_evict_oldest: "set (evict_oldest c) \<subseteq> set c"
  by (simp add: evict_oldest_eq set_drop_subset)

lemma distinct_evict_oldest: "distinct (map f c) \<Longrightarrow> distinct (map f (evict_oldest c))"
  by (simp add: evict_oldest_eq drop_map [symmetric])

lemma distinct_retain_fresh: "distinct (map f c) \<Longrightarrow> distinct (map f (retain_fresh now c))"
  by (auto simp: retain_fresh_def distinct_map_filter)

text \<open>The cache as the sensor keeps it: bounded, with one entry for a request.\<close>

definition cache_inv :: "sensor \<Rightarrow> bool" where
  "cache_inv s \<longleftrightarrow>
     length (opt_list (verdict_cache s)) \<le> MAX_VERDICT_CACHE_SIZE
     \<and> distinct (map cv_request_id (opt_list (verdict_cache s)))"

lemma cache_verdict_cache_inv:
  assumes "cache_inv s"
  shows "cache_inv (cache_verdict now rid allow s)"
proof (cases "verdict_cache s")
  case None
  with assms show ?thesis by (simp add: cache_verdict_def)
next
  case (Some c0)
  define c where "c = evict_oldest (retain_fresh now c0)"
  from assms Some have "distinct (map cv_request_id c)"
    by (simp add: c_def cache_inv_def distinct_evict_oldest distinct_retain_fresh)
  moreover have "length c < MAX_VERDICT_CACHE_SIZE" by (simp add: c_def length_evict_oldest)
  moreover have "map cv_request_id (update_first (\<lambda>x. cv_request_id x = rid)
      (\<lambda>x. x\<lparr>cv_allowed := allow, cv_timestamp := now\<rparr>) c) = map cv_request_id c"
    by (rule map_update_first_key) simp
  ultimately show ?thesis
    using Some by (auto simp: cache_verdict_def cache_inv_def c_def [symmetric] Let_def find_None_iff
        split: option.splits)
qed

lemma cache_verdict_frame [frame_simps]:
  "target_pids (cache_verdict now rid a s) = target_pids s"
  "pending_scans (cache_verdict now rid a s) = pending_scans s"
  "apc_ctxs (cache_verdict now rid a s) = apc_ctxs s"
  "apc_count (cache_verdict now rid a s) = apc_count s"
  "event_queue (cache_verdict now rid a s) = event_queue s"
  "freed_memory_access (cache_verdict now rid a s) = freed_memory_access s"
  "terminated (cache_verdict now rid a s) = terminated s"
  "request_id_counter (cache_verdict now rid a s) = request_id_counter s"
  by (auto simp: cache_verdict_def Let_def split: option.splits)

lemma deliver_pending_frame [frame_simps]:
  "target_pids (fst (deliver_pending rid a s)) = target_pids s"
  "verdict_cache (fst (deliver_pending rid a s)) = verdict_cache s"
  "apc_count (fst (deliver_pending rid a s)) = apc_count s"
  "event_queue (fst (deliver_pending rid a s)) = event_queue s"
  "terminated (fst (deliver_pending rid a s)) = terminated s"
  "request_id_counter (fst (deliver_pending rid a s)) = request_id_counter s"
  "dom (apc_ctxs (fst (deliver_pending rid a s))) = dom (apc_ctxs s)"
  by (auto simp: deliver_pending_def frame_simps split: option.splits)

lemma deliver_pending_found_iff:
  "snd (deliver_pending rid a s) \<longleftrightarrow> rid \<in> ps_request_id ` set (opt_list (pending_scans s))"
  by (auto simp: deliver_pending_def find_None_iff dest!: find_SomeD split: option.splits)

lemma deliver_pending_absent:
  "\<not> snd (deliver_pending rid a s) \<Longrightarrow> fst (deliver_pending rid a s) = s"
  by (auto simp: deliver_pending_def split: option.splits)

lemma apply_verdict_cache_inv: "cache_inv s \<Longrightarrow> cache_inv (fst (apply_verdict pid rid a now s))"
proof -
  assume inv: "cache_inv s"
  then have "cache_inv (fst (deliver_pending rid a s))" by (simp add: cache_inv_def frame_simps)
  then show ?thesis
    by (auto simp: apply_verdict_def intro: cache_verdict_cache_inv split: prod.splits bool.splits)
qed

text \<open>After it ran, the cache holds the verdict for the request, and what it holds is fresh.\<close>

lemma cache_verdict_entry:
  assumes "cache_inv s" and "verdict_cache s \<noteq> None"
  shows "\<lparr>cv_request_id = rid, cv_allowed = a, cv_timestamp = now\<rparr>
           \<in> set (opt_list (verdict_cache (cache_verdict now rid a s)))"
proof -
  from assms(2) obtain c0 where c0: "verdict_cache s = Some c0" by blast
  define c where "c = evict_oldest (retain_fresh now c0)"
  have d: "distinct (map cv_request_id c)"
    using assms(1) c0 by (simp add: c_def cache_inv_def distinct_evict_oldest distinct_retain_fresh)
  show ?thesis
  proof (cases "find (\<lambda>x. cv_request_id x = rid) c")
    case None
    then show ?thesis by (simp add: cache_verdict_def c0 c_def [symmetric] Let_def)
  next
    case (Some e)
    then have e: "e \<in> set c" "cv_request_id e = rid" by (auto dest: find_SomeD)
    from e(1) have "(if cv_request_id e = rid then e\<lparr>cv_allowed := a, cv_timestamp := now\<rparr> else e)
        \<in> set (update_first (\<lambda>x. cv_request_id x = rid) (\<lambda>x. x\<lparr>cv_allowed := a, cv_timestamp := now\<rparr>) c)"
      by (subst set_update_first_key [OF d]) auto
    moreover have "e\<lparr>cv_allowed := a, cv_timestamp := now\<rparr>
        = \<lparr>cv_request_id = rid, cv_allowed = a, cv_timestamp = now\<rparr>"
      using e(2) by (cases e) simp
    ultimately show ?thesis
      using e(2) Some by (simp add: cache_verdict_def c0 c_def [symmetric] Let_def)
  qed
qed

lemma cache_verdict_fresh:
  assumes "e \<in> set (opt_list (verdict_cache (cache_verdict now rid a s)))"
  shows "now - cv_timestamp e < MAX_VERDICT_CACHE_TTL"
proof (cases "verdict_cache s")
  case None
  with assms show ?thesis by (simp add: cache_verdict_def)
next
  case (Some c0)
  define c where "c = evict_oldest (retain_fresh now c0)"
  have old: "now - cv_timestamp x < MAX_VERDICT_CACHE_TTL" if "x \<in> set c" for x
    using that set_evict_oldest [of "retain_fresh now c0"] by (auto simp: c_def retain_fresh_def)
  from assms Some have "e \<in> set c \<or> cv_timestamp e = now"
    by (auto simp: cache_verdict_def c_def [symmetric] Let_def dest!: in_update_first
        split: option.splits)
  then show ?thesis using old by (auto simp: MAX_VERDICT_CACHE_TTL_def)
qed

lemma take_verdict_inserted:
  assumes "cache_inv s" and "verdict_cache s \<noteq> None"
  shows "snd (check_early_verdict rid (cache_verdict now rid a s)) = Some (verdict_status a)"
proof -
  let ?s = "cache_verdict now rid a s"
  let ?e = "\<lparr>cv_request_id = rid, cv_allowed = a, cv_timestamp = now\<rparr>"
  have "distinct (map cv_request_id (opt_list (verdict_cache ?s)))"
    using cache_verdict_cache_inv [OF assms(1)] by (simp add: cache_inv_def)
  from verdicts.take_out_known [OF this cache_verdict_entry [OF assms]]
  have "snd (take_verdict rid ?s) = Some ?e" by simp
  then show ?thesis by (auto simp: check_early_verdict_def split: prod.splits)
qed


subsection \<open>Properties\<close>



end
