(* ===== verification/Sensor_Irp.thy ===== *)
theory Sensor_Irp
  imports Sensor_Verdicts "HOL-Library.Sublist"
begin

text \<open>
  The inverted call between the sensor and the agent: the dispatch routines of \<open>ioctl.rs\<close> and
  the process callback of \<open>callback.rs\<close>, which either completes the agent's pending
  \<open>IOCTL_GET_EVENT\<close> request or queues the event.
\<close>

subsection \<open>IRP primitives\<close>

definition upd_irp :: "nat \<Rightarrow> (irp \<Rightarrow> irp) \<Rightarrow> sensor \<Rightarrow> sensor" where
  "upd_irp p f s = s\<lparr>irps := (irps s)(p := f (irps s p))\<rparr>"

text \<open>\<open>IofCompleteRequest\<close>.\<close>

definition complete_request :: "nat \<Rightarrow> sensor \<Rightarrow> sensor" where
  "complete_request p = upd_irp p (\<lambda>i. i\<lparr>irp_completions := Suc (irp_completions i)\<rparr>)"

definition finish_irp :: "nat \<Rightarrow> ntstatus \<Rightarrow> nat \<Rightarrow> sensor \<Rightarrow> sensor" where
  "finish_irp p st info s =
     complete_request p (upd_irp p (\<lambda>i. i\<lparr>irp_status := st, irp_information := info\<rparr>) s)"

definition io_mark_irp_pending :: "nat \<Rightarrow> sensor \<Rightarrow> sensor" where
  "io_mark_irp_pending p = upd_irp p (\<lambda>i. i\<lparr>irp_pending_returned := True\<rparr>)"

text \<open>The atomic swap of the cancel routine: the new state and whether one was set before.\<close>

definition io_set_cancel_routine :: "nat \<Rightarrow> bool \<Rightarrow> sensor \<Rightarrow> sensor \<times> bool" where
  "io_set_cancel_routine p routine s =
     (upd_irp p (\<lambda>i. i\<lparr>irp_cancel_routine := routine\<rparr>) s, irp_cancel_routine (irps s p))"

lemma upd_irp_irps [simp]: "irps (upd_irp p f s) = (irps s)(p := f (irps s p))"
  by (simp add: upd_irp_def)

lemma upd_irp_frame [simp]:
  "pending_irp (upd_irp p f s) = pending_irp s" "event_queue (upd_irp p f s) = event_queue s"
  "agent_process (upd_irp p f s) = agent_process s" "object_refs (upd_irp p f s) = object_refs s"
  "target_pids (upd_irp p f s) = target_pids s" "pending_scans (upd_irp p f s) = pending_scans s"
  "verdict_cache (upd_irp p f s) = verdict_cache s" "apc_ctxs (upd_irp p f s) = apc_ctxs s"
  "apc_count (upd_irp p f s) = apc_count s" "terminated (upd_irp p f s) = terminated s"
  "request_id_counter (upd_irp p f s) = request_id_counter s"
  "freed_memory_access (upd_irp p f s) = freed_memory_access s"
  by (simp_all add: upd_irp_def)

subsection \<open>The process callback\<close>

definition event_image_path :: "unicode_string option \<Rightarrow> u16 list" where
  "event_image_path img =
     (case img of
        None \<Rightarrow> replicate PATH_LEN 0
      | Some u \<Rightarrow> (case us_buffer u of None \<Rightarrow> replicate PATH_LEN 0 | Some _ \<Rightarrow> fill_path (us_slice u)))"

definition queue_event :: "galatea_event \<Rightarrow> sensor \<Rightarrow> sensor" where
  "queue_event event s =
     (case event_queue s of
        None \<Rightarrow> s
      | Some q \<Rightarrow>
          (if length q < EVENT_QUEUE_LIMIT then s\<lparr>event_queue := Some (q @ [event])\<rparr> else s))"

text \<open>\<open>irp_answer\<close> is the block that fills the pending IRP once its cancel routine is cleared.\<close>

definition irp_answer :: "nat \<Rightarrow> galatea_event \<Rightarrow> sensor \<Rightarrow> sensor" where
  "irp_answer p event s =
     (if size_of_event \<le> irp_output_len (irps s p)
      then finish_irp p STATUS_SUCCESS size_of_event
             (upd_irp p (\<lambda>i. i\<lparr>irp_output := Some event\<rparr>) s)
      else finish_irp p STATUS_BUFFER_TOO_SMALL 0 s)"

definition notify_agent :: "u64 \<Rightarrow> u64 \<Rightarrow> unicode_string option \<Rightarrow> bool \<Rightarrow> sensor \<Rightarrow> sensor" where
  "notify_agent pid rid img frozen s =
     (let event = \<lparr>ge_process_id = pid, ge_request_id = rid, ge_frozen = frozen,
                   ge_image_path = event_image_path img\<rparr> in
      case pending_irp s of
        Some p \<Rightarrow>
          (case io_set_cancel_routine p False s of
             (s1, True) \<Rightarrow> irp_answer p event (s1\<lparr>pending_irp := None\<rparr>)
           | (s1, False) \<Rightarrow> queue_event event s1)
      | None \<Rightarrow> queue_event event s)"

record create_info =
  ci_image_file_name :: "unicode_string option"

definition push_target :: "u64 \<Rightarrow> u64 \<Rightarrow> sensor \<Rightarrow> sensor" where
  "push_target pid rid s =
     (case target_pids s of
        None \<Rightarrow> s
      | Some list \<Rightarrow> s\<lparr>target_pids := Some (list @ [\<lparr>tp_pid = pid, tp_request_id = rid\<rparr>])\<rparr>)"

definition process_notify_routine :: "u64 \<Rightarrow> create_info option \<Rightarrow> sensor \<Rightarrow> sensor" where
  "process_notify_routine process_id create_info s =
     (case create_info of
        None \<Rightarrow> s
      | Some info \<Rightarrow>
          (case ci_image_file_name info of
             None \<Rightarrow> s
           | Some img \<Rightarrow>
               (let req_id = request_id_counter s;
                    s1 = s\<lparr>request_id_counter := req_id + 1\<rparr>;
                    fastpass = is_allowlisted_static (Some img);
                    s2 = (if \<not> fastpass then push_target process_id req_id s1 else s1)
                in notify_agent process_id req_id (Some img) (\<not> fastpass) s2)))"

subsection \<open>Dispatch routines\<close>

definition dispatch_create_close :: "nat \<Rightarrow> sensor \<Rightarrow> sensor \<times> ntstatus" where
  "dispatch_create_close p s = (finish_irp p STATUS_SUCCESS 0 s, STATUS_SUCCESS)"

text \<open>A queued event is handed to the IRP; a short buffer leaves \<open>Information\<close> as it was.\<close>

definition ioctl_answer_queued :: "nat \<Rightarrow> galatea_event \<Rightarrow> sensor \<Rightarrow> sensor" where
  "ioctl_answer_queued p evt s =
     (if size_of_event \<le> irp_output_len (irps s p)
      then complete_request p (upd_irp p (\<lambda>i. i\<lparr>irp_output := Some evt,
             irp_information := size_of_event, irp_status := STATUS_SUCCESS\<rparr>) s)
      else complete_request p (upd_irp p (\<lambda>i. i\<lparr>irp_status := STATUS_BUFFER_TOO_SMALL\<rparr>) s))"

definition ioctl_get_event :: "nat \<Rightarrow> sensor \<Rightarrow> sensor \<times> ntstatus" where
  "ioctl_get_event p s =
     (if pending_irp s \<noteq> None then (finish_irp p STATUS_UNSUCCESSFUL 0 s, STATUS_UNSUCCESSFUL)
      else
        (case event_queue s of
           Some (evt # q) \<Rightarrow> (ioctl_answer_queued p evt (s\<lparr>event_queue := Some q\<rparr>), STATUS_SUCCESS)
         | _ \<Rightarrow>
           (let s1 = io_mark_irp_pending p s;
                s2 = s1\<lparr>pending_irp := Some p\<rparr>
            in (fst (io_set_cancel_routine p True s2), STATUS_PENDING))))"

definition ioctl_send_verdict :: "u64 \<Rightarrow> nat \<Rightarrow> sensor \<Rightarrow> sensor \<times> ntstatus" where
  "ioctl_send_verdict now p s =
     (if irp_input_len (irps s p) < size_of_verdict
      then (finish_irp p STATUS_UNSUCCESSFUL 0 s, STATUS_UNSUCCESSFUL)
      else
        (let verdict_data = irp_input (irps s p);
             (s1, found) = apply_verdict (gv_process_id verdict_data) (gv_request_id verdict_data)
                             (gv_allow verdict_data) now s;
             status = (if found then STATUS_SUCCESS else STATUS_UNSUCCESSFUL)
         in (finish_irp p status 0 s1, status)))"

definition ob_reference :: "nat \<Rightarrow> sensor \<Rightarrow> sensor" where
  "ob_reference proc s = s\<lparr>object_refs := (object_refs s)(proc := object_refs s proc + 1)\<rparr>"

definition ob_dereference :: "nat \<Rightarrow> sensor \<Rightarrow> sensor" where
  "ob_dereference proc s = s\<lparr>object_refs := (object_refs s)(proc := object_refs s proc - 1)\<rparr>"

definition ioctl_register_agent :: "nat \<Rightarrow> nat \<Rightarrow> sensor \<Rightarrow> sensor \<times> ntstatus" where
  "ioctl_register_agent caller p s =
     (let s1 = ob_reference caller s in
      case agent_process s1 of
        None \<Rightarrow>
          (finish_irp p STATUS_SUCCESS 0 (s1\<lparr>agent_process := Some caller\<rparr>), STATUS_SUCCESS)
      | Some _ \<Rightarrow>
          (finish_irp p STATUS_ACCESS_DENIED 0 (ob_dereference caller s1), STATUS_ACCESS_DENIED))"

definition dispatch_device_control :: "nat \<Rightarrow> u64 \<Rightarrow> nat \<Rightarrow> sensor \<Rightarrow> sensor \<times> ntstatus" where
  "dispatch_device_control caller now p s =
     (let control_code = irp_control_code (irps s p) in
      if control_code \<noteq> IOCTL_REGISTER_AGENT \<and> agent_process s \<noteq> Some caller
      then (finish_irp p STATUS_ACCESS_DENIED 0 s, STATUS_ACCESS_DENIED)
      else if control_code = IOCTL_GET_EVENT then ioctl_get_event p s
      else if control_code = IOCTL_SEND_VERDICT then ioctl_send_verdict now p s
      else if control_code = IOCTL_REGISTER_AGENT then ioctl_register_agent caller p s
      else (finish_irp p STATUS_INVALID_DEVICE_REQUEST 0 s, STATUS_INVALID_DEVICE_REQUEST))"

definition dispatch_cleanup :: "nat \<Rightarrow> sensor \<Rightarrow> sensor \<times> ntstatus" where
  "dispatch_cleanup p s =
     (let (s1, irp_to_complete) =
        (case pending_irp s of
           None \<Rightarrow> (s, None)
         | Some pending \<Rightarrow>
             (case io_set_cancel_routine pending False s of
                (s', True) \<Rightarrow> (s'\<lparr>pending_irp := None\<rparr>, Some pending)
              | (s', False) \<Rightarrow> (s', None)));
        s2 = (case irp_to_complete of
                None \<Rightarrow> s1
              | Some q \<Rightarrow> finish_irp q STATUS_CANCELLED 0 s1)
      in (finish_irp p STATUS_SUCCESS 0 s2, STATUS_SUCCESS))"

definition cancel_routine :: "nat \<Rightarrow> sensor \<Rightarrow> sensor" where
  "cancel_routine p s =
     (if pending_irp s = Some p
      then finish_irp p STATUS_CANCELLED 0 (s\<lparr>pending_irp := None\<rparr>)
      else s)"

text \<open>
  The I/O manager's side of a cancellation: it takes the cancel routine off the IRP, and calls
  it later if there was one.
\<close>

definition io_cancel_irp :: "nat \<Rightarrow> sensor \<Rightarrow> sensor \<times> bool" where
  "io_cancel_irp p s = io_set_cancel_routine p False s"

lemmas irp_op_defs = finish_irp_def complete_request_def io_mark_irp_pending_def
  io_set_cancel_routine_def io_cancel_irp_def

subsection \<open>Frames\<close>

lemma set_event_irp_frame [simp]:
  "irps (set_event q s) = irps s" "pending_irp (set_event q s) = pending_irp s"
  "agent_process (set_event q s) = agent_process s" "object_refs (set_event q s) = object_refs s"
  "event_queue (set_event q s) = event_queue s"
  by (auto simp: set_event_def split: option.splits)

lemma deliver_pending_irp_frame [simp]:
  "irps (fst (deliver_pending r a s)) = irps s" "pending_irp (fst (deliver_pending r a s)) = pending_irp s"
  "agent_process (fst (deliver_pending r a s)) = agent_process s"
  "object_refs (fst (deliver_pending r a s)) = object_refs s"
  "event_queue (fst (deliver_pending r a s)) = event_queue s"
  by (auto simp: deliver_pending_def split: option.splits)

lemma cache_verdict_irp_frame [simp]:
  "irps (cache_verdict now r a s) = irps s" "pending_irp (cache_verdict now r a s) = pending_irp s"
  "agent_process (cache_verdict now r a s) = agent_process s"
  "object_refs (cache_verdict now r a s) = object_refs s"
  "event_queue (cache_verdict now r a s) = event_queue s"
  by (auto simp: cache_verdict_def Let_def split: option.splits)

lemma apply_verdict_irp_frame [simp]:
  "irps (fst (apply_verdict pid r a now s)) = irps s"
  "pending_irp (fst (apply_verdict pid r a now s)) = pending_irp s"
  "agent_process (fst (apply_verdict pid r a now s)) = agent_process s"
  "object_refs (fst (apply_verdict pid r a now s)) = object_refs s"
  "event_queue (fst (apply_verdict pid r a now s)) = event_queue s"
  using deliver_pending_irp_frame [of r a s]
  by (cases "deliver_pending r a s"; cases "snd (deliver_pending r a s)"; force simp: apply_verdict_def)+

lemma push_target_frame [simp]:
  "irps (push_target a b s) = irps s" "pending_irp (push_target a b s) = pending_irp s"
  "agent_process (push_target a b s) = agent_process s" "object_refs (push_target a b s) = object_refs s"
  "event_queue (push_target a b s) = event_queue s" "pending_scans (push_target a b s) = pending_scans s"
  "apc_ctxs (push_target a b s) = apc_ctxs s" "verdict_cache (push_target a b s) = verdict_cache s"
  "apc_count (push_target a b s) = apc_count s" "terminated (push_target a b s) = terminated s"
  "freed_memory_access (push_target a b s) = freed_memory_access s"
  "request_id_counter (push_target a b s) = request_id_counter s"
  by (auto simp: push_target_def split: option.splits)

lemma apply_verdict_returns_True: "snd (apply_verdict pid r a now s)"
  by (auto simp: apply_verdict_def split: prod.splits bool.splits)

subsection \<open>The requests in the driver: steps\<close>

text \<open>
  The state of the inverted call: the sensor, the IRPs handed to the driver so far, those whose
  cancel routine the I/O manager has taken and not yet run, and two logs: the events the process
  callback made and those that reached the agent. An IRP is handed to the driver once, in the
  state the I/O manager makes it.
\<close>

record irp_sys =
  is_sensor :: sensor
  is_issued :: "nat set"
  is_cancelling :: "nat set"
  is_made :: "galatea_event list"
  is_delivered :: "galatea_event list"

definition new_irp :: "irp \<Rightarrow> bool" where
  "new_irp i \<longleftrightarrow> irp_completions i = 0 \<and> \<not> irp_cancel_routine i \<and> irp_output i = None"

definition output_of :: "nat option \<Rightarrow> sensor \<Rightarrow> galatea_event list" where
  "output_of q s = (case q of None \<Rightarrow> [] | Some p \<Rightarrow> (case irp_output (irps s p) of None \<Rightarrow> [] | Some e \<Rightarrow> [e]))"

inductive irp_step :: "irp_sys \<Rightarrow> irp_sys \<Rightarrow> bool" where
  step_ioctl:
    "p \<notin> is_issued y \<Longrightarrow> dispatch_device_control caller now p (is_sensor y) = (s', st) \<Longrightarrow>
     irp_step y (y\<lparr>is_sensor := s', is_issued := insert p (is_issued y),
                  is_delivered := is_delivered y @ output_of (Some p) s'\<rparr>)"
| step_create_close:
    "p \<notin> is_issued y \<Longrightarrow> dispatch_create_close p (is_sensor y) = (s', st) \<Longrightarrow>
     irp_step y (y\<lparr>is_sensor := s', is_issued := insert p (is_issued y)\<rparr>)"
| step_cleanup:
    "p \<notin> is_issued y \<Longrightarrow> dispatch_cleanup p (is_sensor y) = (s', st) \<Longrightarrow>
     irp_step y (y\<lparr>is_sensor := s', is_issued := insert p (is_issued y)\<rparr>)"
| step_notify:
    "notify_agent pid rid img frozen (is_sensor y) = s' \<Longrightarrow>
     irp_step y (y\<lparr>is_sensor := s',
       is_made := is_made y @ [\<lparr>ge_process_id = pid, ge_request_id = rid, ge_frozen = frozen,
                                ge_image_path = event_image_path img\<rparr>],
       is_delivered := is_delivered y @ output_of (pending_irp (is_sensor y)) s'\<rparr>)"
| step_cancel_begin:
    "p \<in> is_issued y \<Longrightarrow> io_cancel_irp p (is_sensor y) = (s', True) \<Longrightarrow>
     irp_step y (y\<lparr>is_sensor := s', is_cancelling := insert p (is_cancelling y)\<rparr>)"
| step_cancel_run:
    "p \<in> is_cancelling y \<Longrightarrow> cancel_routine p (is_sensor y) = s' \<Longrightarrow>
     irp_step y (y\<lparr>is_sensor := s', is_cancelling := is_cancelling y - {p}\<rparr>)"

definition irp_init :: "irp_sys \<Rightarrow> bool" where
  "irp_init y \<longleftrightarrow>
     (\<exists>is dev. (\<forall>p. new_irp (is p)) \<and> is_sensor y = loaded is dev)
     \<and> is_issued y = {} \<and> is_cancelling y = {} \<and> is_made y = [] \<and> is_delivered y = []"

text \<open>
  The invariant, in two parts. An IRP the driver was handed is completed once, or it is the
  pending one; the pending IRP has its cancel routine unless the I/O manager has taken the
  routine to run it.
\<close>

definition irp_ok :: "irp \<Rightarrow> bool \<Rightarrow> bool \<Rightarrow> bool \<Rightarrow> bool" where
  "irp_ok i issued pend canc \<longleftrightarrow>
     (if issued
      then irp_completions i = (if pend then 0 else 1)
           \<and> (pend \<longrightarrow> irp_output i = None)
           \<and> irp_cancel_routine i = (pend \<and> \<not> canc)
           \<and> (canc \<longrightarrow> pend)
      else new_irp i \<and> \<not> pend \<and> \<not> canc)"

definition irps_ok :: "(nat \<Rightarrow> irp) \<Rightarrow> nat option \<Rightarrow> nat set \<Rightarrow> nat set \<Rightarrow> bool" where
  "irps_ok m pend issued canc \<longleftrightarrow>
     (\<forall>p. irp_ok (m p) (p \<in> issued) (pend = Some p) (p \<in> canc))"

text \<open>
  While an IRP waits with its cancel routine set, no event is queued; the queue is bounded; and
  what reached the agent, followed by what is queued, is a subsequence of what was made.
\<close>

definition queue_ok ::
  "nat option \<Rightarrow> nat set \<Rightarrow> galatea_event list \<Rightarrow> galatea_event list \<Rightarrow> galatea_event list \<Rightarrow> bool" where
  "queue_ok pend canc q made delivered \<longleftrightarrow>
     (\<forall>p. pend = Some p \<longrightarrow> p \<notin> canc \<longrightarrow> q = [])
     \<and> length q \<le> EVENT_QUEUE_LIMIT
     \<and> subseq (delivered @ q) made"

definition irp_inv :: "irp_sys \<Rightarrow> bool" where
  "irp_inv y \<longleftrightarrow>
     irps_ok (irps (is_sensor y)) (pending_irp (is_sensor y)) (is_issued y) (is_cancelling y)
     \<and> event_queue (is_sensor y) \<noteq> None
     \<and> queue_ok (pending_irp (is_sensor y)) (is_cancelling y) (opt_list (event_queue (is_sensor y)))
         (is_made y) (is_delivered y)"

lemma irps_okD: "irps_ok m pend I C \<Longrightarrow> irp_ok (m p) (p \<in> I) (pend = Some p) (p \<in> C)"
  by (simp add: irps_ok_def)

text \<open>One IRP changes; the others keep their place in the four components.\<close>

lemma irps_ok_update:
  assumes "irps_ok m pend I C"
    and "irp_ok i (p \<in> I') (pend' = Some p) (p \<in> C')"
    and "\<And>q. q \<noteq> p \<Longrightarrow> (q \<in> I') = (q \<in> I) \<and> (pend' = Some q) = (pend = Some q) \<and> (q \<in> C') = (q \<in> C)"
  shows "irps_ok (m(p := i)) pend' I' C'"
  unfolding irps_ok_def
proof
  fix q
  show "irp_ok ((m(p := i)) q) (q \<in> I') (pend' = Some q) (q \<in> C')"
    using assms(2) assms(3) [of q] irps_okD [OF assms(1), of q] by (cases "q = p") simp_all
qed

lemma irps_ok_new:
  assumes "irps_ok m pend I C" and "p \<notin> I"
  shows "new_irp (m p)" and "pend \<noteq> Some p" and "p \<notin> C"
  using irps_okD [OF assms(1), of p] assms(2) by (simp_all add: irp_ok_def)

lemma irps_ok_pending:
  assumes "irps_ok m (Some p) I C"
  shows "p \<in> I" and "irp_completions (m p) = 0" and "irp_output (m p) = None"
    and "irp_cancel_routine (m p) = (p \<notin> C)"
  using irps_okD [OF assms, of p] by (auto simp: irp_ok_def split: if_splits)

lemma irps_ok_finish:
  assumes "irps_ok m pend I C" and "p \<notin> I"
    and "irp_completions i = 1" and "\<not> irp_cancel_routine i"
  shows "irps_ok (m(p := i)) pend (insert p I) C"
  by (rule irps_ok_update [OF assms(1)]) (use assms irps_ok_new [OF assms(1,2)] in \<open>auto simp: irp_ok_def\<close>)

lemma irps_ok_pend:
  assumes "irps_ok m None I C" and "p \<notin> I"
    and "irp_completions i = 0" and "irp_cancel_routine i" and "irp_output i = None"
  shows "irps_ok (m(p := i)) (Some p) (insert p I) C"
  by (rule irps_ok_update [OF assms(1)]) (use assms irps_ok_new [OF assms(1,2)] in \<open>auto simp: irp_ok_def\<close>)

lemma irps_ok_complete_pending:
  assumes "irps_ok m (Some p) I C" and "irp_completions i = 1" and "\<not> irp_cancel_routine i"
    and "C' = C - {p}"
  shows "irps_ok (m(p := i)) None I C'"
  by (rule irps_ok_update [OF assms(1)])
    (use assms irps_ok_pending [OF assms(1)] in \<open>auto simp: irp_ok_def\<close>)

lemma irps_ok_cancel_begin:
  assumes "irps_ok m pend I C" and "irp_cancel_routine (m p)"
  shows "irps_ok (m(p := (m p)\<lparr>irp_cancel_routine := False\<rparr>)) pend I (insert p C)"
  by (rule irps_ok_update [OF assms(1)])
    (use assms(2) irps_okD [OF assms(1), of p] in \<open>auto simp: irp_ok_def new_irp_def split: if_splits\<close>)

lemma clear_unset_routine: "\<not> irp_cancel_routine i \<Longrightarrow> i\<lparr>irp_cancel_routine := False\<rparr> = i"
  by simp

lemma subseq_drop_middle: "subseq (a @ e # q) made \<Longrightarrow> subseq (a @ q) made"
  by (rule subseq_order.trans [rotated]) (auto intro!: list_emb_append_mono)

lemma queue_ok_deliver:
  assumes "queue_ok pend C (e # q) made delivered"
  shows "queue_ok pend C q made (delivered @ [e])" and "queue_ok pend C q made delivered"
  using assms by (auto simp: queue_ok_def dest: subseq_drop_middle)

lemma finish_irp_fields [simp]:
  "event_queue (finish_irp p st i s) = event_queue s"
  "pending_irp (finish_irp p st i s) = pending_irp s"
  "agent_process (finish_irp p st i s) = agent_process s"
  "object_refs (finish_irp p st i s) = object_refs s"
  "irps (finish_irp p st i s) = (irps s)(p := (irps s p)\<lparr>irp_status := st, irp_information := i,
     irp_completions := Suc (irp_completions (irps s p))\<rparr>)"
  by (simp_all add: irp_op_defs)


subsection \<open>Every step keeps the invariant\<close>

text \<open>The operation completed the new IRP \<open>p\<close> and did nothing else to the IRPs and the queue.\<close>

definition only_finishes :: "nat \<Rightarrow> sensor \<Rightarrow> sensor \<Rightarrow> bool" where
  "only_finishes p s s' \<longleftrightarrow>
     pending_irp s' = pending_irp s \<and> event_queue s' = event_queue s
     \<and> (\<exists>st info. irps s' = (irps s)(p := (irps s p)\<lparr>irp_status := st, irp_information := info,
                     irp_completions := Suc (irp_completions (irps s p))\<rparr>))"

lemma only_finishes_finish_irp:
  assumes "pending_irp s1 = pending_irp s" and "event_queue s1 = event_queue s" and "irps s1 = irps s"
  shows "only_finishes p s (finish_irp p st info s1)"
  using assms by (auto simp: only_finishes_def)

lemma only_finishes_send_verdict: "only_finishes p s (fst (ioctl_send_verdict now p s))"
  by (auto simp: ioctl_send_verdict_def Let_def case_prod_beta intro!: only_finishes_finish_irp)

lemma only_finishes_register: "only_finishes p s (fst (ioctl_register_agent caller p s))"
  by (auto simp: ioctl_register_agent_def ob_reference_def ob_dereference_def Let_def
      intro!: only_finishes_finish_irp split: option.splits)

lemma only_finishes_issue:
  assumes fin: "only_finishes p (is_sensor y) s'" and inv: "irp_inv y" and p: "p \<notin> is_issued y"
  shows "irp_inv (y\<lparr>is_sensor := s', is_issued := insert p (is_issued y),
           is_delivered := is_delivered y @ output_of (Some p) s'\<rparr>)"
proof -
  let ?m = "irps (is_sensor y)"
  have ok: "irps_ok ?m (pending_irp (is_sensor y)) (is_issued y) (is_cancelling y)"
    using inv by (simp add: irp_inv_def)
  have new: "new_irp (?m p)" by (rule irps_ok_new(1) [OF ok p])
  from fin obtain i where i: "irps s' = ?m(p := i)" and f: "irp_completions i = 1"
    "\<not> irp_cancel_routine i" "irp_output i = None"
    and same: "pending_irp s' = pending_irp (is_sensor y)" "event_queue s' = event_queue (is_sensor y)"
    using new by (auto simp: only_finishes_def new_irp_def)
  from irps_ok_finish [OF ok p f(1,2)] show ?thesis
    using inv f(3) by (simp add: irp_inv_def i same output_of_def)
qed

text \<open>Both answers complete the IRP; the event is in its buffer if it fits.\<close>

lemma answer_irp:
  assumes "s' = ioctl_answer_queued p e s \<or> s' = irp_answer p e s"
  obtains i where "irps s' = (irps s)(p := i)"
    and "irp_completions i = Suc (irp_completions (irps s p))"
    and "irp_cancel_routine i = irp_cancel_routine (irps s p)"
    and "irp_output i = (if size_of_event \<le> irp_output_len (irps s p) then Some e
                         else irp_output (irps s p))"
    and "pending_irp s' = pending_irp s" and "event_queue s' = event_queue s"
proof (cases "size_of_event \<le> irp_output_len (irps s p)")
  case True
  with assms that show thesis
    by (auto simp: ioctl_answer_queued_def irp_answer_def irp_op_defs simp del: size_of_event_eq)
next
  case False
  with assms that show thesis
    by (auto simp: ioctl_answer_queued_def irp_answer_def irp_op_defs simp del: size_of_event_eq)
qed

lemma get_event_inv:
  assumes inv: "irp_inv y" and p: "p \<notin> is_issued y"
    and step: "ioctl_get_event p (is_sensor y) = (s', st)"
  shows "irp_inv (y\<lparr>is_sensor := s', is_issued := insert p (is_issued y),
           is_delivered := is_delivered y @ output_of (Some p) s'\<rparr>)"
proof (cases "pending_irp (is_sensor y)")
  case (Some q)
  with step have "s' = finish_irp p STATUS_UNSUCCESSFUL 0 (is_sensor y)"
    by (simp add: ioctl_get_event_def)
  then show ?thesis
    using inv p by (auto intro!: only_finishes_issue only_finishes_finish_irp)
next
  case None
  let ?s = "is_sensor y"
  have ok: "irps_ok (irps ?s) None (is_issued y) (is_cancelling y)"
    and q: "queue_ok None (is_cancelling y) (opt_list (event_queue ?s)) (is_made y) (is_delivered y)"
    and ne: "event_queue ?s \<noteq> None"
    using inv None by (simp_all add: irp_inv_def)
  have new: "new_irp (irps ?s p)" by (rule irps_ok_new(1) [OF ok p])
  show ?thesis
  proof (cases "opt_list (event_queue ?s)")
    case Nil
    then have "event_queue ?s = Some []" using ne by auto
    with step None have s': "s' = fst (io_set_cancel_routine p True
        ((io_mark_irp_pending p ?s)\<lparr>pending_irp := Some p\<rparr>))"
      by (auto simp: ioctl_get_event_def Let_def)
    obtain i where i: "irps s' = (irps ?s)(p := i)" "irp_completions i = 0" "irp_cancel_routine i"
      "irp_output i = None" "pending_irp s' = Some p" "event_queue s' = event_queue ?s"
      using new by (auto simp: s' irp_op_defs new_irp_def)
    with irps_ok_pend [OF ok p i(2-4)] q ne Nil show ?thesis
      by (simp add: irp_inv_def output_of_def queue_ok_def)
  next
    case (Cons e es)
    then have "event_queue ?s = Some (e # es)" using ne by auto
    with step None have s': "s' = ioctl_answer_queued p e (?s\<lparr>event_queue := Some es\<rparr>)"
      by (auto simp: ioctl_get_event_def)
    obtain i where i: "irps s' = (irps ?s)(p := i)" "irp_completions i = 1" "\<not> irp_cancel_routine i"
      "irp_output i = None \<or> irp_output i = Some e" "pending_irp s' = None"
      "event_queue s' = Some es"
      by (rule answer_irp [OF disjI1 [OF s']]) (use new None in \<open>simp add: new_irp_def split: if_splits\<close>)
    with irps_ok_finish [OF ok p i(2,3)] queue_ok_deliver [OF q [unfolded Cons]] show ?thesis
      by (auto simp: irp_inv_def output_of_def)
  qed
qed

lemma device_control_inv:
  assumes "irp_inv y" and "p \<notin> is_issued y"
    and "dispatch_device_control caller now p (is_sensor y) = (s', st)"
  shows "irp_inv (y\<lparr>is_sensor := s', is_issued := insert p (is_issued y),
           is_delivered := is_delivered y @ output_of (Some p) s'\<rparr>)"
proof (cases "ioctl_get_event p (is_sensor y) = (s', st)")
  case True
  with get_event_inv assms(1,2) show ?thesis by blast
next
  case False
  then have "only_finishes p (is_sensor y) s'"
    using assms(3) only_finishes_send_verdict [of p "is_sensor y" now]
      only_finishes_register [of p "is_sensor y" caller]
    by (auto simp: dispatch_device_control_def Let_def intro!: only_finishes_finish_irp
        split: if_splits)
  with only_finishes_issue assms(1,2) show ?thesis by blast
qed

lemma device_control_cases:
  assumes "dispatch_device_control caller now p s = (s', st)"
  shows "ioctl_get_event p s = (s', st) \<and> pending_irp s = None
    \<or> only_finishes p s s' \<and> st \<noteq> STATUS_PENDING"
proof (cases "irp_control_code (irps s p) = IOCTL_GET_EVENT \<and> agent_process s = Some caller")
  case True
  with assms have g: "ioctl_get_event p s = (s', st)" by (simp add: dispatch_device_control_def)
  then show ?thesis
    by (cases "pending_irp s") (auto simp: ioctl_get_event_def intro!: only_finishes_finish_irp)
next
  case False
  have "snd (ioctl_send_verdict now p s) \<noteq> STATUS_PENDING"
    by (simp add: ioctl_send_verdict_def Let_def case_prod_beta)
  moreover have "snd (ioctl_register_agent caller p s) \<noteq> STATUS_PENDING"
    by (simp add: ioctl_register_agent_def Let_def split: option.split)
  ultimately show ?thesis
    using False assms only_finishes_send_verdict [of p s now] only_finishes_register [of p s caller]
    by (auto simp: dispatch_device_control_def Let_def intro!: only_finishes_finish_irp split: if_splits)
qed

lemma create_close_inv:
  assumes "irp_inv y" and "p \<notin> is_issued y" and "dispatch_create_close p (is_sensor y) = (s', st)"
  shows "irp_inv (y\<lparr>is_sensor := s', is_issued := insert p (is_issued y)\<rparr>)"
proof -
  have "irps_ok (irps (is_sensor y)) (pending_irp (is_sensor y)) (is_issued y) (is_cancelling y)"
    using assms(1) by (simp add: irp_inv_def)
  from irps_ok_new(1) [OF this assms(2)] have "output_of (Some p) s' = []"
    using assms(3) by (auto simp: dispatch_create_close_def output_of_def new_irp_def)
  moreover have "only_finishes p (is_sensor y) s'"
    using assms(3) by (auto simp: dispatch_create_close_def intro!: only_finishes_finish_irp)
  ultimately show ?thesis using only_finishes_issue [OF _ assms(1,2), of s'] by simp
qed

lemma queue_ok_no_pending: "queue_ok pend C q made d \<Longrightarrow> queue_ok None C' q made d"
  by (simp add: queue_ok_def)

text \<open>The first half of \<open>dispatch_cleanup\<close> on its own: the pending IRP is completed.\<close>

lemma cleanup_pending_inv:
  assumes inv: "irp_inv y" and p: "pending_irp (is_sensor y) = Some p"
    and c: "irp_cancel_routine (irps (is_sensor y) p)"
    and i: "irp_completions i = 1" "\<not> irp_cancel_routine i"
    and s': "irps s' = (irps (is_sensor y))(p := i)" "pending_irp s' = None"
      "event_queue s' = event_queue (is_sensor y)"
  shows "irp_inv (y\<lparr>is_sensor := s'\<rparr>)"
proof -
  have ok: "irps_ok (irps (is_sensor y)) (Some p) (is_issued y) (is_cancelling y)"
    using inv p by (simp add: irp_inv_def)
  from irps_ok_pending(4) [OF ok] c have "p \<notin> is_cancelling y" by simp
  then have "is_cancelling y = is_cancelling y - {p}" by blast
  from irps_ok_complete_pending [OF ok i this] show ?thesis
    using inv s' by (auto simp: irp_inv_def intro: queue_ok_no_pending)
qed

lemma cleanup_inv:
  assumes inv: "irp_inv y" and p: "p \<notin> is_issued y"
    and step: "dispatch_cleanup p (is_sensor y) = (s', st)"
  shows "irp_inv (y\<lparr>is_sensor := s', is_issued := insert p (is_issued y)\<rparr>)"
proof -
  let ?s = "is_sensor y"
  have ok: "irps_ok (irps ?s) (pending_irp ?s) (is_issued y) (is_cancelling y)"
    using inv by (simp add: irp_inv_def)
  have new: "new_irp (irps ?s p)" by (rule irps_ok_new(1) [OF ok p])
  obtain s2 where s2: "s' = finish_irp p STATUS_SUCCESS 0 s2" "irp_inv (y\<lparr>is_sensor := s2\<rparr>)"
    "irps s2 p = irps ?s p"
  proof (cases "\<exists>q. pending_irp ?s = Some q \<and> irp_cancel_routine (irps ?s q)")
    case True
    then obtain q where q: "pending_irp ?s = Some q" "irp_cancel_routine (irps ?s q)" by blast
    let ?s2 = "finish_irp q STATUS_CANCELLED 0 ((fst (io_set_cancel_routine q False ?s))\<lparr>pending_irp := None\<rparr>)"
    have "q \<noteq> p" using irps_ok_new(2) [OF ok p] q(1) by auto
    moreover have "irp_completions (irps ?s q) = 0"
      using ok q(1) by (simp add: irps_ok_pending(2))
    ultimately show thesis
      using step q
      by (intro that [of ?s2] cleanup_pending_inv [OF inv q,
            where i = "(irps ?s q)\<lparr>irp_cancel_routine := False, irp_status := STATUS_CANCELLED,
               irp_information := 0, irp_completions := 1\<rparr>"])
        (auto simp: dispatch_cleanup_def io_set_cancel_routine_def Let_def)
  next
    case False
    let ?s2 = "case pending_irp ?s of None \<Rightarrow> ?s | Some q \<Rightarrow> fst (io_set_cancel_routine q False ?s)"
    from False have "irps ?s2 = irps ?s" "pending_irp ?s2 = pending_irp ?s" "event_queue ?s2 = event_queue ?s"
      by (auto simp: io_set_cancel_routine_def clear_unset_routine fun_upd_idem split: option.splits)
    then show thesis
      using step False inv
      by (intro that [of ?s2])
        (auto simp: dispatch_cleanup_def io_set_cancel_routine_def Let_def irp_inv_def split: option.splits)
  qed
  have "only_finishes p s2 s'" by (simp add: s2(1) only_finishes_finish_irp)
  moreover have "output_of (Some p) s' = []"
    using new by (simp add: s2(1,3) output_of_def new_irp_def)
  ultimately show ?thesis
    using only_finishes_issue [of p "y\<lparr>is_sensor := s2\<rparr>" s'] s2(2) p by simp
qed

lemma queue_event_eq:
  assumes "event_queue s \<noteq> None"
  shows "queue_event e s = s\<lparr>event_queue := Some (if length (opt_list (event_queue s)) < EVENT_QUEUE_LIMIT
           then opt_list (event_queue s) @ [e] else opt_list (event_queue s))\<rparr>"
  using assms by (cases s) (auto simp: queue_event_def)

lemma queue_event_ok:
  assumes "queue_ok pend C q made d" and "\<And>p. pend = Some p \<Longrightarrow> p \<in> C"
  shows "queue_ok pend C (if length q < EVENT_QUEUE_LIMIT then q @ [e] else q) (made @ [e]) d"
proof -
  have s: "subseq (d @ q) made" using assms(1) by (simp add: queue_ok_def)
  have "subseq ((d @ q) @ [e]) (made @ [e])" by (rule list_emb_append_mono [OF s]) simp
  moreover have "subseq (d @ q) (made @ [e])" using list_emb_append_mono [OF s, of "[]" "[e]"] by simp
  ultimately show ?thesis using assms by (auto simp: queue_ok_def)
qed

lemma notify_queue_inv:
  assumes inv: "irp_inv y" and none: "\<And>p. pending_irp (is_sensor y) = Some p \<Longrightarrow> p \<in> is_cancelling y"
    and same: "irps s1 = irps (is_sensor y)" "pending_irp s1 = pending_irp (is_sensor y)"
      "event_queue s1 = event_queue (is_sensor y)"
  shows "irp_inv (y\<lparr>is_sensor := queue_event e s1, is_made := is_made y @ [e]\<rparr>)"
proof -
  have "event_queue s1 \<noteq> None" using inv same by (simp add: irp_inv_def)
  note eq = queue_event_eq [OF this, of e]
  have "queue_ok (pending_irp (is_sensor y)) (is_cancelling y) (opt_list (event_queue (is_sensor y)))
      (is_made y) (is_delivered y)"
    using inv by (simp add: irp_inv_def)
  from queue_event_ok [OF this none, of e] show ?thesis
    using inv by (simp add: irp_inv_def eq same del: if_split split del: if_split cong del: if_weak_cong)
qed

lemma notify_inv:
  fixes pid rid img frozen
  defines "e \<equiv> \<lparr>ge_process_id = pid, ge_request_id = rid, ge_frozen = frozen,
               ge_image_path = event_image_path img\<rparr>"
  assumes inv: "irp_inv y" and step: "notify_agent pid rid img frozen (is_sensor y) = s'"
  shows "irp_inv (y\<lparr>is_sensor := s', is_made := is_made y @ [e],
           is_delivered := is_delivered y @ output_of (pending_irp (is_sensor y)) s'\<rparr>)"
proof (cases "pending_irp (is_sensor y)")
  case None
  then have "s' = queue_event e (is_sensor y)" using step by (simp add: notify_agent_def e_def)
  with None show ?thesis using notify_queue_inv [OF inv, of "is_sensor y" e] by (simp add: output_of_def)
next
  case (Some p)
  let ?s = "is_sensor y"
  have ok: "irps_ok (irps ?s) (Some p) (is_issued y) (is_cancelling y)"
    using inv Some by (simp add: irp_inv_def)
  note pend = irps_ok_pending [OF ok]
  show ?thesis
  proof (cases "p \<in> is_cancelling y")
    case True
    let ?s1 = "fst (io_set_cancel_routine p False ?s)"
    have s1: "irps ?s1 = irps ?s" "pending_irp ?s1 = pending_irp ?s" "event_queue ?s1 = event_queue ?s"
      using pend(4) True by (simp_all add: io_set_cancel_routine_def clear_unset_routine fun_upd_idem)
    have "s' = queue_event e ?s1"
      using step Some True pend(4) by (simp add: notify_agent_def e_def io_set_cancel_routine_def)
    moreover have "output_of (Some p) (queue_event e ?s1) = []"
      using pend(3) s1(1) by (simp add: output_of_def queue_event_def split: option.splits)
    ultimately show ?thesis
      using Some True notify_queue_inv [OF inv, of ?s1 e] s1 by simp
  next
    case False
    let ?s1 = "fst (io_set_cancel_routine p False ?s)\<lparr>pending_irp := None\<rparr>"
    have s': "s' = irp_answer p e ?s1"
      using step Some False pend(4) by (simp add: notify_agent_def e_def io_set_cancel_routine_def)
    obtain i where i: "irps s' = (irps ?s)(p := i)" "irp_completions i = 1" "\<not> irp_cancel_routine i"
      "irp_output i = None \<or> irp_output i = Some e" "pending_irp s' = None"
      "event_queue s' = event_queue ?s"
      by (rule answer_irp [OF disjI2 [OF s']])
        (use pend in \<open>simp add: io_set_cancel_routine_def split: if_splits\<close>)
    have C: "is_cancelling y = is_cancelling y - {p}" using False by blast
    have q: "queue_ok (Some p) (is_cancelling y) (opt_list (event_queue ?s)) (is_made y) (is_delivered y)"
      using inv Some by (simp add: irp_inv_def)
    then have empty: "opt_list (event_queue ?s) = []" "subseq (is_delivered y) (is_made y)"
      using False by (auto simp: queue_ok_def)
    then have "subseq (is_delivered y @ [e]) (is_made y @ [e])"
      by (intro list_emb_append_mono) auto
    then show ?thesis
      using irps_ok_complete_pending [OF ok i(2,3) C] i empty inv Some
      by (auto simp: irp_inv_def queue_ok_def output_of_def)
  qed
qed

lemma cancel_begin_inv:
  assumes inv: "irp_inv y" and step: "io_cancel_irp p (is_sensor y) = (s', True)"
  shows "irp_inv (y\<lparr>is_sensor := s', is_cancelling := insert p (is_cancelling y)\<rparr>)"
proof -
  have c: "irp_cancel_routine (irps (is_sensor y) p)"
    and s': "s' = upd_irp p (\<lambda>i. i\<lparr>irp_cancel_routine := False\<rparr>) (is_sensor y)"
    using step by (auto simp: irp_op_defs)
  have ok: "irps_ok (irps (is_sensor y)) (pending_irp (is_sensor y)) (is_issued y) (is_cancelling y)"
    using inv by (simp add: irp_inv_def)
  show ?thesis
    using irps_ok_cancel_begin [OF ok c] inv by (simp add: irp_inv_def s' queue_ok_def)
qed

lemma cancel_run_inv:
  assumes inv: "irp_inv y" and p: "p \<in> is_cancelling y"
    and step: "cancel_routine p (is_sensor y) = s'"
  shows "irp_inv (y\<lparr>is_sensor := s', is_cancelling := is_cancelling y - {p}\<rparr>)"
proof -
  let ?s = "is_sensor y"
  have ok: "irps_ok (irps ?s) (pending_irp ?s) (is_issued y) (is_cancelling y)"
    using inv by (simp add: irp_inv_def)
  then have pend: "pending_irp ?s = Some p"
    using irps_okD [OF ok, of p] p by (auto simp: irp_ok_def split: if_splits)
  note ok' = ok [unfolded pend]
  have s': "s' = finish_irp p STATUS_CANCELLED 0 (?s\<lparr>pending_irp := None\<rparr>)"
    using step pend by (simp add: cancel_routine_def)
  show ?thesis
    using irps_ok_complete_pending [OF ok' _ _ refl] irps_ok_pending [OF ok'] p inv
    by (auto simp: irp_inv_def s' intro: queue_ok_no_pending)
qed

lemma irp_step_inv: "irp_inv y \<Longrightarrow> irp_step y z \<Longrightarrow> irp_inv z"
  by (erule irp_step.cases)
    (auto intro: device_control_inv create_close_inv cleanup_inv notify_inv cancel_begin_inv cancel_run_inv)

lemma irp_init_inv: "irp_init y \<Longrightarrow> irp_inv y"
  by (auto simp: irp_init_def irp_inv_def queue_ok_def irps_ok_def irp_ok_def)

interpretation inverted_call: invariant_system irp_init irp_step irp_inv
  by unfold_locales (auto intro: irp_init_inv irp_step_inv)


subsection \<open>Who the agent is\<close>

text \<open>The object references the sensor holds: one on the registered agent, none on another process.\<close>

definition agent_ref_inv :: "irp_sys \<Rightarrow> bool" where
  "agent_ref_inv y \<longleftrightarrow>
     (\<forall>q. object_refs (is_sensor y) q = (if agent_process (is_sensor y) = Some q then 1 else 0))"

lemma notify_agent_frame [frame_simps]:
  "agent_process (notify_agent pid rid img frozen s) = agent_process s"
  "object_refs (notify_agent pid rid img frozen s) = object_refs s"
  by (auto simp: notify_agent_def queue_event_def irp_answer_def io_set_cancel_routine_def Let_def
      split: option.splits bool.splits)

lemma cleanup_frame [frame_simps]:
  "agent_process (fst (dispatch_cleanup p s)) = agent_process s"
  "object_refs (fst (dispatch_cleanup p s)) = object_refs s"
  by (auto simp: dispatch_cleanup_def io_set_cancel_routine_def Let_def split: option.splits bool.splits)

lemma get_event_frame [frame_simps]:
  "agent_process (fst (ioctl_get_event p s)) = agent_process s"
  "object_refs (fst (ioctl_get_event p s)) = object_refs s"
  by (auto simp: ioctl_get_event_def ioctl_answer_queued_def irp_op_defs Let_def
      split: option.splits list.splits)

lemma send_verdict_frame [frame_simps]:
  "agent_process (fst (ioctl_send_verdict now p s)) = agent_process s"
  "object_refs (fst (ioctl_send_verdict now p s)) = object_refs s"
  by (auto simp: ioctl_send_verdict_def Let_def case_prod_beta)

lemma register_agent_refs:
  "agent_process (fst (ioctl_register_agent c p s)) =
     (case agent_process s of None \<Rightarrow> Some c | Some a \<Rightarrow> Some a)"
  "object_refs (fst (ioctl_register_agent c p s)) =
     (case agent_process s of None \<Rightarrow> (object_refs s)(c := object_refs s c + 1) | Some a \<Rightarrow> object_refs s)"
  by (auto simp: ioctl_register_agent_def ob_reference_def ob_dereference_def Let_def split: option.splits)

lemma device_control_agent:
  assumes "dispatch_device_control c now p s = (s', st)"
  shows "agent_process s' = agent_process s \<and> object_refs s' = object_refs s
    \<or> agent_process s = None \<and> agent_process s' = Some c
       \<and> object_refs s' = (object_refs s)(c := object_refs s c + 1)"
proof -
  have "s' = fst (dispatch_device_control c now p s)" using assms by simp
  then show ?thesis
    by (cases "agent_process s")
      (auto simp: dispatch_device_control_def Let_def frame_simps register_agent_refs)
qed

lemma irp_step_agent:
  assumes "irp_step y z"
  shows "agent_process (is_sensor z) = agent_process (is_sensor y)
           \<and> object_refs (is_sensor z) = object_refs (is_sensor y)
    \<or> (\<exists>c. agent_process (is_sensor y) = None \<and> agent_process (is_sensor z) = Some c
       \<and> object_refs (is_sensor z) = (object_refs (is_sensor y))(c := object_refs (is_sensor y) c + 1))"
  using assms
proof cases
  case (step_ioctl p caller now s' st)
  then show ?thesis using device_control_agent [OF step_ioctl(3)] by auto
next
  case (step_create_close p s' st)
  then show ?thesis by (auto simp: dispatch_create_close_def)
next
  case (step_cleanup p s' st)
  then show ?thesis using cleanup_frame [of p "is_sensor y"] by simp
next
  case (step_notify pid rid img frozen s')
  then show ?thesis using notify_agent_frame [of pid rid img frozen "is_sensor y"] by simp
next
  case (step_cancel_begin p s')
  then show ?thesis by (auto simp: irp_op_defs)
next
  case (step_cancel_run p s')
  then show ?thesis by (auto simp: cancel_routine_def)
qed

lemma agent_ref_step: "agent_ref_inv y \<Longrightarrow> irp_step y z \<Longrightarrow> agent_ref_inv z"
  using irp_step_agent [of y z] by (auto simp: agent_ref_inv_def)

interpretation registration: invariant_system irp_init irp_step agent_ref_inv
proof unfold_locales
  show "agent_ref_inv y" if "irp_init y" for y
    using that by (auto simp: irp_init_def agent_ref_inv_def)
qed (rule agent_ref_step)

subsection \<open>A run\<close>

text \<open>
  A concrete run for the witnesses: process 7 registers with IRP 0, asks for an event with IRP 1,
  and process 42 starts.
\<close>

definition sample_sys0 :: irp_sys where
  "sample_sys0 = \<lparr>is_sensor = loaded sample_irps 5, is_issued = {}, is_cancelling = {},
     is_made = [], is_delivered = []\<rparr>"

definition sample_ioctl :: "nat \<Rightarrow> irp_sys \<Rightarrow> irp_sys" where
  "sample_ioctl p y = (let s' = fst (dispatch_device_control 7 0 p (is_sensor y)) in
     y\<lparr>is_sensor := s', is_issued := insert p (is_issued y),
       is_delivered := is_delivered y @ output_of (Some p) s'\<rparr>)"

definition sample_sys1 :: irp_sys where "sample_sys1 = sample_ioctl 0 sample_sys0"
definition sample_sys2 :: irp_sys where "sample_sys2 = sample_ioctl 1 sample_sys1"

lemma sample_ioctl_step: "p \<notin> is_issued y \<Longrightarrow> irp_step y (sample_ioctl p y)"
  by (simp add: sample_ioctl_def Let_def step_ioctl [where caller = 7 and now = 0 and
        st = "snd (dispatch_device_control 7 0 p (is_sensor y))"])

lemma sample_sys0_init: "irp_init sample_sys0"
  unfolding irp_init_def
  by (intro conjI exI [of _ sample_irps] exI [of _ 5])
    (simp_all add: sample_sys0_def new_irp_def sample_irps_def sample_irp_def)

lemma sample_reach1: "reach irp_init irp_step sample_sys1"
  unfolding sample_sys1_def
  by (rule reach_step, rule reach_init, rule sample_sys0_init, rule sample_ioctl_step)
    (simp add: sample_sys0_def)

lemma sample_reach2: "reach irp_init irp_step sample_sys2"
  unfolding sample_sys2_def
  by (rule reach_step [OF sample_reach1], rule sample_ioctl_step)
    (simp add: sample_sys1_def sample_sys0_def sample_ioctl_def Let_def)

lemma sample_sys1_sensor:
  "is_sensor sample_sys1 =
     fst (ioctl_register_agent 7 0 (loaded sample_irps 5))" "is_issued sample_sys1 = {0}"
  "is_delivered sample_sys1 = [] \<and> is_made sample_sys1 = []"
  by (simp_all add: sample_sys1_def sample_sys0_def sample_ioctl_def Let_def dispatch_device_control_def
      sample_irps_def sample_irp_def ioctl_register_agent_def ob_reference_def output_of_def)

lemma sample_sys1_fields:
  "agent_process (is_sensor sample_sys1) = Some 7" "pending_irp (is_sensor sample_sys1) = None"
  "event_queue (is_sensor sample_sys1) = Some []"
  "irp_control_code (irps (is_sensor sample_sys1) (Suc 0)) = IOCTL_GET_EVENT"
  by (simp_all add: sample_sys1_sensor ioctl_register_agent_def ob_reference_def Let_def
      sample_irps_def sample_irp_def)

lemma sample_sys2_fields:
  "agent_process (is_sensor sample_sys2) = Some 7" "pending_irp (is_sensor sample_sys2) = Some 1"
  "is_issued sample_sys2 = {0, 1}"
  by (simp_all add: sample_sys2_def sample_ioctl_def Let_def dispatch_device_control_def
      sample_sys1_fields sample_sys1_sensor(2) ioctl_get_event_def irp_op_defs insert_commute)


subsection \<open>Properties\<close>

text \<open>
  C0. Every IRP the sensor was handed is completed exactly once, except the one it keeps pending,
  which it has not completed: whatever the order of requests, process callbacks, cleanups and
  cancellations, no request is completed twice (a crash of the kernel) and none is lost.
\<close>

theorem irp_completed_once:
  assumes "reach irp_init irp_step y" and "p \<in> is_issued y"
  shows "irp_completions (irps (is_sensor y) p) = (if pending_irp (is_sensor y) = Some p then 0 else 1)"
proof -
  have "irps_ok (irps (is_sensor y)) (pending_irp (is_sensor y)) (is_issued y) (is_cancelling y)"
    using inverted_call.reach_inv [OF assms(1)] by (simp add: irp_inv_def)
  from irps_okD [OF this, of p] assms(2) show ?thesis by (simp add: irp_ok_def)
qed

theorem irp_completed_once_witness:
  "irp_completions (irps (is_sensor sample_sys2) 1) = 0
   \<and> irp_completions (irps (is_sensor sample_sys2) 0) = 1"
  using irp_completed_once [OF sample_reach2, of 1] irp_completed_once [OF sample_reach2, of 0]
  by (simp_all add: sample_sys2_fields)



text \<open>
  C27. A request is left uncompleted by its dispatch routine exactly when the routine returns
  \<open>STATUS_PENDING\<close>; then it is the sensor's pending request, is marked pending and has
  a cancel routine. In all other cases it was completed once, and the pending request is untouched.
\<close>

theorem device_control_pending_contract:
  assumes "dispatch_device_control caller now p s = (s', st)"
    and "new_irp (irps s p)" and "pending_irp s \<noteq> Some p"
  shows "if st = STATUS_PENDING
         then irp_completions (irps s' p) = 0 \<and> pending_irp s' = Some p
              \<and> irp_pending_returned (irps s' p) \<and> irp_cancel_routine (irps s' p) \<and> pending_irp s = None
         else irp_completions (irps s' p) = 1 \<and> pending_irp s' = pending_irp s"
proof (cases "ioctl_get_event p s = (s', st) \<and> pending_irp s = None \<and> opt_list (event_queue s) = []")
  case True
  then have "s' = fst (io_set_cancel_routine p True ((io_mark_irp_pending p s)\<lparr>pending_irp := Some p\<rparr>))
      \<and> st = STATUS_PENDING"
    by (auto simp: ioctl_get_event_def Let_def split: option.splits list.splits)
  with True assms(2) show ?thesis by (simp add: irp_op_defs new_irp_def)
next
  case False
  then show ?thesis
  proof (cases "\<exists>e q. event_queue s = Some (e # q) \<and> pending_irp s = None \<and> ioctl_get_event p s = (s', st)")
    case True
    then obtain e q where s': "s' = ioctl_answer_queued p e (s\<lparr>event_queue := Some q\<rparr>)"
      and "st = STATUS_SUCCESS" "pending_irp s = None"
      by (auto simp: ioctl_get_event_def)
    moreover have "irp_completions (irps s' p) = 1 \<and> pending_irp s' = pending_irp s"
      by (rule answer_irp [OF disjI1 [OF s']]) (use assms(2) in \<open>simp add: new_irp_def\<close>)
    ultimately show ?thesis by auto
  next
    case other: False
    have "only_finishes p s s' \<and> st \<noteq> STATUS_PENDING"
      using device_control_cases [OF assms(1)] False other
      by (cases "event_queue s"; cases "opt_list (event_queue s)") auto
    with assms(2) show ?thesis by (auto simp: only_finishes_def new_irp_def)
  qed
qed


theorem device_control_pending_contract_witness:
  "irp_completions (irps (is_sensor sample_sys2) 1) = 0
   \<and> irp_cancel_routine (irps (is_sensor sample_sys2) 1)"
proof -
  let ?s = "is_sensor sample_sys1"
  obtain s' where s': "dispatch_device_control 7 0 1 ?s = (s', STATUS_PENDING)"
    by (simp add: dispatch_device_control_def sample_sys1_fields ioctl_get_event_def)
  then have "is_sensor sample_sys2 = s'" by (simp add: sample_sys2_def sample_ioctl_def Let_def)
  moreover have "new_irp (irps ?s 1)"
    by (simp add: sample_sys1_sensor ioctl_register_agent_def ob_reference_def new_irp_def
        sample_irps_def sample_irp_def Let_def)
  ultimately show ?thesis
    using device_control_pending_contract [OF s'] by (simp add: sample_sys1_fields)
qed

text \<open>
  C28. Registration is exclusive and lasts: once a process is the agent it stays the agent through
  every later step (no request of another process replaces it, and neither does closing the
  handle), and the sensor holds one reference on the agent's process object and none on others,
  however often registration was tried.
\<close>

theorem agent_registration_exclusive:
  assumes "reach irp_init irp_step y" and "irp_step\<^sup>*\<^sup>* y z" and "agent_process (is_sensor y) = Some a"
  shows "agent_process (is_sensor z) = Some a
    \<and> object_refs (is_sensor z) q = (if q = a then 1 else 0)"
proof -
  from assms(2,3) have a: "agent_process (is_sensor z) = Some a"
    by (induction rule: rtranclp_induct) (auto dest: irp_step_agent)
  have "agent_ref_inv z"
    by (rule registration.reach_inv) (rule reach_rtranclp [OF assms(1,2)])
  with a show ?thesis by (auto simp: agent_ref_inv_def)
qed

theorem agent_registration_exclusive_witness:
  "agent_process (is_sensor sample_sys2) = Some 7 \<and> object_refs (is_sensor sample_sys2) 7 = 1"
proof -
  have "irp_step\<^sup>*\<^sup>* sample_sys1 sample_sys2"
    unfolding sample_sys2_def by (rule r_into_rtranclp, rule sample_ioctl_step) (simp add: sample_sys1_sensor)
  from agent_registration_exclusive [OF sample_reach1 this sample_sys1_fields(1)] show ?thesis by simp
qed

text \<open>
  A process other than the registered agent can do nothing but register: its request is
  completed with \<open>STATUS_ACCESS_DENIED\<close> and everything else in the sensor stays as it was.
\<close>

theorem only_agent_commands:
  assumes "irp_control_code (irps s p) \<noteq> IOCTL_REGISTER_AGENT" and "agent_process s \<noteq> Some caller"
  shows "dispatch_device_control caller now p s =
    (s\<lparr>irps := (irps s)(p := (irps s p)\<lparr>irp_status := STATUS_ACCESS_DENIED, irp_information := 0,
       irp_completions := irp_completions (irps s p) + 1\<rparr>)\<rparr>, STATUS_ACCESS_DENIED)"
  using assms by (simp add: dispatch_device_control_def irp_op_defs upd_irp_def)

theorem only_agent_commands_witness:
  "snd (dispatch_device_control 8 0 1 (is_sensor sample_sys1)) = STATUS_ACCESS_DENIED"
  using only_agent_commands [of "is_sensor sample_sys1" 1 8 0] by (simp add: sample_sys1_fields)

text \<open>
  An agent that asks for an event with a buffer shorter than the event loses it: the queue
  drops the event, the request is completed with \<open>STATUS_BUFFER_TOO_SMALL\<close> and no data,
  and the dispatch routine returns \<open>STATUS_SUCCESS\<close>, which is not the status of the request.
\<close>

theorem short_buffer_loses_event:
  assumes "agent_process s = Some caller" and "irp_control_code (irps s p) = IOCTL_GET_EVENT"
    and "pending_irp s = None" and "event_queue s = Some (evt # q)"
    and "irp_output_len (irps s p) < size_of_event"
  shows "\<exists>s'. dispatch_device_control caller now p s = (s', STATUS_SUCCESS)
    \<and> event_queue s' = Some q \<and> irp_status (irps s' p) = STATUS_BUFFER_TOO_SMALL
    \<and> irp_output (irps s' p) = irp_output (irps s p)"
  using assms by (simp add: dispatch_device_control_def ioctl_get_event_def ioctl_answer_queued_def
      irp_op_defs)

theorem short_buffer_loses_event_witness:
  "\<exists>s'. dispatch_device_control 7 0 0
     ((is_sensor sample_sys1)\<lparr>irps := (\<lambda>_. sample_irp IOCTL_GET_EVENT 10),
        event_queue := Some [sample_event]\<rparr>) = (s', STATUS_SUCCESS)
   \<and> event_queue s' = Some [] \<and> irp_status (irps s' 0) = STATUS_BUFFER_TOO_SMALL"
  using short_buffer_loses_event [of "(is_sensor sample_sys1)\<lparr>irps := (\<lambda>_. sample_irp IOCTL_GET_EVENT 10),
        event_queue := Some [sample_event]\<rparr>" 7 0 sample_event "[]" 0]
  by (auto simp: sample_sys1_fields sample_irp_def)

end
