(* ===== verification/Sensor_Apc.thy ===== *)
theory Sensor_Apc
  imports Sensor_Irp
begin

text \<open>
  The freeze of a new process: the thread callback of \<open>callback.rs\<close>, the APC of
  \<open>apc.rs\<close> and the unload routine of \<open>lib.rs\<close>, first as the routines of the code,
  then as steps between which other threads run: what one spin lock guards is one step, and the
  verdict of the agent can arrive between any two.
\<close>

subsection \<open>The routines\<close>

definition inject_begin :: "nat \<Rightarrow> u64 \<Rightarrow> u64 \<Rightarrow> sensor \<Rightarrow> sensor" where
  "inject_begin p pid rid s =
     (let s1 = s\<lparr>apc_count := apc_count s + 1,
                 apc_ctxs := (apc_ctxs s)(p \<mapsto> \<lparr>fc_signalled = False, fc_pid = pid, fc_request_id = rid\<rparr>)\<rparr>
      in case pending_scans s1 of
           None \<Rightarrow> s1
         | Some list \<Rightarrow> s1\<lparr>pending_scans := Some (list @
             [\<lparr>ps_request_id = rid, ps_pid = pid, ps_event_ptr = p, ps_verdict = STATUS_ACCESS_DENIED\<rparr>])\<rparr>)"

text \<open>\<open>Box::from_raw\<close> of a context, dropped.\<close>

definition free_ctx :: "nat \<Rightarrow> sensor \<Rightarrow> sensor" where
  "free_ctx p s = s\<lparr>apc_ctxs := (apc_ctxs s)(p := None)\<rparr>"

definition apc_done :: "sensor \<Rightarrow> sensor" where
  "apc_done s = s\<lparr>apc_count := apc_count s - 1\<rparr>"

definition inject_cleanup :: "u64 \<Rightarrow> sensor \<Rightarrow> sensor" where
  "inject_cleanup pid s = apc_done (fst (remove_pending pid s))"

text \<open>
  \<open>found\<close> and \<open>inserted\<close> are what \<open>PsLookupThreadByThreadId\<close> and \<open>KeInsertQueueApc\<close> return,
  \<open>p\<close> is the address of the new box.
\<close>

definition inject_freeze_apc :: "bool \<Rightarrow> bool \<Rightarrow> nat \<Rightarrow> u64 \<Rightarrow> u64 \<Rightarrow> sensor \<Rightarrow> sensor" where
  "inject_freeze_apc found inserted p pid rid s =
     (if \<not> found then s
      else
        (let s1 = inject_begin p pid rid s
         in if \<not> inserted then inject_cleanup pid (free_ctx p s1) else s1))"

definition thread_notify_routine :: "bool \<Rightarrow> bool \<Rightarrow> nat \<Rightarrow> u64 \<Rightarrow> bool \<Rightarrow> sensor \<Rightarrow> sensor" where
  "thread_notify_routine found inserted p pid create s =
     (if \<not> create then s
      else
        (case take_target pid s of
           (s', None) \<Rightarrow> s'
         | (s', Some item) \<Rightarrow> inject_freeze_apc found inserted p pid (tp_request_id item) s'))"

definition apc_rundown_routine :: "nat \<Rightarrow> sensor \<Rightarrow> sensor" where
  "apc_rundown_routine p s = apc_done (free_ctx p s)"

text \<open>The end of the normal routine: the box is dropped and the process terminated on a block.\<close>

definition apc_finish :: "nat \<Rightarrow> u64 \<Rightarrow> bool \<Rightarrow> sensor \<Rightarrow> sensor" where
  "apc_finish p pid should_terminate s =
     (let s1 = apc_done (free_ctx p s)
      in if should_terminate then s1\<lparr>terminated := terminated s1 @ [pid]\<rparr> else s1)"

definition apc_early_exit :: "nat \<Rightarrow> u64 \<Rightarrow> ntstatus \<Rightarrow> sensor \<Rightarrow> sensor" where
  "apc_early_exit p pid v s = apc_finish p pid (v \<noteq> STATUS_SUCCESS) (fst (remove_pending pid s))"

definition apc_after_wait :: "nat \<Rightarrow> u64 \<Rightarrow> ntstatus \<Rightarrow> sensor \<Rightarrow> sensor" where
  "apc_after_wait p pid status s =
     (let (s1, item) = remove_pending pid s;
          verdict = (case item of None \<Rightarrow> STATUS_ACCESS_DENIED | Some i \<Rightarrow> ps_verdict i)
      in apc_finish p pid (status \<noteq> STATUS_TIMEOUT \<and> verdict \<noteq> STATUS_SUCCESS) s1)"

text \<open>
  \<open>wait\<close> is \<open>KeWaitForSingleObject\<close> on the event of the context: the state other threads
  leave while the process is frozen, and the status of the wait.
\<close>

definition apc_normal_routine :: "(nat \<Rightarrow> sensor \<Rightarrow> sensor \<times> ntstatus) \<Rightarrow> nat \<Rightarrow> sensor \<Rightarrow> sensor" where
  "apc_normal_routine wait p s =
     (case apc_ctxs s p of
        None \<Rightarrow> s\<lparr>freed_memory_access := True\<rparr>
      | Some ctx \<Rightarrow>
          (case check_early_verdict (fc_pid ctx) s of
             (s1, Some v) \<Rightarrow> apc_early_exit p (fc_pid ctx) v s1
           | (s1, None) \<Rightarrow>
               (case wait p s1 of (s2, status) \<Rightarrow> apc_after_wait p (fc_pid ctx) status s2)))"

text \<open>
  \<open>driver_unload\<close>: the callbacks are removed, every pending scan is woken, the routine waits
  until no APC is in flight, releases the agent and deletes the link and the device (\<open>delay\<close> is what the rest of the system does during one delay; the
  fuel bounds the number of delays, \<open>None\<close> when it did not suffice).
\<close>

definition unload_wake :: "sensor \<Rightarrow> sensor" where
  "unload_wake s =
     (case pending_scans s of
        None \<Rightarrow> s
      | Some list \<Rightarrow>
          (fold (\<lambda>item. set_event (ps_event_ptr item)) list s)\<lparr>pending_scans := Some []\<rparr>)"

fun unload_wait :: "(sensor \<Rightarrow> sensor) \<Rightarrow> nat \<Rightarrow> sensor \<Rightarrow> sensor option" where
  "unload_wait delay fuel s =
     (if 0 < apc_count s
      then (case fuel of 0 \<Rightarrow> None | Suc n \<Rightarrow> unload_wait delay n (delay s))
      else Some s)"

definition unload_link_name :: unicode_string where
  "unload_link_name = \<lparr>us_length = 36, us_buffer = Some link_u16\<rparr>"

definition unload_finish :: "sensor \<Rightarrow> sensor" where
  "unload_finish s =
     (let s1 = (case agent_process s of
                  None \<Rightarrow> s
                | Some agent \<Rightarrow> (ob_dereference agent s)\<lparr>agent_process := None\<rparr>);
          s2 = s1\<lparr>symlinks := filter (\<lambda>l. l \<noteq> us_slice unload_link_name) (symlinks s1)\<rparr>
      in if local_device_object s2 \<noteq> None then s2\<lparr>device_exists := False\<rparr> else s2)"

definition driver_unload :: "(sensor \<Rightarrow> sensor) \<Rightarrow> nat \<Rightarrow> sensor \<Rightarrow> sensor option" where
  "driver_unload delay fuel s =
     (let s1 = s\<lparr>process_callback := False, thread_callback := False\<rparr>
      in map_option unload_finish (unload_wait delay fuel (unload_wake s1)))"

declare unload_wait.simps [simp del]

subsection \<open>Frames\<close>

lemma apc_piece_frames [frame_simps]:
  "pending_scans (free_ctx p s) = pending_scans s" "apc_ctxs (free_ctx p s) = (apc_ctxs s)(p := None)"
  "apc_count (free_ctx p s) = apc_count s" "terminated (free_ctx p s) = terminated s"
  "freed_memory_access (free_ctx p s) = freed_memory_access s"
  "verdict_cache (free_ctx p s) = verdict_cache s" "target_pids (free_ctx p s) = target_pids s"
  "pending_scans (apc_done s) = pending_scans s" "apc_ctxs (apc_done s) = apc_ctxs s"
  "apc_count (apc_done s) = apc_count s - 1" "terminated (apc_done s) = terminated s"
  "freed_memory_access (apc_done s) = freed_memory_access s"
  "verdict_cache (apc_done s) = verdict_cache s" "target_pids (apc_done s) = target_pids s"
  by (simp_all add: free_ctx_def apc_done_def)

lemma inject_begin_fields [frame_simps]:
  "apc_count (inject_begin p pid rid s) = apc_count s + 1"
  "apc_ctxs (inject_begin p pid rid s) =
     (apc_ctxs s)(p \<mapsto> \<lparr>fc_signalled = False, fc_pid = pid, fc_request_id = rid\<rparr>)"
  "pending_scans (inject_begin p pid rid s) = map_option (\<lambda>l. l @
     [\<lparr>ps_request_id = rid, ps_pid = pid, ps_event_ptr = p, ps_verdict = STATUS_ACCESS_DENIED\<rparr>])
     (pending_scans s)"
  "terminated (inject_begin p pid rid s) = terminated s"
  "freed_memory_access (inject_begin p pid rid s) = freed_memory_access s"
  "verdict_cache (inject_begin p pid rid s) = verdict_cache s"
  "target_pids (inject_begin p pid rid s) = target_pids s"
  by (auto simp: inject_begin_def Let_def split: option.splits)

lemma apc_finish_fields [frame_simps]:
  "pending_scans (apc_finish p pid t s) = pending_scans s"
  "apc_ctxs (apc_finish p pid t s) = (apc_ctxs s)(p := None)"
  "apc_count (apc_finish p pid t s) = apc_count s - 1"
  "terminated (apc_finish p pid t s) = terminated s @ (if t then [pid] else [])"
  "freed_memory_access (apc_finish p pid t s) = freed_memory_access s"
  "verdict_cache (apc_finish p pid t s) = verdict_cache s"
  by (simp_all add: apc_finish_def Let_def frame_simps)

lemma notify_agent_apc_frame [frame_simps]:
  "pending_scans (notify_agent pid rid img frozen s) = pending_scans s"
  "apc_ctxs (notify_agent pid rid img frozen s) = apc_ctxs s"
  "apc_count (notify_agent pid rid img frozen s) = apc_count s"
  "terminated (notify_agent pid rid img frozen s) = terminated s"
  "freed_memory_access (notify_agent pid rid img frozen s) = freed_memory_access s"
  "verdict_cache (notify_agent pid rid img frozen s) = verdict_cache s"
  "target_pids (notify_agent pid rid img frozen s) = target_pids s"
  "request_id_counter (notify_agent pid rid img frozen s) = request_id_counter s"
  by (auto simp: notify_agent_def queue_event_def irp_answer_def irp_op_defs Let_def
      split: option.splits bool.splits)

lemma process_notify_apc_frame [frame_simps]:
  "pending_scans (process_notify_routine pid info s) = pending_scans s"
  "apc_ctxs (process_notify_routine pid info s) = apc_ctxs s"
  "apc_count (process_notify_routine pid info s) = apc_count s"
  "terminated (process_notify_routine pid info s) = terminated s"
  "freed_memory_access (process_notify_routine pid info s) = freed_memory_access s"
  "verdict_cache (process_notify_routine pid info s) = verdict_cache s"
  by (auto simp: process_notify_routine_def Let_def frame_simps split: option.splits)


subsection \<open>Steps\<close>

text \<open>
  Where the APC of a context is. \<open>Insert_Failed\<close> keeps the process id that the cleanup still
  searches for; its box is gone already.
\<close>

datatype apc_phase =
    Injecting
  | Insert_Failed u64
  | Queued
  | Early_Verdict ntstatus
  | Waiting

text \<open>
  The system around the freeze: the sensor, the thread notifications that took their target and
  have not injected yet, the phase of every APC, and the verdicts between the two critical
  sections of \<open>apply_verdict\<close>.
\<close>

record apc_sys =
  as_sensor :: sensor
  as_taken :: "(u64 \<times> u64) list"
  as_phase :: "nat \<rightharpoonup> apc_phase"
  as_inflight :: "(u64 \<times> bool) list"

text \<open>A process id is in use while an injection or an APC for it is under way.\<close>

definition pid_busy :: "u64 \<Rightarrow> apc_sys \<Rightarrow> bool" where
  "pid_busy pid y \<longleftrightarrow> pid \<in> fst ` set (as_taken y)
     \<or> pid \<in> fc_pid ` ran (apc_ctxs (as_sensor y))
     \<or> Insert_Failed pid \<in> ran (as_phase y)"

text \<open>
  \<open>deaths\<close> says whether a thread may die before its APC runs, or refuse it. A process id is not
  given to a new process before the threads of the old one are gone, so no thread starts for an
  id in use. The counter of the request ids has 64 bits and is taken not to wrap.
\<close>

inductive apc_step :: "bool \<Rightarrow> apc_sys \<Rightarrow> apc_sys \<Rightarrow> bool" for deaths :: bool where
  step_create:
    "request_id_counter (as_sensor y) \<noteq> - 1 \<Longrightarrow>
     apc_step deaths y (y\<lparr>as_sensor := process_notify_routine pid info (as_sensor y)\<rparr>)"
| step_take:
    "\<not> pid_busy pid y \<Longrightarrow> take_target pid (as_sensor y) = (s', Some item) \<Longrightarrow>
     apc_step deaths y (y\<lparr>as_sensor := s', as_taken := (pid, tp_request_id item) # as_taken y\<rparr>)"
| step_lookup_failed:
    "(pid, rid) \<in> set (as_taken y) \<Longrightarrow>
     apc_step deaths y (y\<lparr>as_taken := remove1 (pid, rid) (as_taken y)\<rparr>)"
| step_inject:
    "(pid, rid) \<in> set (as_taken y) \<Longrightarrow> apc_ctxs (as_sensor y) p = None \<Longrightarrow> as_phase y p = None \<Longrightarrow>
     apc_step deaths y (y\<lparr>as_sensor := inject_begin p pid rid (as_sensor y),
       as_taken := remove1 (pid, rid) (as_taken y), as_phase := (as_phase y)(p \<mapsto> Injecting)\<rparr>)"
| step_insert:
    "as_phase y p = Some Injecting \<Longrightarrow>
     apc_step deaths y (y\<lparr>as_phase := (as_phase y)(p \<mapsto> Queued)\<rparr>)"
| step_insert_failed:
    "deaths \<Longrightarrow> as_phase y p = Some Injecting \<Longrightarrow> apc_ctxs (as_sensor y) p = Some c \<Longrightarrow>
     apc_step deaths y (y\<lparr>as_sensor := free_ctx p (as_sensor y),
       as_phase := (as_phase y)(p \<mapsto> Insert_Failed (fc_pid c))\<rparr>)"
| step_insert_cleanup:
    "as_phase y p = Some (Insert_Failed pid) \<Longrightarrow>
     apc_step deaths y (y\<lparr>as_sensor := inject_cleanup pid (as_sensor y),
       as_phase := (as_phase y)(p := None)\<rparr>)"
| step_rundown:
    "deaths \<Longrightarrow> as_phase y p = Some Queued \<Longrightarrow>
     apc_step deaths y (y\<lparr>as_sensor := apc_rundown_routine p (as_sensor y),
       as_phase := (as_phase y)(p := None)\<rparr>)"
| step_early_check:
    "as_phase y p = Some Queued \<Longrightarrow> apc_ctxs (as_sensor y) p = Some c \<Longrightarrow>
     check_early_verdict (fc_pid c) (as_sensor y) = (s', v) \<Longrightarrow>
     apc_step deaths y (y\<lparr>as_sensor := s', as_phase := (as_phase y)(p \<mapsto>
       (case v of None \<Rightarrow> Waiting | Some st \<Rightarrow> Early_Verdict st))\<rparr>)"
| step_early_exit:
    "as_phase y p = Some (Early_Verdict v) \<Longrightarrow> apc_ctxs (as_sensor y) p = Some c \<Longrightarrow>
     apc_step deaths y (y\<lparr>as_sensor := apc_early_exit p (fc_pid c) v (as_sensor y),
       as_phase := (as_phase y)(p := None)\<rparr>)"
| step_wake:
    "as_phase y p = Some Waiting \<Longrightarrow> apc_ctxs (as_sensor y) p = Some c \<Longrightarrow>
     (status = STATUS_SUCCESS \<longrightarrow> fc_signalled c) \<Longrightarrow>
     apc_step deaths y (y\<lparr>as_sensor := apc_after_wait p (fc_pid c) status (as_sensor y),
       as_phase := (as_phase y)(p := None)\<rparr>)"
| step_verdict:
    "deliver_pending rid allow (as_sensor y) = (s', found) \<Longrightarrow>
     apc_step deaths y (y\<lparr>as_sensor := s',
       as_inflight := (if found then as_inflight y else (rid, allow) # as_inflight y)\<rparr>)"
| step_cache:
    "(rid, allow) \<in> set (as_inflight y) \<Longrightarrow>
     apc_step deaths y (y\<lparr>as_sensor := cache_verdict now rid allow (as_sensor y),
       as_inflight := remove1 (rid, allow) (as_inflight y)\<rparr>)"

definition apc_init :: "apc_sys \<Rightarrow> bool" where
  "apc_init y \<longleftrightarrow> (\<exists>is dev. as_sensor y = loaded is dev)
     \<and> as_taken y = [] \<and> as_phase y = Map.empty \<and> as_inflight y = []"


subsection \<open>The APC count\<close>

definition count_inv :: "apc_sys \<Rightarrow> bool" where
  "count_inv y \<longleftrightarrow> finite (dom (as_phase y))
     \<and> apc_count (as_sensor y) = of_nat (card (dom (as_phase y)))
     \<and> dom (apc_ctxs (as_sensor y)) = {p. \<exists>ph. as_phase y p = Some ph \<and> (\<forall>pid. ph \<noteq> Insert_Failed pid)}"

lemma of_nat_card_insert:
  assumes "finite (dom m)" and "m p = None"
  shows "of_nat (card (dom (m(p \<mapsto> x)))) = (of_nat (card (dom m)) + 1 :: u64)"
  using assms by (simp add: domIff)

lemma of_nat_card_delete:
  assumes "finite (dom m)" and "m p = Some x"
  shows "of_nat (card (dom (m(p := None)))) = (of_nat (card (dom m)) - 1 :: u64)"
proof -
  have "card (dom m) = Suc (card (dom m - {p}))"
    using card_Suc_Diff1 [OF assms(1), of p] assms(2) by (metis domI)
  then show ?thesis by simp
qed

lemma count_inv_same:
  assumes "count_inv y" and "dom (apc_ctxs (as_sensor z)) = dom (apc_ctxs (as_sensor y))"
    and "apc_count (as_sensor z) = apc_count (as_sensor y)" and "as_phase z = as_phase y"
  shows "count_inv z"
  using assms by (simp add: count_inv_def)

lemma count_inv_move:
  assumes "count_inv y" and "dom (apc_ctxs (as_sensor z)) = dom (apc_ctxs (as_sensor y))"
    and "apc_count (as_sensor z) = apc_count (as_sensor y)"
    and "as_phase y p = Some old" and "\<And>pid. old \<noteq> Insert_Failed pid"
    and "as_phase z = (as_phase y)(p \<mapsto> new)" and "\<And>pid. new \<noteq> Insert_Failed pid"
  shows "count_inv z"
proof -
  have "dom (as_phase z) = dom (as_phase y)" using assms(4,6) by auto
  moreover have "{q. \<exists>ph. as_phase z q = Some ph \<and> (\<forall>pid. ph \<noteq> Insert_Failed pid)}
    = {q. \<exists>ph. as_phase y q = Some ph \<and> (\<forall>pid. ph \<noteq> Insert_Failed pid)}"
    using assms(4-7) by auto
  ultimately show ?thesis using assms(1-3) by (simp add: count_inv_def)
qed

lemma count_inv_fail:
  assumes "count_inv y" and "dom (apc_ctxs (as_sensor z)) = dom (apc_ctxs (as_sensor y)) - {p}"
    and "apc_count (as_sensor z) = apc_count (as_sensor y)"
    and "as_phase y p = Some old" and "as_phase z = (as_phase y)(p \<mapsto> Insert_Failed pid)"
  shows "count_inv z"
proof -
  have "dom (as_phase z) = dom (as_phase y)" using assms(4,5) by auto
  moreover have "{q. \<exists>ph. as_phase z q = Some ph \<and> (\<forall>pid. ph \<noteq> Insert_Failed pid)}
    = {q. \<exists>ph. as_phase y q = Some ph \<and> (\<forall>pid. ph \<noteq> Insert_Failed pid)} - {p}"
    using assms(4,5) by auto
  ultimately show ?thesis using assms(1-3) by (simp add: count_inv_def)
qed

lemma count_inv_drop:
  assumes "count_inv y" and "dom (apc_ctxs (as_sensor z)) = dom (apc_ctxs (as_sensor y)) - {p}"
    and "apc_count (as_sensor z) = apc_count (as_sensor y) - 1"
    and "as_phase y p = Some old" and "as_phase z = (as_phase y)(p := None)"
  shows "count_inv z"
proof -
  have "{q. \<exists>ph. as_phase z q = Some ph \<and> (\<forall>pid. ph \<noteq> Insert_Failed pid)}
    = {q. \<exists>ph. as_phase y q = Some ph \<and> (\<forall>pid. ph \<noteq> Insert_Failed pid)} - {p}"
    using assms(5) by auto
  then show ?thesis
    using assms of_nat_card_delete [of "as_phase y" p old] by (simp add: count_inv_def)
qed

lemma count_inv_add:
  assumes "count_inv y" and "dom (apc_ctxs (as_sensor z)) = insert p (dom (apc_ctxs (as_sensor y)))"
    and "apc_count (as_sensor z) = apc_count (as_sensor y) + 1"
    and "as_phase y p = None" and "as_phase z = (as_phase y)(p \<mapsto> Injecting)"
  shows "count_inv z"
proof -
  have "{q. \<exists>ph. as_phase z q = Some ph \<and> (\<forall>pid. ph \<noteq> Insert_Failed pid)}
    = insert p {q. \<exists>ph. as_phase y q = Some ph \<and> (\<forall>pid. ph \<noteq> Insert_Failed pid)}"
    using assms(4,5) by auto
  then show ?thesis
    using assms of_nat_card_insert [of "as_phase y" p] by (simp add: count_inv_def)
qed

lemma apc_after_wait_fields [frame_simps]:
  "apc_ctxs (apc_after_wait p pid st s) = (apc_ctxs s)(p := None)"
  "apc_count (apc_after_wait p pid st s) = apc_count s - 1"
  "pending_scans (apc_after_wait p pid st s) = pending_scans (fst (remove_pending pid s))"
  "freed_memory_access (apc_after_wait p pid st s) = freed_memory_access s"
  "terminated (apc_after_wait p pid st s) = terminated s @
     (if st \<noteq> STATUS_TIMEOUT \<and> (case snd (remove_pending pid s) of None \<Rightarrow> STATUS_ACCESS_DENIED
        | Some i \<Rightarrow> ps_verdict i) \<noteq> STATUS_SUCCESS then [pid] else [])"
  by (simp_all add: apc_after_wait_def Let_def case_prod_beta frame_simps)

lemma apc_early_exit_fields [frame_simps]:
  "apc_ctxs (apc_early_exit p pid v s) = (apc_ctxs s)(p := None)"
  "apc_count (apc_early_exit p pid v s) = apc_count s - 1"
  "pending_scans (apc_early_exit p pid v s) = pending_scans (fst (remove_pending pid s))"
  "freed_memory_access (apc_early_exit p pid v s) = freed_memory_access s"
  "terminated (apc_early_exit p pid v s) = terminated s @ (if v \<noteq> STATUS_SUCCESS then [pid] else [])"
  by (simp_all add: apc_early_exit_def frame_simps)

lemma inject_cleanup_fields [frame_simps]:
  "apc_ctxs (inject_cleanup pid s) = apc_ctxs s"
  "apc_count (inject_cleanup pid s) = apc_count s - 1"
  by (simp_all add: inject_cleanup_def frame_simps)

lemma count_inv_step:
  assumes inv: "count_inv y" and step: "apc_step d y z"
  shows "count_inv z"
  using step
proof cases
  case (step_create pid info)
  then show ?thesis by (intro count_inv_same [OF inv]) (simp_all add: frame_simps)
next
  case (step_take pid s' item)
  then show ?thesis
    using take_target_frame [of pid "as_sensor y"] by (intro count_inv_same [OF inv]) simp_all
next
  case (step_lookup_failed pid rid)
  then show ?thesis by (intro count_inv_same [OF inv]) simp_all
next
  case (step_inject pid rid p)
  then show ?thesis by (intro count_inv_add [OF inv, where p = p]) (simp_all add: frame_simps)
next
  case (step_insert p)
  then show ?thesis by (intro count_inv_move [OF inv, where p = p and old = Injecting and new = Queued]) simp_all
next
  case (step_insert_failed p c)
  then show ?thesis by (intro count_inv_fail [OF inv, where p = p]) (simp_all add: frame_simps)
next
  case (step_insert_cleanup p pid)
  then have "p \<notin> dom (apc_ctxs (as_sensor y))" using inv by (auto simp: count_inv_def)
  with step_insert_cleanup show ?thesis
    by (intro count_inv_drop [OF inv, where p = p]) (simp_all add: frame_simps)
next
  case (step_rundown p)
  then show ?thesis
    by (intro count_inv_drop [OF inv, where p = p]) (simp_all add: frame_simps apc_rundown_routine_def)
next
  case (step_early_check p c s' v)
  define ph where "ph = (case v of None \<Rightarrow> Waiting | Some st \<Rightarrow> Early_Verdict st)"
  have ph: "ph \<noteq> Insert_Failed pid" for pid by (simp add: ph_def split: option.split)
  have s': "s' = fst (check_early_verdict (fc_pid c) (as_sensor y))" using step_early_check by simp
  show ?thesis
    by (rule count_inv_move [OF inv _ _ step_early_check(2) _ _ ph])
      (simp_all add: step_early_check(1) s' frame_simps ph_def)
next
  case (step_early_exit p v c)
  then show ?thesis by (intro count_inv_drop [OF inv, where p = p]) (simp_all add: frame_simps)
next
  case (step_wake p c status)
  then show ?thesis by (intro count_inv_drop [OF inv, where p = p]) (simp_all add: frame_simps)
next
  case (step_verdict rid allow s' found)
  then show ?thesis
    using deliver_pending_frame [of rid allow "as_sensor y"]
    by (intro count_inv_same [OF inv]) simp_all
next
  case (step_cache rid allow now)
  then show ?thesis by (intro count_inv_same [OF inv]) (simp_all add: frame_simps)
qed

lemma count_inv_init: "apc_init y \<Longrightarrow> count_inv y"
  by (auto simp: apc_init_def count_inv_def)

interpretation apc_counting: invariant_system apc_init "apc_step d" count_inv
  by unfold_locales (auto intro: count_inv_init count_inv_step)


subsection \<open>Memory safety and the delivery of verdicts\<close>

text \<open>
  While no thread dies early: every pending scan belongs to the live context at its pointer, every
  live context has one, and neither process ids nor request ids collide.
\<close>

definition scan_key :: "pending_scan \<Rightarrow> nat \<times> u64 \<times> u64" where
  "scan_key e = (ps_event_ptr e, ps_pid e, ps_request_id e)"

definition scan_keys :: "sensor \<Rightarrow> (nat \<times> u64 \<times> u64) list" where
  "scan_keys s = map scan_key (opt_list (pending_scans s))"

definition ctx_keys :: "sensor \<Rightarrow> nat \<rightharpoonup> u64 \<times> u64" where
  "ctx_keys s p = map_option (\<lambda>c. (fc_pid c, fc_request_id c)) (apc_ctxs s p)"

definition scans_inv :: "sensor \<Rightarrow> bool" where
  "scans_inv s \<longleftrightarrow> pending_scans s \<noteq> None \<and> \<not> freed_memory_access s
     \<and> (\<forall>p k. (p, k) \<in> set (scan_keys s) \<longleftrightarrow> ctx_keys s p = Some k)
     \<and> distinct (map (\<lambda>(p, pid, rid). pid) (scan_keys s))"

definition rid_list :: "apc_sys \<Rightarrow> u64 list" where
  "rid_list y = map tp_request_id (opt_list (target_pids (as_sensor y))) @ map snd (as_taken y)
     @ map ps_request_id (opt_list (pending_scans (as_sensor y)))"

definition rids_inv :: "apc_sys \<Rightarrow> bool" where
  "rids_inv y \<longleftrightarrow> distinct (rid_list y)
     \<and> (\<forall>r \<in> set (rid_list y). r < request_id_counter (as_sensor y))"

definition taken_inv :: "apc_sys \<Rightarrow> bool" where
  "taken_inv y \<longleftrightarrow> distinct (map fst (as_taken y))
     \<and> (\<forall>e \<in> set (opt_list (pending_scans (as_sensor y))). ps_pid e \<notin> fst ` set (as_taken y))
     \<and> (\<forall>p pid. as_phase y p \<noteq> Some (Insert_Failed pid))"

definition freeze_inv :: "apc_sys \<Rightarrow> bool" where
  "freeze_inv y \<longleftrightarrow> scans_inv (as_sensor y) \<and> rids_inv y \<and> taken_inv y"

text \<open>Request ids that move between the lists, or leave them, stay distinct.\<close>

lemma rids_inv_moved:
  assumes "rids_inv y" and "mset (rid_list z) \<subseteq># mset (rid_list y)"
    and "request_id_counter (as_sensor z) = request_id_counter (as_sensor y)"
  shows "rids_inv z"
  using assms distinct_mset_subset [of "rid_list y" "rid_list z"] set_mset_mono [OF assms(2)]
  by (auto simp: rids_inv_def)

lemma scan_keys_pids: "map (\<lambda>(p, pid, rid). pid) (scan_keys s) = map ps_pid (opt_list (pending_scans s))"
  by (simp add: scan_keys_def scan_key_def)

lemma scans_inv_keysD:
  "scans_inv s \<Longrightarrow> (p, k) \<in> set (scan_keys s) \<longleftrightarrow> ctx_keys s p = Some k"
  unfolding scans_inv_def by blast

lemma scans_inv_pids: "scans_inv s \<Longrightarrow> distinct (map ps_pid (opt_list (pending_scans s)))"
  by (simp add: scans_inv_def scan_keys_pids)

lemma scans_inv_same:
  assumes "scans_inv s" and "scan_keys s' = scan_keys s" and "ctx_keys s' = ctx_keys s"
    and "pending_scans s' \<noteq> None" and "\<not> freed_memory_access s'"
  shows "scans_inv s'"
  using assms by (simp add: scans_inv_def)

lemma scans_inv_frame:
  assumes "scans_inv s" and "pending_scans s' = pending_scans s" and "apc_ctxs s' = apc_ctxs s"
    and "freed_memory_access s' = freed_memory_access s"
  shows "scans_inv s'"
  using assms by (simp add: scans_inv_def scan_keys_def ctx_keys_def)

text \<open>The scan of a live context is found by its process id and by its request id.\<close>

lemma scans_inv_own:
  assumes inv: "scans_inv s" and c: "apc_ctxs s p = Some c"
  obtains e where "e \<in> set (opt_list (pending_scans s))" and "scan_key e = (p, fc_pid c, fc_request_id c)"
    and "snd (remove_pending (fc_pid c) s) = Some e"
proof -
  have "(p, fc_pid c, fc_request_id c) \<in> set (scan_keys s)"
    using c by (simp add: scans_inv_keysD [OF inv] ctx_keys_def)
  then obtain e where e: "e \<in> set (opt_list (pending_scans s))" "scan_key e = (p, fc_pid c, fc_request_id c)"
    by (auto simp: scan_keys_def)
  with pendings.take_out_known [OF scans_inv_pids [OF inv] e(1)] that show thesis
    by (simp add: scan_key_def)
qed

text \<open>The end of a routine: its scan and its box go together.\<close>

lemma scans_inv_finish:
  assumes inv: "scans_inv s" and c: "apc_ctxs s p = Some c"
    and z: "pending_scans s' = pending_scans (fst (remove_pending (fc_pid c) s))"
      "apc_ctxs s' = (apc_ctxs s)(p := None)" "\<not> freed_memory_access s'"
  shows "scans_inv s'"
proof -
  note d = scans_inv_pids [OF inv]
  let ?own = "(p, fc_pid c, fc_request_id c)"
  have own: "k = ?own" if "k \<in> set (scan_keys s)" "fst (snd k) = fc_pid c" for k
  proof -
    have "?own \<in> set (scan_keys s)" using c by (simp add: scans_inv_keysD [OF inv] ctx_keys_def)
    moreover have "distinct (map (fst \<circ> snd) (scan_keys s))"
      using d by (simp add: scan_keys_def scan_key_def comp_def)
    ultimately show ?thesis using that by (auto simp: distinct_map inj_on_def)
  qed
  have keys: "set (scan_keys s') = {k \<in> set (scan_keys s). fst (snd k) \<noteq> fc_pid c}"
    using pendings.take_out_set [OF d, of "fc_pid c"] by (auto simp: scan_keys_def z(1) scan_key_def)
  have "(q, k) \<in> set (scan_keys s') \<longleftrightarrow> ctx_keys s' q = Some k" for q k
  proof (cases "q = p")
    case True
    have "fst k = fc_pid c" if "(p, k) \<in> set (scan_keys s)"
      using that c by (simp add: scans_inv_keysD [OF inv] ctx_keys_def) auto
    with True show ?thesis by (auto simp: keys ctx_keys_def z(2))
  next
    case False
    with own [of "(q, k)"] show ?thesis
      by (auto simp: keys scans_inv_keysD [OF inv] ctx_keys_def z(2))
  qed
  moreover have "distinct (map ps_pid (opt_list (pending_scans s')))"
    using pendings.take_out_keeps_distinct [OF d] by (simp add: z(1))
  moreover have "pending_scans s' \<noteq> None"
    using inv z(1) remove_pending_frame [of "fc_pid c" s] by (simp add: scans_inv_def)
  ultimately show ?thesis using z(3) by (simp add: scans_inv_def scan_keys_pids)
qed

lemma scans_inv_begin:
  assumes inv: "scans_inv s" and p: "apc_ctxs s p = None"
    and pid: "pid \<notin> ps_pid ` set (opt_list (pending_scans s))"
  shows "scans_inv (inject_begin p pid rid s)"
proof -
  obtain l where l: "pending_scans s = Some l" using inv by (auto simp: scans_inv_def)
  have keys: "scan_keys (inject_begin p pid rid s) = scan_keys s @ [(p, pid, rid)]"
    by (simp add: scan_keys_def scan_key_def frame_simps l)
  have ctx: "ctx_keys (inject_begin p pid rid s) = (ctx_keys s)(p \<mapsto> (pid, rid))"
    by (rule ext) (simp add: ctx_keys_def frame_simps)
  have "(p, k) \<notin> set (scan_keys s)" for k using p by (simp add: scans_inv_keysD [OF inv] ctx_keys_def)
  then have "(q, k) \<in> set (scan_keys (inject_begin p pid rid s))
      \<longleftrightarrow> ctx_keys (inject_begin p pid rid s) q = Some k" for q k
    by (auto simp: keys ctx scans_inv_keysD [OF inv])
  moreover have "distinct (map ps_pid (opt_list (pending_scans (inject_begin p pid rid s))))"
    using scans_inv_pids [OF inv] pid by (simp add: frame_simps l)
  ultimately show ?thesis
    using inv by (simp add: scans_inv_def scan_keys_pids frame_simps)
qed

text \<open>A verdict that finds a pending scan signals the event of a live box.\<close>

lemma deliver_pending_live:
  assumes inv: "scans_inv s" and i: "find (\<lambda>x. ps_request_id x = rid) (opt_list (pending_scans s)) = Some i"
  obtains c where "apc_ctxs s (ps_event_ptr i) = Some c" and "fc_request_id c = rid" and "fc_pid c = ps_pid i"
    and "deliver_pending rid a s = (s\<lparr>pending_scans := Some (update_first (\<lambda>x. ps_request_id x = rid)
          (\<lambda>x. x\<lparr>ps_verdict := verdict_status a\<rparr>) (opt_list (pending_scans s))),
        apc_ctxs := (apc_ctxs s)(ps_event_ptr i \<mapsto> c\<lparr>fc_signalled := True\<rparr>)\<rparr>, True)"
proof -
  obtain l where l: "pending_scans s = Some l" using inv by (auto simp: scans_inv_def)
  from i have "i \<in> set l" "ps_request_id i = rid" by (auto simp: l dest: find_SomeD)
  then have "(ps_event_ptr i, ps_pid i, rid) \<in> set (scan_keys s)"
    by (auto simp: scan_keys_def scan_key_def l)
  then have "ctx_keys s (ps_event_ptr i) = Some (ps_pid i, rid)" by (simp add: scans_inv_keysD [OF inv])
  then obtain c where "apc_ctxs s (ps_event_ptr i) = Some c" "fc_request_id c = rid" "fc_pid c = ps_pid i"
    by (auto simp: ctx_keys_def)
  with that i l show thesis by (simp add: deliver_pending_def set_event_def)
qed

lemma scans_inv_deliver:
  assumes inv: "scans_inv s"
  shows "scans_inv (fst (deliver_pending rid a s))"
proof (cases "find (\<lambda>x. ps_request_id x = rid) (opt_list (pending_scans s))")
  case None
  then have "fst (deliver_pending rid a s) = s" by (auto simp: deliver_pending_def split: option.split)
  with inv show ?thesis by simp
next
  case (Some i)
  obtain c where c: "apc_ctxs s (ps_event_ptr i) = Some c" and d: "deliver_pending rid a s =
      (s\<lparr>pending_scans := Some (update_first (\<lambda>x. ps_request_id x = rid)
          (\<lambda>x. x\<lparr>ps_verdict := verdict_status a\<rparr>) (opt_list (pending_scans s))),
        apc_ctxs := (apc_ctxs s)(ps_event_ptr i \<mapsto> c\<lparr>fc_signalled := True\<rparr>)\<rparr>, True)"
    by (rule deliver_pending_live [OF inv Some])
  show ?thesis
  proof (rule scans_inv_same [OF inv])
    show "scan_keys (fst (deliver_pending rid a s)) = scan_keys s"
      by (simp add: d scan_keys_def map_update_first_key scan_key_def)
    show "ctx_keys (fst (deliver_pending rid a s)) = ctx_keys s"
      using c by (auto simp: d ctx_keys_def)
  qed (use inv in \<open>simp_all add: d scans_inv_def\<close>)
qed


text \<open>Every step keeps the invariant, as long as no thread dies early.\<close>

lemma rids_inv_same:
  assumes "rids_inv y" and "rid_list z = rid_list y"
    and "request_id_counter (as_sensor y) \<le> request_id_counter (as_sensor z)"
  shows "rids_inv z"
  using assms by (auto simp: rids_inv_def intro: less_le_trans)

lemma rids_inv_new:
  assumes inv: "rids_inv y" and m: "mset (rid_list z) = add_mset (request_id_counter (as_sensor y)) (mset (rid_list y))"
    and c: "request_id_counter (as_sensor y) < request_id_counter (as_sensor z)"
  shows "rids_inv z"
proof -
  let ?n = "request_id_counter (as_sensor y)"
  have "?n \<notin> set (rid_list y)" using inv by (auto simp: rids_inv_def)
  then have "distinct (?n # rid_list y)" using inv by (simp add: rids_inv_def)
  then have "distinct (rid_list z)" using m by (metis mset.simps(2) mset_eq_imp_distinct_iff)
  moreover have "set (rid_list z) = insert ?n (set (rid_list y))"
    using m by (metis set_mset_add_mset_insert set_mset_mset)
  ultimately show ?thesis using inv c by (auto simp: rids_inv_def intro: less_trans)
qed

lemma deliver_pending_lists:
  "map ps_request_id (opt_list (pending_scans (fst (deliver_pending rid a s))))
     = map ps_request_id (opt_list (pending_scans s))"
  "map ps_pid (opt_list (pending_scans (fst (deliver_pending rid a s))))
     = map ps_pid (opt_list (pending_scans s))"
proof -
  have "map ps_request_id (update_first (\<lambda>x. ps_request_id x = rid)
      (\<lambda>x. x\<lparr>ps_verdict := verdict_status a\<rparr>) l) = map ps_request_id l"
    and "map ps_pid (update_first (\<lambda>x. ps_request_id x = rid)
      (\<lambda>x. x\<lparr>ps_verdict := verdict_status a\<rparr>) l) = map ps_pid l" for l
    by (rule map_update_first_key, simp)+
  moreover have "pending_scans (set_event q s') = pending_scans s'" for q s'
    by (simp add: frame_simps)
  ultimately show "map ps_request_id (opt_list (pending_scans (fst (deliver_pending rid a s))))
     = map ps_request_id (opt_list (pending_scans s))"
    "map ps_pid (opt_list (pending_scans (fst (deliver_pending rid a s))))
     = map ps_pid (opt_list (pending_scans s))"
    by (auto simp: deliver_pending_def split: option.split)
qed

lemma process_notify_targets:
  "opt_list (target_pids (process_notify_routine pid info s)) = opt_list (target_pids s)
     \<and> request_id_counter (process_notify_routine pid info s) \<in> {request_id_counter s, request_id_counter s + 1}
   \<or> opt_list (target_pids (process_notify_routine pid info s))
       = opt_list (target_pids s) @ [\<lparr>tp_pid = pid, tp_request_id = request_id_counter s\<rparr>]
     \<and> request_id_counter (process_notify_routine pid info s) = request_id_counter s + 1"
  by (auto simp: process_notify_routine_def push_target_def Let_def frame_simps split: option.split)

lemma rids_inv_create:
  assumes inv: "rids_inv y" and top: "request_id_counter (as_sensor y) \<noteq> - 1"
  shows "rids_inv (y\<lparr>as_sensor := process_notify_routine pid info (as_sensor y)\<rparr>)"
proof -
  let ?s = "as_sensor y" and ?z = "y\<lparr>as_sensor := process_notify_routine pid info (as_sensor y)\<rparr>"
  let ?n = "request_id_counter ?s"
  from top have n: "?n < ?n + 1" by (rule word_less_Suc)
  show ?thesis
    using process_notify_targets [of pid info ?s]
  proof
    assume same: "opt_list (target_pids (process_notify_routine pid info ?s)) = opt_list (target_pids ?s)
     \<and> request_id_counter (process_notify_routine pid info ?s) \<in> {?n, ?n + 1}"
    show ?thesis
      by (rule rids_inv_same [OF inv]) (use same n in \<open>auto simp: rid_list_def frame_simps\<close>)
  next
    assume new: "opt_list (target_pids (process_notify_routine pid info ?s))
       = opt_list (target_pids ?s) @ [\<lparr>tp_pid = pid, tp_request_id = ?n\<rparr>]
     \<and> request_id_counter (process_notify_routine pid info ?s) = ?n + 1"
    show ?thesis
      by (rule rids_inv_new [OF inv]) (use new n in \<open>simp_all add: rid_list_def frame_simps\<close>)
  qed
qed

lemma freeze_invD:
  assumes "freeze_inv y"
  shows "scans_inv (as_sensor y)" and "rids_inv y" and "taken_inv y"
  using assms by (simp_all add: freeze_inv_def)

lemma freeze_inv_finish:
  assumes inv: "freeze_inv y" and c: "apc_ctxs (as_sensor y) p = Some c"
    and s': "pending_scans s' = pending_scans (fst (remove_pending (fc_pid c) (as_sensor y)))"
      "apc_ctxs s' = (apc_ctxs (as_sensor y))(p := None)" "\<not> freed_memory_access s'"
      "target_pids s' = target_pids (as_sensor y)"
      "request_id_counter s' = request_id_counter (as_sensor y)"
  shows "freeze_inv (y\<lparr>as_sensor := s', as_phase := (as_phase y)(p := None)\<rparr>)"
proof -
  let ?l = "opt_list (pending_scans (as_sensor y))"
  have scans: "scans_inv s'" by (rule scans_inv_finish [OF freeze_invD(1) [OF inv] c s'(1-3)])
  have l: "opt_list (pending_scans s') = remove_first (\<lambda>e. ps_pid e = fc_pid c) ?l"
    using pendings.take_out_entries [of "fc_pid c" "as_sensor y"] by (simp add: s'(1))
  have "mset (remove_first P xs) \<subseteq># mset xs" for P and xs :: "pending_scan list"
    by (induction xs) (auto intro: subset_mset.order_trans)
  then have "image_mset ps_request_id (mset (opt_list (pending_scans s'))) \<subseteq># image_mset ps_request_id (mset ?l)"
    by (simp add: l image_mset_subseteq_mono)
  then have "rids_inv (y\<lparr>as_sensor := s', as_phase := (as_phase y)(p := None)\<rparr>)"
    by (intro rids_inv_moved [OF freeze_invD(2) [OF inv]]) (simp_all add: rid_list_def s'(4,5))
  moreover have "taken_inv (y\<lparr>as_sensor := s', as_phase := (as_phase y)(p := None)\<rparr>)"
    using freeze_invD(3) [OF inv] in_remove_first [of _ "\<lambda>e. ps_pid e = fc_pid c" ?l]
    by (simp add: taken_inv_def l)
  ultimately show ?thesis using scans by (simp add: freeze_inv_def)
qed

lemma freeze_inv_same:
  assumes inv: "freeze_inv y" and z: "scans_inv (as_sensor z)"
    "target_pids (as_sensor z) = target_pids (as_sensor y)"
    "request_id_counter (as_sensor z) = request_id_counter (as_sensor y)" "as_taken z = as_taken y"
    "map ps_request_id (opt_list (pending_scans (as_sensor z)))
      = map ps_request_id (opt_list (pending_scans (as_sensor y)))"
    "map ps_pid (opt_list (pending_scans (as_sensor z)))
      = map ps_pid (opt_list (pending_scans (as_sensor y)))"
    and ph: "\<And>p pid. as_phase z p \<noteq> Some (Insert_Failed pid)"
  shows "freeze_inv z"
proof -
  have "rids_inv z"
    by (rule rids_inv_same [OF freeze_invD(2) [OF inv]]) (simp_all add: rid_list_def z)
  moreover have pids: "ps_pid ` set (opt_list (pending_scans (as_sensor z)))
      = ps_pid ` set (opt_list (pending_scans (as_sensor y)))"
    using z(6) by (metis list.set_map)
  have "ps_pid e \<notin> fst ` set (as_taken y)" if "e \<in> set (opt_list (pending_scans (as_sensor z)))" for e
  proof -
    have "ps_pid e \<in> ps_pid ` set (opt_list (pending_scans (as_sensor y)))"
      using that pids by blast
    then show ?thesis using freeze_invD(3) [OF inv] unfolding taken_inv_def by force
  qed
  then have "taken_inv z"
    using freeze_invD(3) [OF inv] z(4) ph by (simp add: taken_inv_def)
  ultimately show ?thesis using z(1) by (simp add: freeze_inv_def)
qed

lemma freeze_inv_take:
  assumes inv: "freeze_inv y" and idle: "\<not> pid_busy pid y"
    and take: "take_target pid (as_sensor y) = (s', Some item)"
  shows "freeze_inv (y\<lparr>as_sensor := s', as_taken := (pid, tp_request_id item) # as_taken y\<rparr>)"
    (is "freeze_inv ?z")
proof -
  let ?s = "as_sensor y"
  have s': "s' = fst (take_target pid ?s)" using take by simp
  have item: "find (\<lambda>x. tp_pid x = pid) (opt_list (target_pids ?s)) = Some item"
    using targets.take_out_result [of pid ?s] take by simp
  have scans: "scans_inv ?s" using inv by (simp add: freeze_inv_def)
  then have scans': "scans_inv s'"
    by (rule scans_inv_same) (use scans in \<open>simp_all add: s' scans_inv_def scan_keys_def ctx_keys_def frame_simps fun_eq_iff\<close>)
  have "mset (rid_list ?z) = mset (rid_list y)"
    using mset_remove_first [OF item] targets.take_out_entries [of pid ?s]
    by (simp add: rid_list_def s' frame_simps)
  then have rids: "rids_inv ?z"
    by (intro rids_inv_moved [OF freeze_invD(2) [OF inv]]) (simp_all add: s' frame_simps)
  have "pid \<notin> ps_pid ` set (opt_list (pending_scans ?s))"
  proof
    assume "pid \<in> ps_pid ` set (opt_list (pending_scans ?s))"
    then obtain e where e: "e \<in> set (opt_list (pending_scans ?s))" "ps_pid e = pid" by auto
    then have "ctx_keys ?s (ps_event_ptr e) = Some (pid, ps_request_id e)"
      by (simp add: scans_inv_keysD [OF scans, symmetric] scan_keys_def scan_key_def) force
    then show False using idle by (auto simp: pid_busy_def ctx_keys_def ran_def)
  qed
  then have "ps_pid e \<noteq> pid" if "e \<in> set (opt_list (pending_scans ?s))" for e using that by blast
  moreover have "pid \<notin> fst ` set (as_taken y)" using idle by (simp add: pid_busy_def)
  ultimately have "taken_inv ?z"
    using freeze_invD(3) [OF inv] by (simp add: taken_inv_def s' frame_simps)
  with scans' rids show ?thesis by (simp add: freeze_inv_def)
qed

lemma freeze_inv_inject:
  assumes inv: "freeze_inv y" and t: "(pid, rid) \<in> set (as_taken y)"
    and p: "apc_ctxs (as_sensor y) p = None"
  shows "freeze_inv (y\<lparr>as_sensor := inject_begin p pid rid (as_sensor y),
       as_taken := remove1 (pid, rid) (as_taken y), as_phase := (as_phase y)(p \<mapsto> Injecting)\<rparr>)"
    (is "freeze_inv ?z")
proof -
  let ?s = "as_sensor y"
  obtain l where l: "pending_scans ?s = Some l" using freeze_invD(1) [OF inv] by (auto simp: scans_inv_def)
  have taken: "pid \<in> fst ` set (as_taken y)" using t by force
  have fresh: "pid \<notin> ps_pid ` set (opt_list (pending_scans ?s))"
    using freeze_invD(3) [OF inv] taken unfolding taken_inv_def by blast
  have scans: "scans_inv (inject_begin p pid rid ?s)"
    by (rule scans_inv_begin [OF freeze_invD(1) [OF inv] p fresh])
  have "mset (map snd (as_taken y)) = add_mset rid (mset (map snd (remove1 (pid, rid) (as_taken y))))"
    using arg_cong [OF mset_remove1_split [OF t], of "image_mset snd"] by simp
  then have "mset (rid_list ?z) = mset (rid_list y)"
    by (simp add: rid_list_def frame_simps l)
  then have rids: "rids_inv ?z"
    by (intro rids_inv_moved [OF freeze_invD(2) [OF inv]]) (simp_all add: inject_begin_def Let_def l)
  have d: "distinct (map fst (as_taken y))" using freeze_invD(3) [OF inv] by (simp add: taken_inv_def)
  then have "distinct (map fst (remove1 (pid, rid) (as_taken y)))"
    by (rule distinct_mset_subset) (simp add: image_mset_subseteq_mono)
  moreover have "pid \<notin> fst ` set (remove1 (pid, rid) (as_taken y))"
  proof -
    have "mset (map fst (as_taken y)) = add_mset pid (mset (map fst (remove1 (pid, rid) (as_taken y))))"
      using arg_cong [OF mset_remove1_split [OF t], of "image_mset fst"] by simp
    then have "distinct (pid # map fst (remove1 (pid, rid) (as_taken y)))"
      using d by (metis mset.simps(2) mset_eq_imp_distinct_iff)
    then show ?thesis by simp
  qed
  moreover have "q \<notin> fst ` set (remove1 (pid, rid) (as_taken y))" if "q \<notin> fst ` set (as_taken y)" for q
    using that set_remove1_subset [of "(pid, rid)" "as_taken y"] by blast
  ultimately have "taken_inv ?z"
    using freeze_invD(3) [OF inv] by (simp add: taken_inv_def frame_simps l ball_Un)
  with scans rids show ?thesis by (simp add: freeze_inv_def)
qed


lemma freeze_phases: "freeze_inv y \<Longrightarrow> as_phase y p \<noteq> Some (Insert_Failed pid)"
  by (simp add: freeze_inv_def taken_inv_def)

lemma no_access_frame: "scans_inv s \<Longrightarrow> \<not> freed_memory_access s"
  by (simp add: scans_inv_def)

lemma remove_pending_counters [frame_simps]:
  "target_pids (apc_early_exit p pid v s) = target_pids s"
  "request_id_counter (apc_early_exit p pid v s) = request_id_counter s"
  "target_pids (apc_after_wait p pid st s) = target_pids s"
  "request_id_counter (apc_after_wait p pid st s) = request_id_counter s"
  using remove_pending_frame [of pid s]
  by (simp_all add: apc_early_exit_def apc_after_wait_def apc_finish_def apc_done_def free_ctx_def
      Let_def case_prod_beta)

lemma freeze_inv_create:
  assumes inv: "freeze_inv y" and count: "request_id_counter (as_sensor y) \<noteq> - 1"
  shows "freeze_inv (y\<lparr>as_sensor := process_notify_routine pid info (as_sensor y)\<rparr>)"
proof -
  have "scans_inv (process_notify_routine pid info (as_sensor y))"
    by (rule scans_inv_frame [OF freeze_invD(1) [OF inv]]) (simp_all add: frame_simps)
  then show ?thesis
    using rids_inv_create [OF freeze_invD(2) [OF inv] count] freeze_invD(3) [OF inv]
    by (simp add: freeze_inv_def taken_inv_def frame_simps)
qed

lemma freeze_inv_lookup_failed:
  assumes inv: "freeze_inv y"
  shows "freeze_inv (y\<lparr>as_taken := remove1 (pid, rid) (as_taken y)\<rparr>)"
proof -
  let ?z = "y\<lparr>as_taken := remove1 (pid, rid) (as_taken y)\<rparr>"
  have "mset (rid_list ?z) \<subseteq># mset (rid_list y)" by (simp add: rid_list_def image_mset_subseteq_mono)
  then have "rids_inv ?z" by (intro rids_inv_moved [OF freeze_invD(2) [OF inv]]) simp_all
  moreover have "distinct (map fst (remove1 (pid, rid) (as_taken y)))"
    by (rule distinct_mset_subset [of "map fst (as_taken y)"])
      (use freeze_invD(3) [OF inv] in \<open>simp_all add: taken_inv_def image_mset_subseteq_mono\<close>)
  moreover have "q \<notin> fst ` set (remove1 (pid, rid) (as_taken y))" if "q \<notin> fst ` set (as_taken y)" for q
    using that set_remove1_subset [of "(pid, rid)" "as_taken y"] by blast
  ultimately show ?thesis using freeze_invD(1,3) [OF inv] by (simp add: freeze_inv_def taken_inv_def)
qed

lemma freeze_inv_early_check:
  assumes inv: "freeze_inv y" and ph: "\<And>pid. ph \<noteq> Insert_Failed pid"
  shows "freeze_inv (y\<lparr>as_sensor := fst (check_early_verdict k (as_sensor y)), as_phase := (as_phase y)(p \<mapsto> ph)\<rparr>)"
proof -
  have "scans_inv (fst (check_early_verdict k (as_sensor y)))"
    by (rule scans_inv_frame [OF freeze_invD(1) [OF inv]]) (simp_all add: frame_simps)
  then show ?thesis
    by (intro freeze_inv_same [OF inv]) (use ph freeze_phases [OF inv] in \<open>simp_all add: frame_simps\<close>)
qed

lemma freeze_inv_cache:
  assumes inv: "freeze_inv y"
  shows "freeze_inv (y\<lparr>as_sensor := cache_verdict now rid allow (as_sensor y), as_inflight := fs\<rparr>)"
proof -
  have "scans_inv (cache_verdict now rid allow (as_sensor y))"
    by (rule scans_inv_frame [OF freeze_invD(1) [OF inv]]) (simp_all add: frame_simps)
  then show ?thesis
    by (intro freeze_inv_same [OF inv]) (use freeze_phases [OF inv] in \<open>simp_all add: frame_simps\<close>)
qed

lemma freeze_inv_step:
  assumes inv: "freeze_inv y" and step: "apc_step False y z"
  shows "freeze_inv z"
  using step
proof cases
  case (step_create pid info)
  then show ?thesis using freeze_inv_create [OF inv] by simp
next
  case (step_take pid s' item)
  then show ?thesis using freeze_inv_take [OF inv] by simp
next
  case (step_lookup_failed pid rid)
  then show ?thesis using freeze_inv_lookup_failed [OF inv] by simp
next
  case (step_inject pid rid p)
  then show ?thesis using freeze_inv_inject [OF inv] by simp
next
  case (step_insert p)
  show ?thesis
    by (rule freeze_inv_same [OF inv])
      (use freeze_invD(1) [OF inv] freeze_phases [OF inv] in \<open>simp_all add: step_insert(1)\<close>)
next
  case (step_insert_cleanup p pid)
  then show ?thesis using freeze_phases [OF inv] by simp
next
  case (step_early_check p c s' v)
  have s': "s' = fst (check_early_verdict (fc_pid c) (as_sensor y))" using step_early_check by simp
  show ?thesis
    unfolding step_early_check(1) s' by (rule freeze_inv_early_check [OF inv]) (simp split: option.split)
next
  case (step_early_exit p v c)
  show ?thesis
    unfolding step_early_exit(1)
    by (rule freeze_inv_finish [OF inv step_early_exit(3)])
      (simp_all add: frame_simps no_access_frame [OF freeze_invD(1) [OF inv]])
next
  case (step_wake p c status)
  show ?thesis
    unfolding step_wake(1)
    by (rule freeze_inv_finish [OF inv step_wake(3)])
      (simp_all add: frame_simps no_access_frame [OF freeze_invD(1) [OF inv]])
next
  case (step_verdict rid allow s' found)
  have s': "s' = fst (deliver_pending rid allow (as_sensor y))" using step_verdict(2) by simp
  show ?thesis
    by (rule freeze_inv_same [OF inv])
      (use scans_inv_deliver [OF freeze_invD(1) [OF inv]] freeze_phases [OF inv]
        in \<open>simp_all add: step_verdict(1) s' frame_simps deliver_pending_lists\<close>)
next
  case (step_cache rid allow now)
  then show ?thesis using freeze_inv_cache [OF inv] by simp
qed simp_all

lemma freeze_inv_init: "apc_init y \<Longrightarrow> freeze_inv y"
  by (auto simp: apc_init_def freeze_inv_def scans_inv_def rids_inv_def taken_inv_def rid_list_def
      scan_keys_def ctx_keys_def)

interpretation freezing: invariant_system apc_init "apc_step False" freeze_inv
  by unfold_locales (auto intro: freeze_inv_init freeze_inv_step)


subsection \<open>A run\<close>

text \<open>
  For the witnesses: process 42 is started from a user directory, its first thread takes the
  target, the APC is put at address 9, queued, and finds no early verdict.
\<close>

definition sample_image :: unicode_string where
  "sample_image = \<lparr>us_length = 8, us_buffer = Some (wide ''D:ab'')\<rparr>"

definition apc_sys0 :: apc_sys where
  "apc_sys0 = \<lparr>as_sensor = loaded sample_irps 5, as_taken = [], as_phase = Map.empty, as_inflight = []\<rparr>"
definition apc_sys1 :: apc_sys where
  "apc_sys1 = apc_sys0\<lparr>as_sensor :=
     process_notify_routine 42 (Some \<lparr>ci_image_file_name = Some sample_image\<rparr>) (as_sensor apc_sys0)\<rparr>"
definition apc_sys2 :: apc_sys where
  "apc_sys2 = apc_sys1\<lparr>as_sensor := fst (take_target 42 (as_sensor apc_sys1)), as_taken := [(42, 1)]\<rparr>"
definition apc_sys3 :: apc_sys where
  "apc_sys3 = apc_sys2\<lparr>as_sensor := inject_begin 9 42 1 (as_sensor apc_sys2), as_taken := [],
     as_phase := [9 \<mapsto> Injecting]\<rparr>"
definition apc_sys4 :: apc_sys where
  "apc_sys4 = apc_sys3\<lparr>as_phase := [9 \<mapsto> Queued]\<rparr>"
definition apc_sys5 :: apc_sys where
  "apc_sys5 = apc_sys4\<lparr>as_phase := [9 \<mapsto> Waiting]\<rparr>"

lemmas apc_sys_defs = apc_sys0_def apc_sys1_def apc_sys2_def apc_sys3_def apc_sys4_def apc_sys5_def

lemma sample_image_slice: "us_slice sample_image = wide ''D:ab''"
  by (simp add: sample_image_def us_slice_def)

lemma sample_image_scanned: "\<not> is_allowlisted_static (Some sample_image)"
  by (simp add: is_allowlisted_static_def sample_image_slice starts_with_ignore_case_def sys32_c_def
      syswow_c_def sys32_root_def syswow_root_def bs_def)

lemma apc_sys1_fields:
  "target_pids (as_sensor apc_sys1) = Some [\<lparr>tp_pid = 42, tp_request_id = 1\<rparr>]"
  "pending_scans (as_sensor apc_sys1) = Some []" "apc_ctxs (as_sensor apc_sys1) = Map.empty"
  "as_taken apc_sys1 = []" "as_phase apc_sys1 = Map.empty" "verdict_cache (as_sensor apc_sys1) = Some []"
  "terminated (as_sensor apc_sys1) = []"
proof -
  show "target_pids (as_sensor apc_sys1) = Some [\<lparr>tp_pid = 42, tp_request_id = 1\<rparr>]"
    using sample_image_scanned
    by (simp add: apc_sys1_def apc_sys0_def process_notify_routine_def Let_def frame_simps push_target_def)
qed (simp_all add: apc_sys1_def apc_sys0_def frame_simps)

lemma apc_sys2_fields:
  "take_target 42 (as_sensor apc_sys1) = (as_sensor apc_sys2, Some \<lparr>tp_pid = 42, tp_request_id = 1\<rparr>)"
  "pending_scans (as_sensor apc_sys2) = Some []" "apc_ctxs (as_sensor apc_sys2) = Map.empty"
  "as_taken apc_sys2 = [(42, 1)]" "as_phase apc_sys2 = Map.empty"
  "verdict_cache (as_sensor apc_sys2) = Some []" "terminated (as_sensor apc_sys2) = []"
  by (simp_all add: apc_sys2_def apc_sys1_fields take_target_def)

lemma apc_sys3_fields:
  "pending_scans (as_sensor apc_sys3) = Some [\<lparr>ps_request_id = 1, ps_pid = 42, ps_event_ptr = 9,
     ps_verdict = STATUS_ACCESS_DENIED\<rparr>]"
  "apc_ctxs (as_sensor apc_sys3) = [9 \<mapsto> \<lparr>fc_signalled = False, fc_pid = 42, fc_request_id = 1\<rparr>]"
  "verdict_cache (as_sensor apc_sys3) = Some []" "terminated (as_sensor apc_sys3) = []"
  by (simp_all add: apc_sys3_def frame_simps apc_sys2_fields)

lemma apc_sys5_sensor: "as_sensor apc_sys5 = as_sensor apc_sys3" "as_phase apc_sys5 = [9 \<mapsto> Waiting]"
  by (simp_all add: apc_sys4_def apc_sys5_def)

lemma apc_sys_step1: "apc_step d apc_sys0 apc_sys1"
  unfolding apc_sys1_def by (rule step_create) (simp add: apc_sys0_def)

lemma apc_sys_step2: "apc_step d apc_sys1 apc_sys2"
proof -
  have "\<not> pid_busy 42 apc_sys1" by (simp add: pid_busy_def apc_sys1_fields)
  from step_take [OF this apc_sys2_fields(1), of d] show ?thesis
    by (simp add: apc_sys2_def apc_sys1_fields(4))
qed

lemma apc_sys_step3: "apc_step d apc_sys2 apc_sys3"
proof -
  have "(42, 1) \<in> set (as_taken apc_sys2)" by (simp add: apc_sys2_fields)
  from step_inject [OF this, of 9 d] show ?thesis
    by (simp add: apc_sys2_fields apc_sys3_def)
qed

lemma apc_sys_step4: "apc_step d apc_sys3 apc_sys4"
proof -
  have "as_phase apc_sys3 9 = Some Injecting" by (simp add: apc_sys3_def)
  from step_insert [OF this, of d] show ?thesis by (simp add: apc_sys4_def) (simp add: apc_sys3_def)
qed

lemma apc_sys_step5: "apc_step d apc_sys4 apc_sys5"
proof -
  let ?c = "\<lparr>fc_signalled = False, fc_pid = 42, fc_request_id = 1\<rparr>"
  have s: "as_sensor apc_sys4 = as_sensor apc_sys3" by (simp add: apc_sys4_def)
  have q: "as_phase apc_sys4 9 = Some Queued" by (simp add: apc_sys4_def)
  have c: "apc_ctxs (as_sensor apc_sys4) 9 = Some ?c" by (simp add: s apc_sys3_fields)
  have "check_early_verdict (fc_pid ?c) (as_sensor apc_sys4) = (as_sensor apc_sys4, None)"
    by (simp add: s check_early_verdict_def take_verdict_def apc_sys3_fields)
  from step_early_check [OF q c this, of d] show ?thesis
    by (simp add: apc_sys5_def) (simp add: apc_sys4_def)
qed

lemma apc_sys5_reach: "reach apc_init (apc_step d) apc_sys5"
proof -
  have "reach apc_init (apc_step d) apc_sys0"
    by (rule reach_init) (auto simp: apc_init_def apc_sys0_def)
  then show ?thesis
    by (rule reach_step [OF reach_step [OF reach_step [OF reach_step [OF reach_step]]]])
      (rule apc_sys_step1 apc_sys_step2 apc_sys_step3 apc_sys_step4 apc_sys_step5)+
qed

subsection \<open>Properties\<close>

text \<open>
  C0. \<open>APC_COUNT\<close> is exact: in every reachable state, with threads dying at any time, it is the
  number of APCs under way, so the unload routine, which waits for zero, leaves its loop only when
  no freeze context is alive (fewer than \<open>2 ^ 64\<close> APCs being under way at once).
\<close>

theorem apc_count_exact:
  assumes "reach apc_init (apc_step d) y"
  shows "apc_count (as_sensor y) = of_nat (card (dom (as_phase y)))
    \<and> (card (dom (as_phase y)) < 2 ^ 64 \<longrightarrow> apc_count (as_sensor y) = 0 \<longrightarrow>
         as_phase y = Map.empty \<and> apc_ctxs (as_sensor y) = Map.empty)"
proof -
  have inv: "count_inv y" by (rule apc_counting.reach_inv [OF assms])
  show ?thesis
  proof (intro conjI impI)
    show "apc_count (as_sensor y) = of_nat (card (dom (as_phase y)))"
      using inv by (simp add: count_inv_def)
    assume "card (dom (as_phase y)) < 2 ^ 64" and "apc_count (as_sensor y) = 0"
    then have "card (dom (as_phase y)) = 0"
      using inv unat_of_nat_u64 [of "card (dom (as_phase y))"] by (simp add: count_inv_def)
    then show "as_phase y = Map.empty" using inv by (simp add: count_inv_def)
    then have "dom (apc_ctxs (as_sensor y)) = {}" using inv by (simp add: count_inv_def)
    then show "apc_ctxs (as_sensor y) = Map.empty" by simp
  qed
qed

theorem apc_count_exact_witness: "apc_count (as_sensor apc_sys5) = 1"
  using apc_count_exact [OF apc_sys5_reach [of True]] by (simp add: apc_sys5_sensor)

text \<open>
  C10. As long as no thread dies before its APC, the sensor never touches a freed freeze context:
  every entry of the pending-scan list points to a live context of the same process and request,
  whatever verdicts arrive at whatever time.
\<close>

theorem freeze_memory_safe:
  assumes "reach apc_init (apc_step False) y"
  shows "\<not> freed_memory_access (as_sensor y)
    \<and> (\<forall>e \<in> set (opt_list (pending_scans (as_sensor y))).
         \<exists>c. apc_ctxs (as_sensor y) (ps_event_ptr e) = Some c
           \<and> fc_pid c = ps_pid e \<and> fc_request_id c = ps_request_id e)"
proof -
  have inv: "scans_inv (as_sensor y)" by (rule freeze_invD(1) [OF freezing.reach_inv [OF assms]])
  have "\<exists>c. apc_ctxs (as_sensor y) (ps_event_ptr e) = Some c
           \<and> fc_pid c = ps_pid e \<and> fc_request_id c = ps_request_id e"
    if "e \<in> set (opt_list (pending_scans (as_sensor y)))" for e
  proof -
    have "(ps_event_ptr e, ps_pid e, ps_request_id e) \<in> set (scan_keys (as_sensor y))"
      using that by (auto simp: scan_keys_def scan_key_def)
    then show ?thesis by (auto simp: scans_inv_keysD [OF inv] ctx_keys_def)
  qed
  with no_access_frame [OF inv] show ?thesis by blast
qed

theorem freeze_memory_safe_witness:
  "\<not> freed_memory_access (as_sensor apc_sys5)"
  using freeze_memory_safe [OF apc_sys5_reach] by blast

lemma verdict_outcome:
  assumes inv: "freeze_inv y" and "apc_ctxs (as_sensor y) p = Some c"
    and "deliver_pending (fc_request_id c) allow (as_sensor y) = (s', found)"
  shows "found \<and> (\<exists>c'. apc_ctxs s' p = Some c' \<and> fc_signalled c')
    \<and> terminated (apc_after_wait p (fc_pid c) STATUS_SUCCESS s')
        = terminated (as_sensor y) @ (if allow then [] else [fc_pid c])
    \<and> terminated (apc_after_wait p (fc_pid c) STATUS_TIMEOUT s') = terminated (as_sensor y)
    \<and> apc_ctxs (apc_after_wait p (fc_pid c) STATUS_SUCCESS s') p = None
    \<and> fc_pid c \<notin> ps_pid ` set (opt_list (pending_scans (apc_after_wait p (fc_pid c) STATUS_SUCCESS s')))"
proof -
  let ?s = "as_sensor y" and ?l = "opt_list (pending_scans (as_sensor y))"
  let ?f = "\<lambda>x. x\<lparr>ps_verdict := verdict_status allow\<rparr>"
  note scans = freeze_invD(1) [OF inv]
  obtain e where e: "e \<in> set ?l" "scan_key e = (p, fc_pid c, fc_request_id c)"
    by (rule scans_inv_own [OF scans assms(2)])
  have key: "ps_event_ptr e = p" "ps_pid e = fc_pid c" "ps_request_id e = fc_request_id c"
    using e(2) by (simp_all add: scan_key_def)
  have "distinct (map ps_request_id ?l)"
    using freeze_invD(2) [OF inv] by (simp add: rids_inv_def rid_list_def)
  from find_eq_Some_key [OF this e(1)] have find: "find (\<lambda>x. ps_request_id x = fc_request_id c) ?l = Some e"
    by (simp add: key)
  let ?l' = "update_first (\<lambda>x. ps_request_id x = fc_request_id c) ?f ?l"
  obtain c1 where c1: "apc_ctxs ?s (ps_event_ptr e) = Some c1" and d: "deliver_pending (fc_request_id c) allow ?s =
      (?s\<lparr>pending_scans := Some ?l', apc_ctxs := (apc_ctxs ?s)(p \<mapsto> c1\<lparr>fc_signalled := True\<rparr>)\<rparr>, True)"
    using deliver_pending_live [OF scans find, where a = allow] key(1) by metis
  then have s': "s' = ?s\<lparr>pending_scans := Some ?l', apc_ctxs := (apc_ctxs ?s)(p \<mapsto> c1\<lparr>fc_signalled := True\<rparr>)\<rparr>"
    and found using assms(3) by auto
  have pids: "distinct (map ps_pid (opt_list (pending_scans s')))"
    using scans_inv_pids [OF scans] by (simp add: s' map_update_first_key)
  have "?f e \<in> set ?l'"
    using e(1) key(3) \<open>distinct (map ps_request_id ?l)\<close> by (force simp: set_update_first_key)
  with pendings.take_out_known [OF pids, of "?f e"] have "snd (remove_pending (fc_pid c) s') = Some (?f e)"
    by (simp add: s' key)
  moreover have "fc_pid c \<notin> ps_pid ` set (opt_list (pending_scans (fst (remove_pending (fc_pid c) s'))))"
    using pendings.take_out_set [OF pids] by auto
  ultimately show ?thesis
    using \<open>found\<close> by (simp add: frame_simps) (simp add: s' verdict_status_def)
qed




text \<open>
  A thread that dies before its APC runs leaves its pending scan behind: the rundown routine
  frees the context and not the entry, and the verdict for the request, when it comes, signals an
  event in freed memory.
\<close>

theorem rundown_then_use_after_free:
  assumes "find (\<lambda>e. ps_request_id e = rid) (opt_list (pending_scans s)) = Some e"
    and "ps_event_ptr e = p"
  shows "freed_memory_access (fst (apply_verdict pid rid allow now (apc_rundown_routine p s)))"
  using assms
  by (cases "pending_scans s")
    (simp_all add: apply_verdict_def deliver_pending_def apc_rundown_routine_def frame_simps set_event_def)

theorem rundown_then_use_after_free_witness:
  "freed_memory_access (fst (apply_verdict 42 1 True 0 (apc_rundown_routine 9 (as_sensor apc_sys5))))"
  by (rule rundown_then_use_after_free [where e = "\<lparr>ps_request_id = 1, ps_pid = 42, ps_event_ptr = 9,
        ps_verdict = STATUS_ACCESS_DENIED\<rparr>"]) (simp_all add: apc_sys5_sensor apc_sys3_fields)

text \<open>
  A verdict that arrives before the thread is frozen is lost: it is cached under its request
  id, the APC looks for it under the process id, so the process is frozen all the same; when the
  wait times out it resumes, a block verdict notwithstanding, and the verdict is still cached.
\<close>

theorem early_verdict_lost:
  assumes "apc_ctxs s p = Some c" and "cache_inv s"
    and "v \<in> set (opt_list (verdict_cache s))" and "cv_request_id v = fc_request_id c"
    and "fc_pid c \<notin> cv_request_id ` set (opt_list (verdict_cache s))"
  shows "terminated (apc_normal_routine (\<lambda>p s. (s, STATUS_TIMEOUT)) p s) = terminated s
    \<and> v \<in> set (opt_list (verdict_cache (apc_normal_routine (\<lambda>p s. (s, STATUS_TIMEOUT)) p s)))"
proof -
  have "check_early_verdict (fc_pid c) s = (s, None)" by (rule check_early_verdict_absent [OF assms(5)])
  with assms(1,3) show ?thesis
    by (simp add: apc_normal_routine_def frame_simps)
      (simp add: apc_after_wait_def Let_def case_prod_beta frame_simps)
qed

text \<open>The sample run with the verdict of request 1, to block, sent before the APC.\<close>

definition early_sensor :: sensor where
  "early_sensor = inject_begin 9 42 1 (fst (apply_verdict 42 1 False 0 (as_sensor apc_sys2)))"

lemma early_sensor_fields:
  "verdict_cache early_sensor = Some [\<lparr>cv_request_id = 1, cv_allowed = False, cv_timestamp = 0\<rparr>]"
  "apc_ctxs early_sensor 9 = Some \<lparr>fc_signalled = False, fc_pid = 42, fc_request_id = 1\<rparr>"
  "terminated early_sensor = []"
proof -
  have "deliver_pending 1 False (as_sensor apc_sys2) = (as_sensor apc_sys2, False)"
    by (simp add: deliver_pending_def apc_sys2_fields)
  then have s: "fst (apply_verdict 42 1 False 0 (as_sensor apc_sys2)) = cache_verdict 0 1 False (as_sensor apc_sys2)"
    by (simp add: apply_verdict_def)
  show "verdict_cache early_sensor = Some [\<lparr>cv_request_id = 1, cv_allowed = False, cv_timestamp = 0\<rparr>]"
    by (simp add: early_sensor_def s frame_simps cache_verdict_def apc_sys2_fields retain_fresh_def
        evict_oldest_eq MAX_VERDICT_CACHE_SIZE_def Let_def)
  show "apc_ctxs early_sensor 9 = Some \<lparr>fc_signalled = False, fc_pid = 42, fc_request_id = 1\<rparr>"
    "terminated early_sensor = []"
    by (simp_all add: early_sensor_def s frame_simps apc_sys2_fields)
qed

theorem early_verdict_lost_witness:
  "terminated (apc_normal_routine (\<lambda>p s. (s, STATUS_TIMEOUT)) 9 early_sensor) = []"
  using early_verdict_lost [OF early_sensor_fields(2), of "\<lparr>cv_request_id = 1, cv_allowed = False, cv_timestamp = 0\<rparr>"]
  by (simp add: early_sensor_fields cache_inv_def MAX_VERDICT_CACHE_SIZE_def)

text \<open>
  C0. The stale entry of a thread that died also spoils the next process with the same process id:
  the verdict for the new request goes to the new entry, the waking thread reads the first entry
  of its process id, which is the stale one, and the allowed process is terminated.
\<close>

theorem stale_scan_blocks_allowed:
  assumes "pending_scans s = Some (stale # rest)" and "ps_pid stale = pid"
    and "ps_request_id stale \<noteq> rid" and "ps_verdict stale = STATUS_ACCESS_DENIED"
    and "deliver_pending rid True s = (s', True)"
  shows "terminated (apc_after_wait p pid STATUS_SUCCESS s') = terminated s @ [pid]"
proof -
  have "pending_scans s' = Some (stale # update_first (\<lambda>x. ps_request_id x = rid)
      (\<lambda>x. x\<lparr>ps_verdict := verdict_status True\<rparr>) rest)" and "terminated s' = terminated s"
    using assms by (auto simp: deliver_pending_def frame_simps split: option.splits)
  with assms(2,4) show ?thesis by (simp add: frame_simps remove_pending_def)
qed

definition stale_sensor :: sensor where
  "stale_sensor = inject_begin 10 42 2 (apc_rundown_routine 9 (as_sensor apc_sys5))"

theorem stale_scan_blocks_allowed_witness:
  "terminated (apc_after_wait 10 42 STATUS_SUCCESS (fst (deliver_pending 2 True stale_sensor))) = [42]"
proof -
  have l: "pending_scans stale_sensor = Some [\<lparr>ps_request_id = 1, ps_pid = 42, ps_event_ptr = 9,
     ps_verdict = STATUS_ACCESS_DENIED\<rparr>, \<lparr>ps_request_id = 2, ps_pid = 42, ps_event_ptr = 10,
     ps_verdict = STATUS_ACCESS_DENIED\<rparr>]"
    and t: "terminated stale_sensor = []"
    by (simp_all add: stale_sensor_def frame_simps apc_rundown_routine_def apc_sys5_sensor apc_sys3_fields)
  have "deliver_pending 2 True stale_sensor = (fst (deliver_pending 2 True stale_sensor), True)"
    by (simp add: deliver_pending_def l)
  from stale_scan_blocks_allowed [OF l _ _ _ this, of 42 10] show ?thesis by (simp add: t)
qed


subsection \<open>Entry and unload\<close>

lemma set_event_ctx:
  "apc_ctxs s p = Some c \<Longrightarrow> \<exists>c'. apc_ctxs (set_event q s) p = Some c' \<and> fc_pid c' = fc_pid c
     \<and> (fc_signalled c \<or> p = q \<longrightarrow> fc_signalled c')"
  by (auto simp: set_event_def split: option.splits)

lemma fold_set_event_ctx:
  "apc_ctxs s p = Some c \<Longrightarrow> \<exists>c'. apc_ctxs (fold (\<lambda>i. set_event (ps_event_ptr i)) l s) p = Some c'
     \<and> fc_pid c' = fc_pid c \<and> (fc_signalled c \<or> p \<in> ps_event_ptr ` set l \<longrightarrow> fc_signalled c')"
proof (induction l arbitrary: s c)
  case Nil
  then show ?case by simp
next
  case (Cons i l)
  from set_event_ctx [OF Cons.prems, of "ps_event_ptr i"] obtain c1 where
    c1: "apc_ctxs (set_event (ps_event_ptr i) s) p = Some c1" "fc_pid c1 = fc_pid c"
      "fc_signalled c \<or> p = ps_event_ptr i \<longrightarrow> fc_signalled c1" by blast
  from Cons.IH [OF c1(1)] c1 show ?case by auto
qed

lemma fold_set_event_frame:
  "terminated (fold (\<lambda>i. set_event (ps_event_ptr i)) l s) = terminated s"
  by (induction l arbitrary: s) (simp_all add: frame_simps)

text \<open>
  Unloading the driver while processes are frozen wakes every one of them and terminates it:
  each live context is signalled, the pending scans are gone, so the waking thread finds no
  verdict, and no verdict counts as a block.
\<close>

theorem unload_terminates_frozen:
  assumes "reach apc_init (apc_step False) y" and "apc_ctxs (as_sensor y) p = Some c"
  shows "\<exists>c'. apc_ctxs (unload_wake (as_sensor y)) p = Some c' \<and> fc_signalled c' \<and> fc_pid c' = fc_pid c
    \<and> terminated (apc_after_wait p (fc_pid c) STATUS_SUCCESS (unload_wake (as_sensor y)))
        = terminated (as_sensor y) @ [fc_pid c]"
proof -
  let ?s = "as_sensor y"
  have inv: "scans_inv ?s" by (rule freeze_invD(1) [OF freezing.reach_inv [OF assms(1)]])
  obtain l where l: "pending_scans ?s = Some l" using inv by (auto simp: scans_inv_def)
  obtain e where "e \<in> set l" "scan_key e = (p, fc_pid c, fc_request_id c)"
    using scans_inv_own [OF inv assms(2)] l by auto
  then have "p \<in> ps_event_ptr ` set l" by (auto simp: scan_key_def)
  with fold_set_event_ctx [OF assms(2), of l] obtain c' where
    "apc_ctxs (unload_wake ?s) p = Some c' \<and> fc_signalled c' \<and> fc_pid c' = fc_pid c"
    by (auto simp: unload_wake_def l)
  moreover have "terminated (unload_wake ?s) = terminated ?s"
    "snd (remove_pending (fc_pid c) (unload_wake ?s)) = None"
    by (simp_all add: unload_wake_def l fold_set_event_frame remove_pending_def)
  ultimately show ?thesis by (simp add: frame_simps)
qed

theorem unload_terminates_frozen_witness:
  "terminated (apc_after_wait 9 42 STATUS_SUCCESS (unload_wake (as_sensor apc_sys5))) = [42]"
  using unload_terminates_frozen [OF apc_sys5_reach, of 9 "\<lparr>fc_signalled = False, fc_pid = 42, fc_request_id = 1\<rparr>"]
  by (auto simp: apc_sys5_sensor apc_sys3_fields)

text \<open>
  Unloading leaves the symbolic link behind: the routine deletes a name of 36 bytes and the
  link has 38, so the name it deletes is another one; a later load cannot make the link again.
\<close>

theorem unload_leaves_symlink:
  "\<exists>s'. driver_unload delay fuel (loaded is dev) = Some s' \<and> symlinks s' = [link_u16]
     \<and> \<not> device_exists s' \<and> \<not> process_callback s' \<and> \<not> thread_callback s'"
proof -
  have w: "unload_wait delay fuel (s\<lparr>pending_scans := Some []\<rparr>) = Some (s\<lparr>pending_scans := Some []\<rparr>)"
    if "apc_count s = 0" for s
    using that by (subst unload_wait.simps) simp
  have "us_slice unload_link_name \<noteq> link_u16"
    by (simp add: us_slice_def unload_link_name_def link_u16_def bs_def)
  then show ?thesis
    by (simp add: driver_unload_def unload_wake_def w unload_finish_def Let_def)
qed

text \<open>
  A failing entry point does not undo what it did: when the thread callback cannot be
  registered the routine returns the error with the process callback still registered, the device
  and the link in place; when the link cannot be made the device stays.
\<close>

theorem entry_failure_leaks:
  assumes "fst (er_create_device r) = STATUS_SUCCESS"
  shows "(er_symbolic_link r \<noteq> STATUS_SUCCESS \<longrightarrow>
           snd (driver_entry r s) = er_symbolic_link r \<and> device_exists (fst (driver_entry r s)))
    \<and> (er_symbolic_link r = STATUS_SUCCESS \<and> er_process_notify r = STATUS_SUCCESS
        \<and> er_thread_notify r \<noteq> STATUS_SUCCESS \<longrightarrow>
           snd (driver_entry r s) = er_thread_notify r \<and> process_callback (fst (driver_entry r s))
           \<and> device_exists (fst (driver_entry r s)) \<and> link_u16 \<in> set (symlinks (fst (driver_entry r s))))"
proof -
  have "us_slice entry_link_name = link_u16"
    by (simp add: us_slice_def entry_link_name_def link_u16_def bs_def)
  with assms show ?thesis by (simp add: driver_entry_def Let_def)
qed

theorem entry_failure_leaks_witness:
  "process_callback (fst (driver_entry \<lparr>er_create_device = (STATUS_SUCCESS, 5), er_symbolic_link = STATUS_SUCCESS,
     er_process_notify = STATUS_SUCCESS, er_thread_notify = STATUS_UNSUCCESSFUL\<rparr> (unloaded sample_irps)))"
  using entry_failure_leaks [of "\<lparr>er_create_device = (STATUS_SUCCESS, 5), er_symbolic_link = STATUS_SUCCESS,
     er_process_notify = STATUS_SUCCESS, er_thread_notify = STATUS_UNSUCCESSFUL\<rparr>" "unloaded sample_irps"]
  by simp

end
