(* ===== verification/Sensor_Liveness.thy ===== *)
theory Sensor_Liveness
  imports Sensor_Apc
begin

text \<open>
  What happens in the end: every APC under way gets to its end, so the loop in which the unload routine of
  \<open>lib.rs\<close> waits for \<open>APC_COUNT\<close> to fall to zero is left.
\<close>

subsection \<open>The work that is left\<close>

text \<open>
  An APC makes at most three more steps: it is queued, it looks for an early verdict, it ends. While no
  thread start is in the driver, nothing adds an APC.
\<close>

fun apc_rank :: "apc_phase \<Rightarrow> nat" where
  "apc_rank Injecting = 3"
| "apc_rank Queued = 2"
| "apc_rank _ = 1"

definition apc_work :: "apc_sys \<Rightarrow> nat" where
  "apc_work y = (\<Sum>p \<in> dom (as_phase y). apc_rank (the (as_phase y p)))"

definition closed_step :: "bool \<Rightarrow> apc_sys \<Rightarrow> apc_sys \<Rightarrow> bool" where
  "closed_step d y z \<longleftrightarrow> apc_step d y z \<and> as_taken z = []"

definition closed_inv :: "apc_sys \<Rightarrow> bool" where
  "closed_inv y \<longleftrightarrow> count_inv y \<and> as_taken y = []"

lemma apc_rank_pos: "0 < apc_rank ph"
  by (cases ph) simp_all

lemma apc_work_zero: "count_inv y \<Longrightarrow> apc_work y = 0 \<longleftrightarrow> as_phase y = Map.empty"
proof -
  assume "count_inv y"
  then have "finite (dom (as_phase y))" by (simp add: count_inv_def)
  then have "apc_work y = 0 \<longleftrightarrow> (\<forall>p \<in> dom (as_phase y). apc_rank (the (as_phase y p)) = 0)"
    by (simp add: apc_work_def)
  also have "\<dots> \<longleftrightarrow> dom (as_phase y) = {}" using apc_rank_pos by (metis all_not_in_conv less_numeral_extra(3))
  finally show ?thesis by simp
qed

text \<open>The work after one APC moved on or ended.\<close>

lemma apc_work_split:
  assumes "finite (dom m)" and "m p = Some ph"
  shows "(\<Sum>q \<in> dom m. apc_rank (the (m q))) = apc_rank ph + (\<Sum>q \<in> dom m - {p}. apc_rank (the (m q)))"
  using assms by (subst sum.remove [of _ p]) auto

lemma apc_work_move:
  assumes "count_inv y" and "as_phase y p = Some old" and "as_phase z = (as_phase y)(p \<mapsto> new)"
    and "apc_rank new < apc_rank old"
  shows "apc_work z < apc_work y"
proof -
  have fin: "finite (dom (as_phase y))" using assms(1) by (simp add: count_inv_def)
  have "apc_work z = apc_rank new + (\<Sum>q \<in> dom (as_phase y) - {p}. apc_rank (the (as_phase y q)))"
  proof -
    have dom: "dom (as_phase z) = dom (as_phase y)" using assms(2,3) by auto
    have "finite (dom (as_phase z))" and "as_phase z p = Some new" using fin dom assms(3) by simp_all
    from apc_work_split [OF this]
    have "apc_work z = apc_rank new + (\<Sum>q \<in> dom (as_phase y) - {p}. apc_rank (the (as_phase z q)))"
      by (simp only: apc_work_def dom)
    also have "(\<Sum>q \<in> dom (as_phase y) - {p}. apc_rank (the (as_phase z q)))
        = (\<Sum>q \<in> dom (as_phase y) - {p}. apc_rank (the (as_phase y q)))"
      by (rule sum.cong) (simp_all add: assms(3))
    finally show ?thesis .
  qed
  with assms(4) show ?thesis
    by (simp add: apc_work_def [of y] apc_work_split [OF fin assms(2)])
qed

lemma apc_work_drop:
  assumes "count_inv y" and "as_phase y p = Some old" and "as_phase z = (as_phase y)(p := None)"
  shows "apc_work z < apc_work y"
proof -
  have fin: "finite (dom (as_phase y))" using assms(1) by (simp add: count_inv_def)
  have "apc_work z = (\<Sum>q \<in> dom (as_phase y) - {p}. apc_rank (the (as_phase y q)))"
    using assms(3) by (simp add: apc_work_def)
  then show ?thesis
    using apc_rank_pos [of old] by (simp add: apc_work_def [of y] apc_work_split [OF fin assms(2)])
qed

lemma closed_progress:
  assumes "closed_inv y" and "closed_step d y z"
  shows "as_phase z = as_phase y \<or> apc_work z < apc_work y"
proof -
  have inv: "count_inv y" and taken: "as_taken y = []" using assms(1) by (simp_all add: closed_inv_def)
  have "apc_step d y z" using assms(2) by (simp add: closed_step_def)
  then show ?thesis
  proof cases
    case (step_inject pid rid p)
    then show ?thesis using taken by simp
  next
    case (step_insert p)
    then show ?thesis using apc_work_move [OF inv, of p Injecting z Queued] by simp
  next
    case (step_insert_failed p c)
    then show ?thesis using apc_work_move [OF inv, of p Injecting z "Insert_Failed (fc_pid c)"] by simp
  next
    case (step_insert_cleanup p pid)
    then show ?thesis using apc_work_drop [OF inv, of p _ z] by simp
  next
    case (step_rundown p)
    then show ?thesis using apc_work_drop [OF inv, of p _ z] by simp
  next
    case (step_early_check p c s' v)
    then show ?thesis
      using apc_work_move [OF inv, of p Queued z "case v of None \<Rightarrow> Waiting | Some st \<Rightarrow> Early_Verdict st"]
      by (simp split: option.splits)
  next
    case (step_early_exit p v c)
    then show ?thesis using apc_work_drop [OF inv, of p _ z] by simp
  next
    case (step_wake p c status)
    then show ?thesis using apc_work_drop [OF inv, of p _ z] by simp
  qed simp_all
qed

lemma closed_inv_step: "closed_inv y \<Longrightarrow> closed_step d y z \<Longrightarrow> closed_inv z"
  by (auto simp: closed_inv_def closed_step_def intro: count_inv_step)

lemma closed_work_step:
  assumes "closed_inv y" and "closed_step d y z"
  shows "apc_work z \<le> apc_work y"
proof (cases "as_phase z = as_phase y")
  case True
  then show ?thesis by (simp add: apc_work_def)
next
  case False
  then show ?thesis using closed_progress [OF assms] by simp
qed

lemma closed_step_dom:
  assumes "as_taken y = []" and "closed_step d y z"
  shows "dom (as_phase z) \<subseteq> dom (as_phase y)"
proof -
  have "apc_step d y z" using assms(2) by (simp add: closed_step_def)
  then show ?thesis by cases (use assms(1) in \<open>auto split: if_splits\<close>)
qed

interpretation apc_draining: draining_system "closed_step d" closed_inv apc_work
  by unfold_locales (auto intro: closed_inv_step closed_work_step)

subsection \<open>Nothing is stuck\<close>

text \<open>
  Every APC under way can make its next step, whatever the rest of the system does: the wait of a frozen
  thread ends at the latest when its five seconds are over.
\<close>

lemma apc_enabled:
  assumes "count_inv y" and "as_phase y p = Some ph"
  shows "\<exists>z. apc_step d y z \<and> as_taken z = as_taken y \<and> as_phase z p \<noteq> Some ph"
proof -
  have ctx: "\<exists>c. apc_ctxs (as_sensor y) p = Some c" if "\<And>pid. ph \<noteq> Insert_Failed pid"
  proof -
    have "p \<in> dom (apc_ctxs (as_sensor y))" using assms that by (auto simp: count_inv_def)
    then show ?thesis by auto
  qed
  show ?thesis
  proof (cases ph)
    case Injecting
    with assms(2) have "apc_step d y (y\<lparr>as_phase := (as_phase y)(p \<mapsto> Queued)\<rparr>)" by (intro step_insert) simp
    with Injecting show ?thesis by (intro exI [of _ "y\<lparr>as_phase := (as_phase y)(p \<mapsto> Queued)\<rparr>"]) simp
  next
    case (Insert_Failed pid)
    let ?z = "y\<lparr>as_sensor := inject_cleanup pid (as_sensor y), as_phase := (as_phase y)(p := None)\<rparr>"
    from Insert_Failed assms(2) have "apc_step d y ?z" by (intro step_insert_cleanup) simp
    with Insert_Failed show ?thesis by (intro exI [of _ ?z]) simp
  next
    case Queued
    let ?chk = "\<lambda>c. check_early_verdict (fc_pid c) (as_sensor y)"
    let ?z = "\<lambda>c. y\<lparr>as_sensor := fst (?chk c), as_phase := (as_phase y)(p \<mapsto>
      (case snd (?chk c) of None \<Rightarrow> Waiting | Some st \<Rightarrow> Early_Verdict st))\<rparr>"
    from Queued ctx obtain c where "apc_ctxs (as_sensor y) p = Some c" by auto
    with Queued assms(2) have "apc_step d y (?z c)" by (intro step_early_check) simp_all
    with Queued show ?thesis by (intro exI [of _ "?z c"]) (simp split: option.split)
  next
    case (Early_Verdict v)
    let ?z = "\<lambda>c. y\<lparr>as_sensor := apc_early_exit p (fc_pid c) v (as_sensor y), as_phase := (as_phase y)(p := None)\<rparr>"
    from Early_Verdict ctx obtain c where "apc_ctxs (as_sensor y) p = Some c" by auto
    with Early_Verdict assms(2) have "apc_step d y (?z c)" by (intro step_early_exit) simp_all
    with Early_Verdict show ?thesis by (intro exI [of _ "?z c"]) simp
  next
    case Waiting
    let ?z = "\<lambda>c. y\<lparr>as_sensor := apc_after_wait p (fc_pid c) STATUS_TIMEOUT (as_sensor y),
      as_phase := (as_phase y)(p := None)\<rparr>"
    from Waiting ctx obtain c where "apc_ctxs (as_sensor y) p = Some c" by auto
    with Waiting assms(2) have "apc_step d y (?z c)" by (intro step_wake) (simp_all add: status_defs)
    with Waiting show ?thesis by (intro exI [of _ "?z c"]) simp
  qed
qed

subsection \<open>Unloading\<close>

text \<open>
  A run from the moment the unload routine has removed the callbacks and woken the pending scans. Removing
  a callback waits for the calls of it that are under way, so no thread start is in the driver then and none
  comes. The scheduler is fair: while an APC is under way, some APC moves on again.
\<close>

definition unload_run :: "bool \<Rightarrow> apc_sys \<Rightarrow> (nat \<Rightarrow> apc_sys) \<Rightarrow> bool" where
  "unload_run d y f \<longleftrightarrow> as_taken y = []
     \<and> f 0 = y\<lparr>as_sensor := unload_wake ((as_sensor y)\<lparr>process_callback := False, thread_callback := False\<rparr>)\<rparr>
     \<and> is_run (closed_step d) f
     \<and> (\<forall>n. as_phase (f n) \<noteq> Map.empty \<longrightarrow> (\<exists>m \<ge> n. as_phase (f (Suc m)) \<noteq> as_phase (f m)))"

lemma unload_wake_frame:
  "dom (apc_ctxs (unload_wake s)) = dom (apc_ctxs s)" "apc_count (unload_wake s) = apc_count s"
proof -
  have "dom (apc_ctxs (fold (\<lambda>i. set_event (ps_event_ptr i)) l s)) = dom (apc_ctxs s)
    \<and> apc_count (fold (\<lambda>i. set_event (ps_event_ptr i)) l s) = apc_count s" for l :: "pending_scan list"
  proof (induction l arbitrary: s)
    case (Cons i l)
    have "dom (apc_ctxs (set_event (ps_event_ptr i) s)) = dom (apc_ctxs s)
      \<and> apc_count (set_event (ps_event_ptr i) s) = apc_count s"
      by (auto simp: set_event_def split: option.splits)
    then show ?case using Cons.IH [of "set_event (ps_event_ptr i) s"] by simp
  qed simp
  then show "dom (apc_ctxs (unload_wake s)) = dom (apc_ctxs s)" "apc_count (unload_wake s) = apc_count s"
    by (simp_all add: unload_wake_def split: option.split)
qed

lemma unload_runD:
  assumes "unload_run d y f"
  shows "as_taken y = []"
    and "f 0 = y\<lparr>as_sensor := unload_wake ((as_sensor y)\<lparr>process_callback := False, thread_callback := False\<rparr>)\<rparr>"
    and "is_run (closed_step d) f"
    and "as_phase (f n) \<noteq> Map.empty \<Longrightarrow> \<exists>m \<ge> n. as_phase (f (Suc m)) \<noteq> as_phase (f m)"
proof -
  note run = assms [unfolded unload_run_def]
  show "as_taken y = []" by (rule run [THEN conjunct1])
  show "f 0 = y\<lparr>as_sensor := unload_wake ((as_sensor y)\<lparr>process_callback := False, thread_callback := False\<rparr>)\<rparr>"
    by (rule run [THEN conjunct2, THEN conjunct1])
  show "is_run (closed_step d) f" by (rule run [THEN conjunct2, THEN conjunct2, THEN conjunct1])
  assume "as_phase (f n) \<noteq> Map.empty"
  then show "\<exists>m \<ge> n. as_phase (f (Suc m)) \<noteq> as_phase (f m)"
    using run [THEN conjunct2, THEN conjunct2, THEN conjunct2] by blast
qed

lemma unload_run_start:
  assumes "reach apc_init (apc_step d) y" and "unload_run d y f"
  shows "closed_inv (f 0)"
proof -
  have "count_inv y" by (rule apc_counting.reach_inv [OF assms(1)])
  then have "count_inv (f 0)"
    by (rule count_inv_same) (simp_all add: unload_runD(2) [OF assms(2)] unload_wake_frame)
  then show ?thesis by (simp add: unload_runD(1,2) [OF assms(2)] closed_inv_def)
qed

lemma unload_run_drains:
  assumes "reach apc_init (apc_step d) y" and "unload_run d y f"
  shows "\<exists>n. \<forall>m \<ge> n. as_phase (f m) = Map.empty"
proof -
  note start = unload_run_start [OF assms]
  note run = unload_runD(3) [OF assms(2)]
  have inv: "closed_inv (f n)" for n by (rule apc_draining.run_invariant [OF run start])
  have zero: "apc_work (f n) = 0 \<longleftrightarrow> as_phase (f n) = Map.empty" for n
    using inv [of n] by (intro apc_work_zero) (simp add: closed_inv_def)
  have fair: "\<exists>m \<ge> n. apc_work (f (Suc m)) \<noteq> apc_work (f m)" if "apc_work (f n) \<noteq> 0" for n
  proof -
    from that have "as_phase (f n) \<noteq> Map.empty" by (simp only: zero) simp
    from unload_runD(4) [OF assms(2) this] obtain m where
      m: "n \<le> m" "as_phase (f (Suc m)) \<noteq> as_phase (f m)" by blast
    have "f (Suc m) = f m \<or> closed_step d (f m) (f (Suc m))" using run by (simp only: is_run_def)
    with m(2) have "closed_step d (f m) (f (Suc m))" by metis
    from closed_progress [OF inv this] m(2) have "apc_work (f (Suc m)) < apc_work (f m)" by blast
    with m(1) show ?thesis by (metis nat_neq_iff)
  qed
  have "\<exists>n. \<forall>m \<ge> n. apc_work (f m) = 0" by (rule apc_draining.drains [OF run start]) (rule fair)
  then show ?thesis by (simp only: zero)
qed

text \<open>The waiting loop is left at the first of its looks at the counter that finds zero.\<close>

lemma unload_wait_returns:
  "apc_count ((delay ^^ n) s) = 0 \<Longrightarrow> \<exists>k \<le> n. apc_count ((delay ^^ k) s) = 0
     \<and> unload_wait delay n s = Some ((delay ^^ k) s)"
proof (induction n arbitrary: s)
  case 0
  then show ?case by (subst unload_wait.simps) simp
next
  case (Suc n)
  show ?case
  proof (cases "apc_count s = 0")
    case True
    then show ?thesis by (subst unload_wait.simps) (auto intro!: exI [of _ 0])
  next
    case False
    have "apc_count ((delay ^^ n) (delay s)) = 0" using Suc.prems by (simp add: funpow_swap1)
    from Suc.IH [OF this] obtain k where k: "k \<le> n" "apc_count ((delay ^^ k) (delay s)) = 0"
      "unload_wait delay n (delay s) = Some ((delay ^^ k) (delay s))" by blast
    then have "unload_wait delay (Suc n) s = Some ((delay ^^ Suc k) s)"
      using False by (subst unload_wait.simps) (simp add: funpow_swap1 word_gt_0)
    with k show ?thesis by (intro exI [of _ "Suc k"]) (simp add: funpow_swap1)
  qed
qed

text \<open>
  C3. The unload routine returns. Whenever it is called, with any number of processes frozen and threads
  dying at any time: if the threads that are woken get to run, the counter of APCs falls to zero, the loop that
  looks at it after every delay is left, and no freeze context is alive then. \<open>t k\<close> is the time of the look
  after \<open>k\<close> delays.
\<close>

theorem unload_returns:
  assumes "reach apc_init (apc_step d) y" and "unload_run d y f"
    and "strict_mono t" and "t 0 = 0"
    and "\<And>k. (delay ^^ k) (as_sensor (f 0)) = as_sensor (f (t k))"
    and "card (dom (as_phase y)) < 2 ^ 64"
  shows "\<exists>fuel s'. driver_unload delay fuel (as_sensor y) = Some s' \<and> apc_ctxs s' = Map.empty"
proof -
  let ?s = "unload_wake ((as_sensor y)\<lparr>process_callback := False, thread_callback := False\<rparr>)"
  note start = unload_run_start [OF assms(1,2)] and run = unload_runD(3) [OF assms(2)]
  have inv: "closed_inv (f n)" for n by (rule apc_draining.run_invariant [OF run start])
  have s: "as_sensor (f 0) = ?s" by (simp add: unload_runD(2) [OF assms(2)])
  have count: "apc_count (as_sensor (f n)) = of_nat (card (dom (as_phase (f n))))" for n
    using inv [of n] by (simp add: closed_inv_def count_inv_def)
  obtain n where n: "\<And>m. n \<le> m \<Longrightarrow> as_phase (f m) = Map.empty"
    using unload_run_drains [OF assms(1,2)] by blast
  have "n \<le> t n" by (rule strict_mono_imp_increasing [OF assms(3)])
  then have "apc_count ((delay ^^ n) ?s) = 0" using n [of "t n"] count [of "t n"] assms(5) [of n] s by simp
  from unload_wait_returns [OF this] obtain k where
    k: "apc_count ((delay ^^ k) ?s) = 0" "unload_wait delay n ?s = Some ((delay ^^ k) ?s)" by blast
  have dom: "dom (as_phase (f n)) \<subseteq> dom (as_phase y)" for n
  proof (induction n)
    case 0
    then show ?case by (simp add: unload_runD(2) [OF assms(2)])
  next
    case (Suc n)
    have "as_taken (f n) = []" using inv [of n] by (simp add: closed_inv_def)
    from closed_step_dom [OF this, of d "f (Suc n)"] have "dom (as_phase (f (Suc n))) \<subseteq> dom (as_phase (f n))"
      using run [unfolded is_run_def, rule_format, of n] by auto
    with Suc.IH show ?case by simp
  qed
  have fin: "finite (dom (as_phase y))" using apc_counting.reach_inv [OF assms(1)] by (simp add: count_inv_def)
  have "card (dom (as_phase (f (t k)))) < 2 ^ 64" using card_mono [OF fin dom] assms(6) by (rule le_less_trans)
  moreover have "of_nat (card (dom (as_phase (f (t k))))) = (0 :: u64)"
    using k(1) count [of "t k"] assms(5) [of k] s by simp
  ultimately have "card (dom (as_phase (f (t k)))) = 0"
    using unat_of_nat_u64 [of "card (dom (as_phase (f (t k))))"] by simp
  then have "as_phase (f (t k)) = Map.empty"
    using inv [of "t k"] by (simp add: closed_inv_def count_inv_def)
  then have "dom (apc_ctxs (as_sensor (f (t k)))) = {}"
    using inv [of "t k"] by (simp add: closed_inv_def count_inv_def)
  then have "apc_ctxs ((delay ^^ k) ?s) = Map.empty" using assms(5) [of k] s by simp
  with k(2) show ?thesis
    by (intro exI [of _ n] exI [of _ "unload_finish ((delay ^^ k) ?s)"])
      (simp add: driver_unload_def Let_def unload_finish_def ob_dereference_def split: option.split)
qed

text \<open>The sample run: process 42 is frozen, the driver is unloaded, the thread wakes and ends.\<close>

definition unloaded_run :: "nat \<Rightarrow> apc_sys" where
  "unloaded_run n =
     (let y = apc_sys5\<lparr>as_sensor := unload_wake ((as_sensor apc_sys5)\<lparr>process_callback := False,
                thread_callback := False\<rparr>)\<rparr> in
      if n = 0 then y
      else y\<lparr>as_sensor := apc_after_wait 9 42 STATUS_SUCCESS (as_sensor y), as_phase := Map.empty\<rparr>)"

lemma unloaded_run_steps: "unload_run True apc_sys5 unloaded_run"
proof -
  have taken: "as_taken apc_sys5 = []" by (simp add: apc_sys_defs)
  have "closed_step True (unloaded_run 0) (unloaded_run 1)"
  proof -
    let ?y = "unloaded_run 0"
    have y: "as_phase ?y = [9 \<mapsto> Waiting]" "as_taken ?y = []"
      by (simp_all add: unloaded_run_def Let_def apc_sys5_sensor taken)
    have c: "apc_ctxs (as_sensor ?y) 9 = Some \<lparr>fc_signalled = True, fc_pid = 42, fc_request_id = 1\<rparr>"
      by (simp add: unloaded_run_def Let_def apc_sys5_sensor unload_wake_def apc_sys3_fields set_event_def)
    from step_wake [OF _ c, of STATUS_SUCCESS True] y show ?thesis
      by (simp add: closed_step_def) (simp add: unloaded_run_def Let_def apc_sys5_sensor)
  qed
  moreover have "unloaded_run (Suc (Suc n)) = unloaded_run (Suc n)" for n by (simp add: unloaded_run_def)
  ultimately have "unloaded_run (Suc n) = unloaded_run n
      \<or> closed_step True (unloaded_run n) (unloaded_run (Suc n))" for n
    by (cases n) simp_all
  then have "is_run (closed_step True) unloaded_run" by (simp only: is_run_def) simp
  moreover have "as_phase (unloaded_run (Suc 0)) \<noteq> as_phase (unloaded_run 0)"
    and "as_phase (unloaded_run n) \<noteq> Map.empty \<Longrightarrow> n = 0" for n
    by (simp_all add: unloaded_run_def Let_def apc_sys5_sensor fun_eq_iff split: if_splits)
  moreover have "unloaded_run 0 = apc_sys5\<lparr>as_sensor := unload_wake ((as_sensor apc_sys5)
      \<lparr>process_callback := False, thread_callback := False\<rparr>)\<rparr>" by (simp add: unloaded_run_def Let_def)
  ultimately show ?thesis
    unfolding unload_run_def using taken by (metis le_numeral_extra(3))
qed

theorem unload_returns_witness:
  "\<exists>fuel s'. driver_unload (\<lambda>_. as_sensor (unloaded_run 1)) fuel (as_sensor apc_sys5) = Some s'
     \<and> apc_ctxs s' = Map.empty"
proof (rule unload_returns [OF apc_sys5_reach unloaded_run_steps, where t = id])
  fix k
  show "((\<lambda>_. as_sensor (unloaded_run 1)) ^^ k) (as_sensor (unloaded_run 0)) = as_sensor (unloaded_run (id k))"
    by (cases k) (simp_all add: unloaded_run_def)
qed (simp_all add: strict_mono_def apc_sys5_sensor)

end
