(* ===== verification/File_Signatures.thy ===== *)
theory File_Signatures
  imports Shared_Api
begin

text \<open>
  The flags of a file path: \<open>engine/signatures/file_signatures.rs\<close>. A location pattern of the code
  is a regular expression of two shapes; it is matched here by the directory tests it spells out.
  File names follow \<open>std::path\<close> on Windows for paths without a UNC or drive-relative prefix, which
  is what the telemetry carries.
\<close>

datatype file_flags =
    NoFlag
  | FileCreateSuccess
  | FileWriteSuccess
  | WhiteListed
  | BlackListed
  | StaticScanMalicious
  | StaticScanSuspicious
  | StaticScanBeneign
  | InAutoStartLocation
  | InTempLocation
  | RenamedToExecutable

abbreviation backslash :: char where "backslash \<equiv> CHR 0x5C"

text \<open>The literal text of a pattern, written with a slash for each backslash.\<close>

definition lit :: "string \<Rightarrow> string" where
  "lit s = map (\<lambda>c. if c = CHR ''/'' then backslash else c) s"

subsection \<open>Location rules\<close>

text \<open>
  \<open>Under dir\<close> is the pattern \<open>^dir(?:\\.*|$)\<close>; \<open>Under_User base dir\<close> is
  \<open>^base\\[^\\]+\\dir(?:\\.*|$)\<close>, with any one component between.
\<close>

datatype location_pattern = Under string | Under_User string string

definition dir_match :: "string \<Rightarrow> string \<Rightarrow> bool" where
  "dir_match dir s =
     (case strip_prefix_str s dir of
        None \<Rightarrow> False
      | Some rest \<Rightarrow> rest = [] \<or> hd rest = backslash)"

fun pattern_matches :: "location_pattern \<Rightarrow> string \<Rightarrow> bool" where
  "pattern_matches (Under dir) s = dir_match dir s"
| "pattern_matches (Under_User base dir) s =
     (case strip_prefix_str s (base @ [backslash]) of
        None \<Rightarrow> False
      | Some rest \<Rightarrow>
          (case split_once_char backslash rest of
             None \<Rightarrow> False
           | Some (user, rest2) \<Rightarrow> user \<noteq> [] \<and> dir_match dir rest2))"

record rule_spec =
  rs_pattern :: location_pattern
  rs_flag :: file_flags

definition LOCATION_RULE_SPECS :: "rule_spec list" where
  "LOCATION_RULE_SPECS =
     [\<lparr>rs_pattern = Under_User (lit ''c:/users'') (lit ''appdata/local/temp''), rs_flag = InTempLocation\<rparr>,
      \<lparr>rs_pattern = Under (lit ''c:/windows/temp''), rs_flag = InTempLocation\<rparr>,
      \<lparr>rs_pattern = Under_User (lit ''c:/users'')
         (lit ''appdata/roaming/microsoft/windows/start menu/programs/startup''), rs_flag = InAutoStartLocation\<rparr>,
      \<lparr>rs_pattern = Under (lit ''c:/programdata/microsoft/windows/start menu/programs/startup''),
       rs_flag = InAutoStartLocation\<rparr>]"

definition normalize_location_path :: "string \<Rightarrow> string" where
  "normalize_location_path path =
     (let path = to_ascii_lowercase (replace_char (CHR ''/'') [backslash] path) in
      case strip_prefix_str path (lit ''//?/'') of Some p \<Rightarrow> p | None \<Rightarrow> path)"

text \<open>The flags of the matching rules, in the order of the rules, each once.\<close>

fun push_new :: "'a list \<Rightarrow> 'a list \<Rightarrow> 'a list" where
  "push_new acc [] = acc"
| "push_new acc (x # xs) = push_new (if x \<in> set acc then acc else acc @ [x]) xs"

definition get_location_flags :: "string \<Rightarrow> file_flags list" where
  "get_location_flags path =
     (let normalized = normalize_location_path path in
      push_new [] (map rs_flag (filter (\<lambda>r. pattern_matches (rs_pattern r) normalized) LOCATION_RULE_SPECS)))"

subsection \<open>Renames\<close>

definition is_sep :: "char \<Rightarrow> bool" where
  "is_sep c \<longleftrightarrow> c = backslash \<or> c = CHR ''/''"

fun split_seps :: "string \<Rightarrow> string \<Rightarrow> string list" where
  "split_seps acc [] = [rev acc]"
| "split_seps acc (c # s) = (if is_sep c then rev acc # split_seps [] s else split_seps (c # acc) s)"

text \<open>\<open>Path::file_name\<close>: the last component, unless it is the parent directory.\<close>

definition path_file_name :: "string \<Rightarrow> string option" where
  "path_file_name p =
     (case rev (filter (\<lambda>c. c \<noteq> [] \<and> c \<noteq> ''.'') (split_seps [] p)) of
        [] \<Rightarrow> None
      | c # _ \<Rightarrow> if c = ''..'' then None else Some c)"

text \<open>\<open>Path::extension\<close>: the text after the last dot, unless the name starts with it.\<close>

definition path_extension :: "string \<Rightarrow> string option" where
  "path_extension p =
     (case path_file_name p of
        None \<Rightarrow> None
      | Some name \<Rightarrow>
          (case split_once_char (CHR ''.'') (rev name) of
             None \<Rightarrow> None
           | Some (ext, stem) \<Rightarrow> if stem = [] then None else Some (rev ext)))"

definition EXECUTABLE_EXTENSIONS :: "string list" where
  "EXECUTABLE_EXTENSIONS = [''exe'', ''msi'', ''ps1'', ''bat'', ''cmd'', ''hta'', ''vbs'', ''vbe'',
     ''js'', ''jse'', ''wsf'', ''wsh'', ''psc1'', ''com'', ''scr'', ''dll'']"

definition lower_extension :: "string \<Rightarrow> string" where
  "lower_extension p = to_ascii_lowercase (case path_extension p of None \<Rightarrow> [] | Some e \<Rightarrow> e)"

definition get_rename_flags :: "string \<Rightarrow> string \<Rightarrow> file_flags list option" where
  "get_rename_flags prev_name new_name =
     (let previous_extension = lower_extension prev_name; new_extension = lower_extension new_name in
      if previous_extension \<noteq> new_extension
      then (if new_extension \<in> set EXECUTABLE_EXTENSIONS then Some [RenamedToExecutable] else None)
      else None)"

subsection \<open>Lemmas\<close>

lemma set_push_new: "set (push_new acc xs) = set acc \<union> set xs"
  by (induction acc xs rule: push_new.induct) auto

lemma distinct_push_new: "distinct acc \<Longrightarrow> distinct (push_new acc xs)"
  by (induction acc xs rule: push_new.induct) auto

lemma ascii_lower_char_slash [simp]: "ascii_lower_char c = CHR ''/'' \<longleftrightarrow> c = CHR ''/''"
proof -
  have "char_of (byte_of c + 32) \<noteq> CHR ''/''" if "65 \<le> byte_of c" "byte_of c \<le> 90"
  proof
    assume "char_of (byte_of c + 32) = CHR ''/''"
    then have "of_char (char_of (byte_of c + 32) :: char) = (of_char (CHR ''/'') :: nat)" by simp
    then have "byte_of c + 32 = 47" using that by (simp add: of_char_of)
    then show False using that by simp
  qed
  then show ?thesis by (auto simp: ascii_lower_char_def)
qed

lemma ascii_lower_char_backslash [simp]: "ascii_lower_char backslash = backslash"
  by (simp add: ascii_lower_char_def)

text \<open>Case and the kind of slash make no difference.\<close>

lemma to_ascii_lowercase_replace_slash:
  "to_ascii_lowercase (replace_char (CHR ''/'') [backslash] (to_ascii_lowercase p))
     = to_ascii_lowercase (replace_char (CHR ''/'') [backslash] p)"
  by (induction p) simp_all

lemma normalize_location_lower:
  "normalize_location_path (to_ascii_lowercase p) = normalize_location_path p"
  by (simp add: normalize_location_path_def to_ascii_lowercase_replace_slash)

lemma replace_slash_idem:
  "replace_char (CHR ''/'') [backslash] (replace_char (CHR ''/'') [backslash] p)
     = replace_char (CHR ''/'') [backslash] p"
  by (induction p) simp_all

lemma normalize_location_slash:
  "normalize_location_path (replace_char (CHR ''/'') [backslash] p) = normalize_location_path p"
  by (simp add: normalize_location_path_def replace_slash_idem)

lemma strip_prefix_str_append: "strip_prefix_str (p @ s) p = Some s"
  by (simp add: strip_prefix_str_def starts_with_def)

lemma strip_prefix_str_Some: "strip_prefix_str s p = Some r \<longleftrightarrow> s = p @ r"
  by (auto simp: strip_prefix_str_def starts_with_iff_prefix prefix_def)

text \<open>Every location rule speaks of the drive \<open>c:\<close>.\<close>

lemma rule_starts_with_drive:
  assumes "r \<in> set LOCATION_RULE_SPECS" and "pattern_matches (rs_pattern r) s"
  shows "take 2 s = ''c:''"
  using assms
  by (auto simp: LOCATION_RULE_SPECS_def dir_match_def lit_def strip_prefix_str_Some split: option.splits)


lemma set_get_location_flags:
  "set (get_location_flags p)
     = rs_flag ` {r \<in> set LOCATION_RULE_SPECS. pattern_matches (rs_pattern r) (normalize_location_path p)}"
  by (auto simp: get_location_flags_def Let_def set_push_new)

lemma location_rule_flags:
  "r \<in> set LOCATION_RULE_SPECS \<Longrightarrow> rs_flag r \<in> {InTempLocation, InAutoStartLocation}"
  by (auto simp: LOCATION_RULE_SPECS_def)

text \<open>What the two kinds of pattern accept, as the shape of the path.\<close>

lemma strip_prefix_str_None: "strip_prefix_str s p = None \<longleftrightarrow> (\<nexists>r. s = p @ r)"
  using strip_prefix_str_Some by (metis not_None_eq)

lemma dir_match_iff: "dir_match dir s \<longleftrightarrow> s = dir \<or> (\<exists>rest. s = dir @ backslash # rest)"
proof (cases "strip_prefix_str s dir")
  case None
  then show ?thesis by (simp add: dir_match_def) (metis append_Nil2 strip_prefix_str_None)
next
  case (Some r)
  then have "s = dir @ r" by (simp add: strip_prefix_str_Some)
  then show ?thesis using Some by (cases r) (auto simp: dir_match_def)
qed

lemma under_user_iff:
  "pattern_matches (Under_User base dir) s \<longleftrightarrow>
     (\<exists>user s'. s = base @ backslash # user @ backslash # s' \<and> user \<noteq> [] \<and> backslash \<notin> set user
        \<and> dir_match dir s')" (is "?l = ?r")
proof
  assume ?l
  then obtain rest user s' where "strip_prefix_str s (base @ [backslash]) = Some rest"
    "split_once_char backslash rest = Some (user, s')" "user \<noteq> []" "dir_match dir s'"
    by (auto split: option.splits)
  then show ?r by (auto simp: strip_prefix_str_Some dest: split_once_char_Some)
next
  assume ?r
  then obtain user s' where "s = (base @ [backslash]) @ user @ backslash # s'" "user \<noteq> []"
    "backslash \<notin> set user" "dir_match dir s'" by auto
  then show ?l using strip_prefix_str_append [of "base @ [backslash]"]
    by (simp add: split_once_char_append)
qed

subsection \<open>Properties\<close>

text \<open>A normalised path lies in the directory, or in the directory of some user.\<close>

definition in_dir :: "string \<Rightarrow> string \<Rightarrow> bool" where
  "in_dir dir s \<longleftrightarrow> s = dir \<or> (\<exists>rest. s = dir @ backslash # rest)"

definition in_user_dir :: "string \<Rightarrow> string \<Rightarrow> bool" where
  "in_user_dir dir s \<longleftrightarrow>
     (\<exists>user. user \<noteq> [] \<and> backslash \<notin> set user
        \<and> in_dir (lit ''c:/users/'' @ user @ backslash # dir) s)"

lemma under_user_in_dir: "pattern_matches (Under_User (lit ''c:/users'') dir) s = in_user_dir dir s"
  unfolding under_user_iff in_user_dir_def in_dir_def dir_match_iff
  by (auto simp: lit_def)

lemma under_in_dir: "pattern_matches (Under dir) s = in_dir dir s"
  by (simp add: in_dir_def dir_match_iff)

lemma ex_location_rule:
  "(\<exists>r \<in> set LOCATION_RULE_SPECS. rs_flag r = InTempLocation \<and> pattern_matches (rs_pattern r) s)
     = (in_user_dir (lit ''appdata/local/temp'') s \<or> in_dir (lit ''c:/windows/temp'') s)"
  "(\<exists>r \<in> set LOCATION_RULE_SPECS. rs_flag r = InAutoStartLocation \<and> pattern_matches (rs_pattern r) s)
     = (in_user_dir (lit ''appdata/roaming/microsoft/windows/start menu/programs/startup'') s
        \<or> in_dir (lit ''c:/programdata/microsoft/windows/start menu/programs/startup'') s)"
  by (simp_all add: LOCATION_RULE_SPECS_def under_user_in_dir under_in_dir del: pattern_matches.simps)

lemma location_flag_iff:
  "(f \<in> set (get_location_flags p)) =
     (\<exists>r \<in> set LOCATION_RULE_SPECS. rs_flag r = f \<and> pattern_matches (rs_pattern r) (normalize_location_path p))"
  by (auto simp: set_get_location_flags)

lemma location_flags_subset: "set (get_location_flags p) \<subseteq> {InTempLocation, InAutoStartLocation}"
  using location_rule_flags by (auto simp: set_get_location_flags)

lemma location_flags_drive:
  "get_location_flags p = [] \<or> take 2 (normalize_location_path p) = ''c:''"
proof -
  have "take 2 (normalize_location_path p) = ''c:''" if "get_location_flags p \<noteq> []"
  proof -
    from that obtain f where "f \<in> set (get_location_flags p)" by (meson last_in_set)
    then show ?thesis unfolding location_flag_iff using rule_starts_with_drive by blast
  qed
  then show ?thesis by blast
qed

text \<open>
  The location flags of a path say where its normal form lies: below a temporary directory of a user
  or of the system, below the startup menu of a user or of the machine. They depend on neither the
  case of its letters nor the kind of its slashes, none comes twice, and a path that does not lead to
  the drive \<open>c:\<close>, such as the volume-relative name the filter reports for a file that cannot be
  resolved any more, has none.
\<close>

theorem location_flags_correct:
  "(InTempLocation \<in> set (get_location_flags p)) =
     (in_user_dir (lit ''appdata/local/temp'') (normalize_location_path p)
      \<or> in_dir (lit ''c:/windows/temp'') (normalize_location_path p))
   \<and> (InAutoStartLocation \<in> set (get_location_flags p)) =
     (in_user_dir (lit ''appdata/roaming/microsoft/windows/start menu/programs/startup'') (normalize_location_path p)
      \<or> in_dir (lit ''c:/programdata/microsoft/windows/start menu/programs/startup'') (normalize_location_path p))
   \<and> set (get_location_flags p) \<subseteq> {InTempLocation, InAutoStartLocation}
   \<and> distinct (get_location_flags p)
   \<and> get_location_flags (to_ascii_lowercase p) = get_location_flags p
   \<and> get_location_flags (replace_char (CHR ''/'') [backslash] p) = get_location_flags p
   \<and> (get_location_flags p = [] \<or> take 2 (normalize_location_path p) = ''c:'')"
  using location_flag_iff [of InTempLocation p] location_flag_iff [of InAutoStartLocation p]
    location_flags_drive [of p] location_flags_subset [of p]
  unfolding ex_location_rule
  by (simp add: get_location_flags_def Let_def normalize_location_lower normalize_location_slash distinct_push_new)

end
