(* ===== verification/Agent_Config.thy ===== *)
theory Agent_Config
  imports Shared_Api
begin

text \<open>
  The agent's configuration constants (\<open>galatea-agent/src/config.rs\<close>) and the part of a parsed
  PE file the analysis reads. Parsing is the library \<open>goblin\<close>; its result is a record with the
  fields the code uses. Probabilities and entropies, \<open>f32\<close> and \<open>f64\<close> in the code, are reals.
\<close>

definition SERVER_URI :: string where "SERVER_URI = ''http://localhost:80''"
definition AGENT_PSK :: string where "AGENT_PSK = ''galatea_secret''"
definition STAT_BLOCK_THRESHOLD :: i32 where "STAT_BLOCK_THRESHOLD = 80"
definition STAT_SUSPICIOUS_THRESHOLD :: i32 where "STAT_SUSPICIOUS_THRESHOLD = 50"
definition SCAN_WAIT_TIMEOUT_SECS :: nat where "SCAN_WAIT_TIMEOUT_SECS = 4"
definition SHOW_SYSTEM_PROCESSES :: bool where "SHOW_SYSTEM_PROCESSES = True"
definition HEUR_ENTROPY_THRESHOLD :: real where "HEUR_ENTROPY_THRESHOLD = 7.2"
definition ML_CERTAINTY_MAL :: real where "ML_CERTAINTY_MAL = 0.90"
definition HEUR_KNOWN_PACKER_SCORE :: i32 where "HEUR_KNOWN_PACKER_SCORE = 30"
definition HEUR_ENTROPY_SCORE :: i32 where "HEUR_ENTROPY_SCORE = 25"
definition HEUR_RWX_SEC_SCORE :: i32 where "HEUR_RWX_SEC_SCORE = 40"
definition HEUR_HIDDEN_IMP_SCORE :: i32 where "HEUR_HIDDEN_IMP_SCORE = 20"
definition CODE_SIGN_FORGIVENESS :: i32 where "CODE_SIGN_FORGIVENESS = - 40"
definition CODE_SIGN_UNTRUSTED :: i32 where "CODE_SIGN_UNTRUSTED = 5"
definition CODE_SIGN_REVOKED :: i32 where "CODE_SIGN_REVOKED = 100"
definition ML_MALICIOUS :: i32 where "ML_MALICIOUS = 40"

lemmas score_defs = STAT_BLOCK_THRESHOLD_def STAT_SUSPICIOUS_THRESHOLD_def HEUR_KNOWN_PACKER_SCORE_def
  HEUR_ENTROPY_SCORE_def HEUR_RWX_SEC_SCORE_def HEUR_HIDDEN_IMP_SCORE_def CODE_SIGN_FORGIVENESS_def
  CODE_SIGN_UNTRUSTED_def CODE_SIGN_REVOKED_def ML_MALICIOUS_def

subsection \<open>Parsed PE files\<close>

record pe_section =
  sec_virtual_address :: u32
  sec_virtual_size :: u32
  sec_pointer_to_raw_data :: u32
  sec_size_of_raw_data :: u32
  sec_characteristics :: u32

record pe_import =
  imp_dll :: string
  imp_name :: string
  imp_ordinal :: u16

text \<open>The numeric fields of the optional header that are read, in the order they are read.\<close>

record pe_optional_header =
  oh_major_linker_version :: u8
  oh_minor_linker_version :: u8
  oh_size_of_code :: u64
  oh_size_of_initialized_data :: u64
  oh_size_of_uninitialized_data :: u64
  oh_address_of_entry_point :: u64
  oh_base_of_code :: u64
  oh_image_base :: u64
  oh_section_alignment :: u32
  oh_file_alignment :: u32
  oh_major_operating_system_version :: u16
  oh_minor_operating_system_version :: u16
  oh_size_of_image :: u32
  oh_size_of_headers :: u32
  oh_check_sum :: u32
  oh_subsystem :: u16
  oh_dll_characteristics :: u16

record pe =
  pe_machine :: u16
  pe_size_of_optional_header :: u16
  pe_characteristics :: u16
  pe_optional :: "pe_optional_header option"
  pe_entry :: u32
  pe_sections :: "pe_section list"
  pe_imports :: "pe_import list"
  pe_libraries :: nat
  pe_exports :: nat

text \<open>\<open>&buffer[start..end]\<close>, for a range inside the buffer.\<close>

definition slice :: "nat \<Rightarrow> nat \<Rightarrow> 'a list \<Rightarrow> 'a list" where
  "slice a b xs = take (b - a) (drop a xs)"

lemma length_slice: "b \<le> length xs \<Longrightarrow> a \<le> b \<Longrightarrow> length (slice a b xs) = b - a"
  by (simp add: slice_def)

end
