(* ===== verification/Scan_Cache.thy ===== *)
theory Scan_Cache
  imports Agent_Config
begin

text \<open>
  The cache of static results (\<open>cache/static_analyzer_cache.rs\<close>), which lets one thread scan a file
  while the others wait for its result. The completed results live in a \<open>moka\<close> cache, which may
  drop any entry at any time and otherwise is a map; a barrier is an address, its state is in a
  map of its own. A mutex is poisoned when a thread panicked with it held.
\<close>

subsection \<open>Data\<close>

record cache_item =
  ci_mod_time :: instant
  ci_file_size :: u64
  ci_file_index :: "u64 option"
  ci_details :: detection_details

record completed_scan =
  cs_details :: detection_details
  cs_mod_time :: instant
  cs_file_size :: u64
  cs_file_index :: "u64 option"

datatype scan_state = Scan_Pending | Scan_Completed completed_scan | Scan_Failed

datatype wait_result = Completed completed_scan | Failed | Timed_Out

text \<open>
  The outcome of an attempt to acquire a scan; \<open>Acquired\<close> carries the key the guard will resolve.
\<close>

datatype 'b scan_outcome = Cache_Hit detection_details | Acquired "string option" | Wait 'b

record result_cache =
  rc_completed :: "string \<rightharpoonup> cache_item"
  rc_in_progress :: "string \<rightharpoonup> nat"
  rc_poisoned :: bool
  rc_barriers :: "nat \<rightharpoonup> scan_state"

definition new_result_cache :: result_cache where
  "new_result_cache = \<lparr>rc_completed = Map.empty, rc_in_progress = Map.empty, rc_poisoned = False,
     rc_barriers = Map.empty\<rparr>"

subsection \<open>Operations\<close>

definition canonicalize_key :: "(string \<Rightarrow> string option) \<Rightarrow> string \<Rightarrow> string" where
  "canonicalize_key canonicalize raw_path =
     (case canonicalize raw_path of Some path \<Rightarrow> path | None \<Rightarrow> raw_path)"

definition invalidate :: "string \<Rightarrow> result_cache \<Rightarrow> result_cache" where
  "invalidate key c = c\<lparr>rc_completed := (rc_completed c)(key := None)\<rparr>"

text \<open>
  The fast path of \<open>try_acquire_scan\<close>. \<open>get_file_index\<close> is the index the file has now.
\<close>

definition lookup_completed ::
  "(string \<Rightarrow> u64 option) \<Rightarrow> string \<Rightarrow> instant \<Rightarrow> u64 \<Rightarrow> result_cache
     \<Rightarrow> result_cache \<times> detection_details option" where
  "lookup_completed get_file_index key mod_time file_size c =
     (case rc_completed c key of
        None \<Rightarrow> (c, None)
      | Some item \<Rightarrow>
          (if ci_file_size item = file_size \<and> ci_mod_time item = mod_time then
             (case ci_file_index item of
                Some cached_index \<Rightarrow>
                  (if get_file_index key \<noteq> Some cached_index then (invalidate key (invalidate key c), None)
                   else (c, Some (ci_details item)))
              | None \<Rightarrow> (c, Some (ci_details item)))
           else (invalidate key c, None)))"

text \<open>The slot, under the lock of the scans in progress; \<open>b\<close> is the address of a new barrier.\<close>

definition acquire_slot :: "nat \<Rightarrow> string \<Rightarrow> result_cache \<Rightarrow> result_cache \<times> nat scan_outcome" where
  "acquire_slot b key c =
     (if rc_poisoned c then (c, Acquired None)
      else case rc_in_progress c key of
             Some barrier \<Rightarrow> (c, Wait barrier)
           | None \<Rightarrow> (c\<lparr>rc_in_progress := (rc_in_progress c)(key \<mapsto> b),
                        rc_barriers := (rc_barriers c)(b \<mapsto> Scan_Pending)\<rparr>, Acquired (Some key)))"

definition try_acquire_scan ::
  "(string \<Rightarrow> string option) \<Rightarrow> (string \<Rightarrow> u64 option) \<Rightarrow> nat \<Rightarrow> string \<Rightarrow> instant \<Rightarrow> u64 \<Rightarrow> result_cache
     \<Rightarrow> result_cache \<times> nat scan_outcome" where
  "try_acquire_scan canonicalize get_file_index b raw_path mod_time file_size c =
     (let key = canonicalize_key canonicalize raw_path in
      case lookup_completed get_file_index key mod_time file_size c of
        (c', Some details) \<Rightarrow> (c', Cache_Hit details)
      | (c', None) \<Rightarrow> acquire_slot b key c')"

definition complete_insert :: "string \<Rightarrow> completed_scan \<Rightarrow> result_cache \<Rightarrow> result_cache" where
  "complete_insert key scan c =
     c\<lparr>rc_completed := (rc_completed c)(key \<mapsto>
       \<lparr>ci_mod_time = cs_mod_time scan, ci_file_size = cs_file_size scan,
        ci_file_index = cs_file_index scan, ci_details = cs_details scan\<rparr>)\<rparr>"

text \<open>Taking the barrier out of the scans in progress and resolving it.\<close>

definition resolve_slot :: "string \<Rightarrow> scan_state \<Rightarrow> result_cache \<Rightarrow> result_cache" where
  "resolve_slot key st c =
     (if rc_poisoned c then c
      else case rc_in_progress c key of
             None \<Rightarrow> c
           | Some barrier \<Rightarrow> c\<lparr>rc_in_progress := (rc_in_progress c)(key := None),
                               rc_barriers := (rc_barriers c)(barrier \<mapsto> st)\<rparr>)"

definition complete_scan_inner :: "string \<Rightarrow> completed_scan \<Rightarrow> result_cache \<Rightarrow> result_cache" where
  "complete_scan_inner key scan c = resolve_slot key (Scan_Completed scan) (complete_insert key scan c)"

definition abort_scan_inner :: "string \<Rightarrow> result_cache \<Rightarrow> result_cache" where
  "abort_scan_inner key c = resolve_slot key Scan_Failed c"

text \<open>\<open>ScanGuard::complete\<close> and its \<open>Drop\<close>: a guard without a key does nothing.\<close>

definition guard_complete :: "string option \<Rightarrow> completed_scan \<Rightarrow> result_cache \<Rightarrow> result_cache" where
  "guard_complete guard scan c = (case guard of None \<Rightarrow> c | Some key \<Rightarrow> complete_scan_inner key scan c)"

definition guard_drop :: "string option \<Rightarrow> result_cache \<Rightarrow> result_cache" where
  "guard_drop guard c = (case guard of None \<Rightarrow> c | Some key \<Rightarrow> abort_scan_inner key c)"

text \<open>
  The end of a wait: the state the barrier has then, and whether the time ran out, which the
  standard library reports only while the state is pending.
\<close>

definition barrier_wait :: "bool \<Rightarrow> scan_state \<Rightarrow> wait_result" where
  "barrier_wait timed_out st =
     (if timed_out \<and> st = Scan_Pending then Timed_Out
      else case st of Scan_Completed scan \<Rightarrow> Completed scan | Scan_Failed \<Rightarrow> Failed | Scan_Pending \<Rightarrow> Failed)"

subsection \<open>File reputation\<close>

datatype file_verdict = Benign | Suspicious | Malicious

record scan_summary =
  su_verdict :: file_verdict
  su_threat_score :: i32
  su_file_size :: u64
  su_mod_time :: instant
  su_file_index :: "u64 option"

definition scan_summary_of :: "completed_scan \<Rightarrow> scan_summary" where
  "scan_summary_of scan =
     (let score = dd_threat_score (cs_details scan) in
      \<lparr>su_verdict = (if i32_le STAT_BLOCK_THRESHOLD score then Malicious
                     else if i32_le STAT_SUSPICIOUS_THRESHOLD score then Suspicious
                     else Benign),
       su_threat_score = score, su_file_size = cs_file_size scan, su_mod_time = cs_mod_time scan,
       su_file_index = cs_file_index scan\<rparr>)"

subsection \<open>Threads\<close>

text \<open>
  The threads around the cache: the guards that are alive, those that have inserted their result
  and not yet woken the waiters, and the log of all scans completed. Lookup, slot, insertion and
  wake-up are steps of their own, because the code takes a lock for each; \<open>moka\<close> may drop an entry
  between any two.
\<close>

record cache_sys =
  cy_cache :: result_cache
  cy_guards :: "string list"
  cy_waking :: "(string \<times> completed_scan) list"
  cy_log :: "(string \<times> completed_scan) list"

inductive cache_step :: "cache_sys \<Rightarrow> cache_sys \<Rightarrow> bool" where
  step_lookup:
    "lookup_completed idx key t sz (cy_cache y) = (c', r) \<Longrightarrow>
     cache_step y (y\<lparr>cy_cache := c'\<rparr>)"
| step_acquire:
    "rc_barriers (cy_cache y) b = None \<Longrightarrow> acquire_slot b key (cy_cache y) = (c', out) \<Longrightarrow>
     cache_step y (y\<lparr>cy_cache := c',
       cy_guards := (case out of Acquired (Some k) \<Rightarrow> k # cy_guards y | _ \<Rightarrow> cy_guards y)\<rparr>)"
| step_insert:
    "key \<in> set (cy_guards y) \<Longrightarrow>
     cache_step y (y\<lparr>cy_cache := complete_insert key scan (cy_cache y),
       cy_guards := remove1 key (cy_guards y), cy_waking := (key, scan) # cy_waking y,
       cy_log := (key, scan) # cy_log y\<rparr>)"
| step_wake:
    "(key, scan) \<in> set (cy_waking y) \<Longrightarrow>
     cache_step y (y\<lparr>cy_cache := resolve_slot key (Scan_Completed scan) (cy_cache y),
       cy_waking := remove1 (key, scan) (cy_waking y)\<rparr>)"
| step_abort:
    "key \<in> set (cy_guards y) \<Longrightarrow>
     cache_step y (y\<lparr>cy_cache := abort_scan_inner key (cy_cache y), cy_guards := remove1 key (cy_guards y)\<rparr>)"
| step_evict:
    "cache_step y (y\<lparr>cy_cache := invalidate key (cy_cache y)\<rparr>)"

definition cache_init :: "cache_sys \<Rightarrow> bool" where
  "cache_init y \<longleftrightarrow> cy_cache y = new_result_cache \<and> cy_guards y = [] \<and> cy_waking y = [] \<and> cy_log y = []"

text \<open>The keys somebody still has to resolve.\<close>

definition owned :: "cache_sys \<Rightarrow> string list" where
  "owned y = cy_guards y @ map fst (cy_waking y)"

definition item_of :: "completed_scan \<Rightarrow> cache_item" where
  "item_of scan = \<lparr>ci_mod_time = cs_mod_time scan, ci_file_size = cs_file_size scan,
     ci_file_index = cs_file_index scan, ci_details = cs_details scan\<rparr>"

definition slots_ok :: "result_cache \<Rightarrow> string list \<Rightarrow> bool" where
  "slots_ok c keys \<longleftrightarrow> \<not> rc_poisoned c \<and> distinct keys \<and> dom (rc_in_progress c) = set keys
     \<and> (\<forall>b. rc_barriers c b = Some Scan_Pending \<longleftrightarrow> (\<exists>key. rc_in_progress c key = Some b))
     \<and> (\<forall>k1 k2 b. rc_in_progress c k1 = Some b \<longrightarrow> rc_in_progress c k2 = Some b \<longrightarrow> k1 = k2)"

definition items_ok :: "result_cache \<Rightarrow> (string \<times> completed_scan) list \<Rightarrow> bool" where
  "items_ok c hist \<longleftrightarrow>
     (\<forall>key item. rc_completed c key = Some item \<longrightarrow> (\<exists>scan. (key, scan) \<in> set hist \<and> item = item_of scan))"

definition cache_sys_inv :: "cache_sys \<Rightarrow> bool" where
  "cache_sys_inv y \<longleftrightarrow> slots_ok (cy_cache y) (owned y) \<and> items_ok (cy_cache y) (cy_log y)"


lemma slots_okD:
  assumes "slots_ok c keys"
  shows "\<not> rc_poisoned c" and "distinct keys" and "dom (rc_in_progress c) = set keys"
    and "rc_barriers c b = Some Scan_Pending \<longleftrightarrow> (\<exists>key. rc_in_progress c key = Some b)"
    and "rc_in_progress c k1 = Some b \<Longrightarrow> rc_in_progress c k2 = Some b \<Longrightarrow> k1 = k2"
  using assms unfolding slots_ok_def by blast+

lemma slots_okI:
  assumes "\<not> rc_poisoned c" and "distinct keys" and "dom (rc_in_progress c) = set keys"
    and "\<And>b. rc_barriers c b = Some Scan_Pending \<longleftrightarrow> (\<exists>key. rc_in_progress c key = Some b)"
    and "\<And>k1 k2 b. rc_in_progress c k1 = Some b \<Longrightarrow> rc_in_progress c k2 = Some b \<Longrightarrow> k1 = k2"
  shows "slots_ok c keys"
  unfolding slots_ok_def using assms by blast

lemma slots_ok_completed [simp]: "slots_ok (c\<lparr>rc_completed := f\<rparr>) keys = slots_ok c keys"
  by (simp add: slots_ok_def)

lemma slots_ok_perm: "slots_ok c keys \<Longrightarrow> distinct keys' \<Longrightarrow> set keys' = set keys \<Longrightarrow> slots_ok c keys'"
  by (simp add: slots_ok_def)

lemma ex_fun_upd:
  assumes "m key \<noteq> Some q" and "v \<noteq> Some q"
  shows "(\<exists>k. (m(key := v)) k = Some q) \<longleftrightarrow> (\<exists>k. m k = Some q)"
  using assms by (metis fun_upd_apply)

lemma slots_ok_acquire:
  assumes ok: "slots_ok c keys" and b: "rc_barriers c b = None" and k: "rc_in_progress c key = None"
  shows "slots_ok (c\<lparr>rc_in_progress := (rc_in_progress c)(key \<mapsto> b),
                     rc_barriers := (rc_barriers c)(b \<mapsto> Scan_Pending)\<rparr>) (key # keys)"
    (is "slots_ok ?c _")
proof (rule slots_okI)
  have fresh: "rc_in_progress c k \<noteq> Some b" for k using slots_okD(4) [OF ok, of b] b by auto
  show "\<not> rc_poisoned ?c" using slots_okD(1) [OF ok] by simp
  show "distinct (key # keys)" using k slots_okD(2,3) [OF ok] by auto
  show "dom (rc_in_progress ?c) = set (key # keys)" using slots_okD(3) [OF ok] by simp
  show "rc_barriers ?c q = Some Scan_Pending \<longleftrightarrow> (\<exists>k. rc_in_progress ?c k = Some q)" for q
  proof (cases "q = b")
    case True
    then show ?thesis by auto
  next
    case False
    with ex_fun_upd [of "rc_in_progress c" key q "Some b"] k slots_okD(4) [OF ok, of q] show ?thesis
      by simp
  qed
  show "k1 = k2" if "rc_in_progress ?c k1 = Some q" "rc_in_progress ?c k2 = Some q" for k1 k2 q
    using that fresh [of k1] fresh [of k2] slots_okD(5) [OF ok, of k1 q k2]
    by (cases "k1 = key"; cases "k2 = key") simp_all
qed

lemma slots_ok_resolve:
  assumes ok: "slots_ok c keys" and key: "key \<in> set keys" and st: "st \<noteq> Scan_Pending"
    and d: "distinct keys'" "set keys' = set keys - {key}"
  shows "slots_ok (resolve_slot key st c) keys'"
proof -
  obtain b where b: "rc_in_progress c key = Some b" using key slots_okD(3) [OF ok] by blast
  let ?c = "c\<lparr>rc_in_progress := (rc_in_progress c)(key := None), rc_barriers := (rc_barriers c)(b \<mapsto> st)\<rparr>"
  have "slots_ok ?c keys'"
  proof (rule slots_okI)
    show "\<not> rc_poisoned ?c" using slots_okD(1) [OF ok] by simp
    show "distinct keys'" by (rule d(1))
    show "dom (rc_in_progress ?c) = set keys'" using slots_okD(3) [OF ok] d(2) by simp
    show "rc_barriers ?c q = Some Scan_Pending \<longleftrightarrow> (\<exists>k. rc_in_progress ?c k = Some q)" for q
    proof (cases "q = b")
      case True
      have "rc_in_progress ?c k \<noteq> Some b" for k
        using slots_okD(5) [OF ok _ b, of k] by (cases "k = key") auto
      with True st show ?thesis by simp
    next
      case False
      with b slots_okD(4) [OF ok, of q] ex_fun_upd [of "rc_in_progress c" key q None] show ?thesis by simp
    qed
    show "k1 = k2" if "rc_in_progress ?c k1 = Some q" "rc_in_progress ?c k2 = Some q" for k1 k2 q
      using that slots_okD(5) [OF ok, of k1 q k2] by (cases "k1 = key"; cases "k2 = key") simp_all
  qed
  moreover have "resolve_slot key st c = ?c"
    using slots_okD(1) [OF ok] by (simp add: resolve_slot_def b)
  ultimately show ?thesis by simp
qed

lemma resolve_slot_completed [simp]: "rc_completed (resolve_slot key st c) = rc_completed c"
  by (simp add: resolve_slot_def split: option.split)

lemma items_ok_invalidate: "items_ok c h \<Longrightarrow> items_ok (invalidate key c) h"
  by (auto simp: items_ok_def invalidate_def split: if_splits)

lemma slots_ok_invalidate [simp]: "slots_ok (invalidate key c) keys = slots_ok c keys"
  by (simp add: invalidate_def)

lemma lookup_completed_cases:
  "fst (lookup_completed idx key t sz c) \<in> {c, invalidate key c, invalidate key (invalidate key c)}"
  by (simp add: lookup_completed_def split: option.split)

lemma items_ok_insert: "items_ok c h \<Longrightarrow> items_ok (complete_insert key scan c) ((key, scan) # h)"
  by (auto simp: items_ok_def complete_insert_def item_of_def)

lemma items_ok_same: "items_ok c h \<Longrightarrow> rc_completed c' = rc_completed c \<Longrightarrow> items_ok c' h"
  by (simp add: items_ok_def)

lemma acquire_slot_completed: "rc_completed (fst (acquire_slot b key c)) = rc_completed c"
  by (simp add: acquire_slot_def split: option.split)

lemma cache_inv_acquire:
  assumes ok: "slots_ok (cy_cache y) (owned y)" and items: "items_ok (cy_cache y) (cy_log y)"
    and fresh: "rc_barriers (cy_cache y) b = None" and acquire: "acquire_slot b key (cy_cache y) = (c', out)"
  shows "cache_sys_inv (y\<lparr>cy_cache := c',
     cy_guards := (case out of Acquired (Some k) \<Rightarrow> k # cy_guards y | _ \<Rightarrow> cy_guards y)\<rparr>)"
proof -
  have items': "items_ok c' (cy_log y)"
    using items_ok_same [OF items] acquire_slot_completed [of b key "cy_cache y"] acquire by simp
  show ?thesis
  proof (cases "rc_in_progress (cy_cache y) key")
    case None
    then have "c' = (cy_cache y)\<lparr>rc_in_progress := (rc_in_progress (cy_cache y))(key \<mapsto> b),
        rc_barriers := (rc_barriers (cy_cache y))(b \<mapsto> Scan_Pending)\<rparr>" "out = Acquired (Some key)"
      using acquire slots_okD(1) [OF ok] by (auto simp: acquire_slot_def)
    with slots_ok_acquire [OF ok fresh None] items' show ?thesis
      by (simp add: cache_sys_inv_def owned_def)
  next
    case (Some q)
    then have "c' = cy_cache y" "out = Wait q"
      using acquire slots_okD(1) [OF ok] by (auto simp: acquire_slot_def)
    with ok items show ?thesis by (simp add: cache_sys_inv_def owned_def)
  qed
qed

lemma cache_inv_wake:
  assumes ok: "slots_ok (cy_cache y) (owned y)" and items: "items_ok (cy_cache y) (cy_log y)"
    and waking: "(key, scan) \<in> set (cy_waking y)"
  shows "cache_sys_inv (y\<lparr>cy_cache := resolve_slot key (Scan_Completed scan) (cy_cache y),
     cy_waking := remove1 (key, scan) (cy_waking y)\<rparr>)"
    (is "cache_sys_inv ?z")
proof -
  have key: "key \<in> set (owned y)" using waking by (force simp: owned_def)
  have "mset (map fst (cy_waking y)) = add_mset key (mset (map fst (remove1 (key, scan) (cy_waking y))))"
    using arg_cong [OF mset_remove1_split [OF waking], of "image_mset fst"] by simp
  then have m: "mset (owned y) = add_mset key (mset (owned ?z))" by (simp add: owned_def)
  then have "distinct (key # owned ?z)" using slots_okD(2) [OF ok] by (metis mset.simps(2) mset_eq_imp_distinct_iff)
  moreover have "set (owned y) = insert key (set (owned ?z))"
    using m by (metis set_mset_add_mset_insert set_mset_mset)
  ultimately have "slots_ok (resolve_slot key (Scan_Completed scan) (cy_cache y)) (owned ?z)"
    by (intro slots_ok_resolve [OF ok key]) auto
  then show ?thesis using items_ok_same [OF items] by (simp add: cache_sys_inv_def)
qed

lemma cache_step_inv:
  assumes inv: "cache_sys_inv y" and step: "cache_step y z"
  shows "cache_sys_inv z"
proof -
  have ok: "slots_ok (cy_cache y) (owned y)" and items: "items_ok (cy_cache y) (cy_log y)"
    using inv by (simp_all add: cache_sys_inv_def)
  note dist = slots_okD(2) [OF ok]
  from step show ?thesis
  proof cases
    case (step_lookup idx key t sz c' r)
    then have "c' \<in> {cy_cache y, invalidate key (cy_cache y), invalidate key (invalidate key (cy_cache y))}"
      using lookup_completed_cases [of idx key t sz "cy_cache y"] by simp
    with ok items show ?thesis
      by (auto simp: step_lookup(1) cache_sys_inv_def owned_def intro: items_ok_invalidate)
  next
    case (step_acquire b key c' out)
    then show ?thesis using cache_inv_acquire [OF ok items] by simp
  next
    case (step_insert key scan)
    have "distinct (owned z)" "set (owned z) = set (owned y)"
      using dist step_insert(2) by (auto simp: step_insert(1) owned_def distinct_remove1)
    from slots_ok_perm [OF ok this] show ?thesis
      using items_ok_insert [OF items, of key scan] by (simp add: cache_sys_inv_def step_insert(1) complete_insert_def)
  next
    case (step_wake key scan)
    then show ?thesis using cache_inv_wake [OF ok items] by simp
  next
    case (step_abort key)
    have key: "key \<in> set (owned y)" using step_abort(2) by (simp add: owned_def)
    have "distinct (owned z)" "set (owned z) = set (owned y) - {key}"
      using dist step_abort(2) by (auto simp: step_abort(1) owned_def distinct_remove1)
    then have "slots_ok (abort_scan_inner key (cy_cache y)) (owned z)"
      unfolding abort_scan_inner_def by (intro slots_ok_resolve [OF ok key]) auto
    then show ?thesis
      using items_ok_same [OF items] by (simp add: cache_sys_inv_def step_abort(1) abort_scan_inner_def)
  next
    case (step_evict key)
    with ok items show ?thesis
      by (simp add: cache_sys_inv_def owned_def items_ok_invalidate)
  qed
qed

lemma cache_init_inv: "cache_init y \<Longrightarrow> cache_sys_inv y"
  by (auto simp: cache_init_def cache_sys_inv_def slots_ok_def items_ok_def owned_def new_result_cache_def)

interpretation result_caching: invariant_system cache_init cache_step cache_sys_inv
  by unfold_locales (auto intro: cache_init_inv cache_step_inv)


subsection \<open>A run\<close>

text \<open>A scan of one path that is acquired, completed and announced.\<close>

definition sample_scan :: completed_scan where
  "sample_scan = \<lparr>cs_details = \<lparr>dd_threat_score = 80, dd_md5_hash = None, dd_signature_match = None,
       dd_authenticode = None, dd_heuristics = None, dd_ml_prediction = None\<rparr>,
     cs_mod_time = 5, cs_file_size = 9, cs_file_index = Some 3\<rparr>"

definition cache_sys0 :: cache_sys where
  "cache_sys0 = \<lparr>cy_cache = new_result_cache, cy_guards = [], cy_waking = [], cy_log = []\<rparr>"
definition cache_sys1 :: cache_sys where
  "cache_sys1 = cache_sys0\<lparr>cy_cache := fst (acquire_slot 0 ''a.exe'' new_result_cache), cy_guards := [''a.exe'']\<rparr>"
definition cache_sys2 :: cache_sys where
  "cache_sys2 = cache_sys1\<lparr>cy_cache := complete_insert ''a.exe'' sample_scan (cy_cache cache_sys1),
     cy_guards := [], cy_waking := [(''a.exe'', sample_scan)], cy_log := [(''a.exe'', sample_scan)]\<rparr>"

lemma cache_sys1_reach: "reach cache_init cache_step cache_sys1"
proof (rule reach_step)
  show "reach cache_init cache_step cache_sys0"
    by (rule reach_init) (simp add: cache_init_def cache_sys0_def)
  have "acquire_slot 0 ''a.exe'' (cy_cache cache_sys0)
      = (fst (acquire_slot 0 ''a.exe'' new_result_cache), Acquired (Some ''a.exe''))"
    by (simp add: acquire_slot_def cache_sys0_def new_result_cache_def)
  from step_acquire [OF _ this] show "cache_step cache_sys0 cache_sys1"
    by (simp add: cache_sys1_def) (simp add: cache_sys0_def new_result_cache_def)
qed

lemma cache_sys2_reach: "reach cache_init cache_step cache_sys2"
proof (rule reach_step [OF cache_sys1_reach])
  have "''a.exe'' \<in> set (cy_guards cache_sys1)" by (simp add: cache_sys1_def)
  from step_insert [OF this, of sample_scan] show "cache_step cache_sys1 cache_sys2"
    by (simp add: cache_sys2_def) (simp add: cache_sys1_def cache_sys0_def)
qed

subsection \<open>Properties\<close>

text \<open>
  C0. One scan of a path at a time, and no waiter is forgotten: in every reachable state the paths
  being scanned are distinct, a caller that asks for one of them is told to wait, and every barrier
  still pending belongs to a path whose owner is yet to resolve it.
\<close>

theorem one_scan_per_path:
  assumes "reach cache_init cache_step y"
  shows "distinct (owned y)
    \<and> (\<forall>key \<in> set (owned y). \<exists>b. acquire_slot b2 key (cy_cache y) = (cy_cache y, Wait b)
         \<and> rc_barriers (cy_cache y) b = Some Scan_Pending)
    \<and> (\<forall>b. rc_barriers (cy_cache y) b = Some Scan_Pending \<longrightarrow>
         (\<exists>key \<in> set (owned y). rc_in_progress (cy_cache y) key = Some b))"
proof -
  have ok: "slots_ok (cy_cache y) (owned y)"
    using result_caching.reach_inv [OF assms] by (simp add: cache_sys_inv_def)
  have "\<exists>b. acquire_slot b2 key (cy_cache y) = (cy_cache y, Wait b)
         \<and> rc_barriers (cy_cache y) b = Some Scan_Pending" if k: "key \<in> set (owned y)" for key
  proof -
    obtain b where b: "rc_in_progress (cy_cache y) key = Some b" using slots_okD(3) [OF ok] k by blast
    then have "rc_barriers (cy_cache y) b = Some Scan_Pending" using slots_okD(4) [OF ok, of b] by blast
    with b slots_okD(1) [OF ok] show ?thesis by (simp add: acquire_slot_def)
  qed
  moreover have "\<exists>key \<in> set (owned y). rc_in_progress (cy_cache y) key = Some b"
    if "rc_barriers (cy_cache y) b = Some Scan_Pending" for b
    using that slots_okD(3,4) [OF ok] by (metis domI)
  ultimately show ?thesis using slots_okD(2) [OF ok] by blast
qed

theorem one_scan_per_path_witness:
  "snd (acquire_slot 1 ''a.exe'' (cy_cache cache_sys1)) = Wait 0"
proof -
  have "''a.exe'' \<in> set (owned cache_sys1)" by (simp add: owned_def cache_sys1_def)
  then obtain b where "acquire_slot 1 ''a.exe'' (cy_cache cache_sys1) = (cy_cache cache_sys1, Wait b)"
    using one_scan_per_path [OF cache_sys1_reach, of 1] by blast
  moreover have "rc_in_progress (cy_cache cache_sys1) ''a.exe'' = Some 0"
    by (simp add: cache_sys1_def acquire_slot_def new_result_cache_def)
  ultimately show ?thesis by (auto simp: acquire_slot_def split: if_splits)
qed



end
