(* ===== verification/File_Context.thy ===== *)
theory File_Context
  imports File_Signatures Scan_Cache
begin

text \<open>
  The file context cache of the agent: \<open>cache/file_context_cache.rs\<close>. The cache is the list of its
  entries in the order the cache iterates over them; an entry is the context behind its lock, with the
  poison flag of the lock. What the cache drops on its own (it is bounded by
  \<open>FILE_CONTEXT_CACHE_CAPACITY\<close>) is the same step as an invalidation. \<open>canon\<close> is
  \<open>dunce::canonicalize\<close> followed by \<open>to_string_lossy\<close>, \<open>None\<close> where it fails.
\<close>

definition FILE_CONTEXT_CACHE_CAPACITY :: nat where "FILE_CONTEXT_CACHE_CAPACITY = 10000"

subsection \<open>Keys\<close>

datatype file_context_key = FileIndex u64 | Path string

definition fsc_canonicalize_path :: "(string \<Rightarrow> string option) \<Rightarrow> string \<Rightarrow> string" where
  "fsc_canonicalize_path canon raw_path = (case canon raw_path of Some path \<Rightarrow> path | None \<Rightarrow> raw_path)"

definition from_identity :: "(string \<Rightarrow> string option) \<Rightarrow> string \<Rightarrow> u64 option \<Rightarrow> file_context_key" where
  "from_identity canon path file_index =
     (case file_index of Some index \<Rightarrow> FileIndex index | None \<Rightarrow> Path (fsc_canonicalize_path canon path))"

subsection \<open>Contexts\<close>

record file_telemetry_update =
  fu_normalized_file_path :: "string option"
  fu_file_index :: "u64 option"
  fu_last_write_process :: "string option"
  fu_last_write_time :: "instant option"
  fu_last_rename_time :: "instant option"
  fu_original_name :: "string option"
  fu_matching_flags :: "file_flags list option"

record file_context =
  fc_normalized_file_path :: "string option"
  fc_file_index :: "u64 option"
  fc_last_write_process :: "string option"
  fc_last_write_time :: "instant option"
  fc_last_rename_time :: "instant option"
  fc_original_name :: "string option"
  fc_last_scan_summary :: "scan_summary option"
  fc_matching_flags :: "file_flags list"

definition default_file_context :: file_context where
  "default_file_context =
     \<lparr>fc_normalized_file_path = None, fc_file_index = None, fc_last_write_process = None,
      fc_last_write_time = None, fc_last_rename_time = None, fc_original_name = None,
      fc_last_scan_summary = None, fc_matching_flags = []\<rparr>"

text \<open>\<open>if let Some(x) = update.x { self.x = Some(x) }\<close>.\<close>

definition newer :: "'a option \<Rightarrow> 'a option \<Rightarrow> 'a option" where
  "newer new old = (case new of Some x \<Rightarrow> Some x | None \<Rightarrow> old)"

definition apply_flags :: "file_flags list \<Rightarrow> file_context \<Rightarrow> file_context" where
  "apply_flags flags c = c\<lparr>fc_matching_flags := fc_matching_flags c @ flags\<rparr>"

definition apply_telemetry ::
  "(string \<Rightarrow> string option) \<Rightarrow> file_telemetry_update \<Rightarrow> file_context \<Rightarrow> file_context" where
  "apply_telemetry canon u c =
     \<lparr>fc_normalized_file_path =
        newer (map_option (fsc_canonicalize_path canon) (fu_normalized_file_path u)) (fc_normalized_file_path c),
      fc_file_index = newer (fu_file_index u) (fc_file_index c),
      fc_last_write_process = newer (fu_last_write_process u) (fc_last_write_process c),
      fc_last_write_time = newer (fu_last_write_time u) (fc_last_write_time c),
      fc_last_rename_time = newer (fu_last_rename_time u) (fc_last_rename_time c),
      fc_original_name = newer (fu_original_name u) (fc_original_name c),
      fc_last_scan_summary = fc_last_scan_summary c,
      fc_matching_flags =
        (case fu_matching_flags u of Some flags \<Rightarrow> fc_matching_flags c @ flags | None \<Rightarrow> fc_matching_flags c)\<rparr>"

text \<open>The closure of \<open>write_scan_summary\<close>.\<close>

definition apply_scan_summary :: "scan_summary \<Rightarrow> file_context \<Rightarrow> file_context" where
  "apply_scan_summary summ c =
     c\<lparr>fc_file_index := newer (su_file_index summ) (fc_file_index c), fc_last_scan_summary := Some summ\<rparr>"

subsection \<open>The cache\<close>

record context_entry =
  ce_key :: file_context_key
  ce_context :: file_context
  ce_poisoned :: bool

type_synonym context_cache = "context_entry list"

definition find_entry :: "file_context_key \<Rightarrow> context_cache \<Rightarrow> context_entry option" where
  "find_entry key cache = find (\<lambda>e. ce_key e = key) cache"

definition fsc_get :: "file_context_key \<Rightarrow> context_cache \<Rightarrow> file_context option" where
  "fsc_get key cache =
     (case find_entry key cache of
        None \<Rightarrow> None
      | Some e \<Rightarrow> if ce_poisoned e then None else Some (ce_context e))"

definition get_by_path :: "(string \<Rightarrow> string option) \<Rightarrow> string \<Rightarrow> context_cache \<Rightarrow> file_context option" where
  "get_by_path canon path cache = fsc_get (Path (fsc_canonicalize_path canon path)) cache"

text \<open>
  \<open>entries.get_with(key, default)\<close> makes the entry when it is missing; the closure then runs
  under the write lock.
\<close>

definition get_with_default :: "file_context_key \<Rightarrow> context_cache \<Rightarrow> context_cache" where
  "get_with_default key cache =
     (case find_entry key cache of
        Some _ \<Rightarrow> cache
      | None \<Rightarrow> cache @ [\<lparr>ce_key = key, ce_context = default_file_context, ce_poisoned = False\<rparr>])"

definition update_context ::
  "file_context_key \<Rightarrow> (file_context \<Rightarrow> file_context) \<Rightarrow> context_cache \<Rightarrow> context_cache \<times> file_context option" where
  "update_context key update cache =
     (let cache = get_with_default key cache in
      case find_entry key cache of
        None \<Rightarrow> (cache, None)
      | Some e \<Rightarrow>
          if ce_poisoned e then (cache, None)
          else (update_first (\<lambda>e. ce_key e = key) (\<lambda>e. e\<lparr>ce_context := update (ce_context e)\<rparr>) cache,
                Some (update (ce_context e))))"

definition write_telemetry ::
  "(string \<Rightarrow> string option) \<Rightarrow> file_context_key \<Rightarrow> file_telemetry_update \<Rightarrow> context_cache
     \<Rightarrow> context_cache \<times> file_context option" where
  "write_telemetry canon key u cache = update_context key (apply_telemetry canon u) cache"

definition write_scan_summary ::
  "file_context_key \<Rightarrow> scan_summary \<Rightarrow> context_cache \<Rightarrow> context_cache \<times> file_context option" where
  "write_scan_summary key summ cache = update_context key (apply_scan_summary summ) cache"

definition flag_file ::
  "file_context_key \<Rightarrow> file_flags list \<Rightarrow> context_cache \<Rightarrow> context_cache \<times> file_context option" where
  "flag_file key flags cache = update_context key (apply_flags flags) cache"

definition fsc_invalidate :: "file_context_key \<Rightarrow> context_cache \<Rightarrow> context_cache" where
  "fsc_invalidate key cache = filter (\<lambda>e. ce_key e \<noteq> key) cache"

subsection \<open>Snapshots\<close>

definition file_flag_snapshot_of :: "file_flags \<Rightarrow> file_flag_snapshot option" where
  "file_flag_snapshot_of flag =
     (case flag of
        NoFlag \<Rightarrow> None
      | FileWriteSuccess \<Rightarrow> Some SnapFileWriteSuccess
      | WhiteListed \<Rightarrow> Some SnapWhiteListed
      | BlackListed \<Rightarrow> Some SnapBlackListed
      | StaticScanMalicious \<Rightarrow> Some SnapStaticScanMalicious
      | StaticScanSuspicious \<Rightarrow> Some SnapStaticScanSuspicious
      | StaticScanBeneign \<Rightarrow> Some SnapStaticScanBeneign
      | InAutoStartLocation \<Rightarrow> Some SnapInAutoStartLocation
      | InTempLocation \<Rightarrow> Some SnapInTempLocation
      | RenamedToExecutable \<Rightarrow> Some SnapRenamedToExecutable
      | FileCreateSuccess \<Rightarrow> Some SnapFileCreateSuccess)"

fun flag_snapshots_from :: "file_flag_snapshot list \<Rightarrow> file_flags list \<Rightarrow> file_flag_snapshot list" where
  "flag_snapshots_from snapshots [] = snapshots"
| "flag_snapshots_from snapshots (flag # flags) =
     (case file_flag_snapshot_of flag of
        None \<Rightarrow> flag_snapshots_from snapshots flags
      | Some snapshot \<Rightarrow>
          if snapshot \<in> set snapshots then flag_snapshots_from snapshots flags
          else flag_snapshots_from (snapshots @ [snapshot]) flags)"

definition file_flag_snapshots :: "file_flags list \<Rightarrow> file_flag_snapshot list" where
  "file_flag_snapshots flags = flag_snapshots_from [] flags"

definition file_verdict_snapshot_of :: "file_verdict \<Rightarrow> file_verdict_snapshot" where
  "file_verdict_snapshot_of v =
     (case v of Benign \<Rightarrow> VsBenign | Suspicious \<Rightarrow> VsSuspicious | Malicious \<Rightarrow> VsMalicious)"

definition scan_summary_snapshot :: "scan_summary \<Rightarrow> file_scan_summary_snapshot" where
  "scan_summary_snapshot scan =
     \<lparr>fss_verdict = file_verdict_snapshot_of (su_verdict scan), fss_threat_score = su_threat_score scan,
      fss_file_size = su_file_size scan, fss_mod_time = su_mod_time scan, fss_file_index = su_file_index scan\<rparr>"

definition key_snapshot :: "file_context_key \<Rightarrow> file_context_key_snapshot" where
  "key_snapshot key = (case key of FileIndex i \<Rightarrow> KeyFileIndex i | Path p \<Rightarrow> KeyPath p)"

definition file_context_snapshot_of :: "file_context_key \<Rightarrow> file_context \<Rightarrow> file_context_snapshot" where
  "file_context_snapshot_of key c =
     \<lparr>fcs_key = key_snapshot key, fcs_normalized_file_path = fc_normalized_file_path c,
      fcs_file_index = fc_file_index c, fcs_last_write_process = fc_last_write_process c,
      fcs_last_write_time = fc_last_write_time c, fcs_last_rename_time = fc_last_rename_time c,
      fcs_original_name = fc_original_name c, fcs_matching_flags = file_flag_snapshots (fc_matching_flags c),
      fcs_last_scan_summary = map_option scan_summary_snapshot (fc_last_scan_summary c)\<rparr>"

fun snapshot_from :: "nat \<Rightarrow> context_cache \<Rightarrow> file_context_snapshot list \<Rightarrow> file_context_snapshot list" where
  "snapshot_from limit [] snapshots = snapshots"
| "snapshot_from limit (e # es) snapshots =
     (if limit \<le> length snapshots then snapshots
      else if ce_poisoned e then snapshot_from limit es snapshots
      else snapshot_from limit es (snapshots @ [file_context_snapshot_of (ce_key e) (ce_context e)]))"

definition fsc_snapshot :: "nat \<Rightarrow> context_cache \<Rightarrow> file_context_snapshot list" where
  "fsc_snapshot limit cache = snapshot_from limit cache []"


subsection \<open>Looking up what was written\<close>

definition cache_ok :: "context_cache \<Rightarrow> bool" where
  "cache_ok cache \<longleftrightarrow> distinct (map ce_key cache) \<and> (\<forall>e \<in> set cache. \<not> ce_poisoned e)"

text \<open>The context an update starts from.\<close>

definition context_view :: "file_context_key \<Rightarrow> context_cache \<Rightarrow> file_context" where
  "context_view key cache = (case fsc_get key cache of Some c \<Rightarrow> c | None \<Rightarrow> default_file_context)"

text \<open>The interface of a store of values by key, in which a missing value is a default one.\<close>

locale keyed_store =
  fixes ok :: "'c \<Rightarrow> bool"
    and view :: "'k \<Rightarrow> 'c \<Rightarrow> 'v"
    and upd :: "'k \<Rightarrow> ('v \<Rightarrow> 'v) \<Rightarrow> 'c \<Rightarrow> 'c"
  assumes ok_upd: "ok c \<Longrightarrow> ok (upd k f c)"
    and view_same: "ok c \<Longrightarrow> view k (upd k f c) = f (view k c)"
    and view_other: "ok c \<Longrightarrow> k' \<noteq> k \<Longrightarrow> view k' (upd k f c) = view k' c"
begin

lemma view_upd: "ok c \<Longrightarrow> view k' (upd k f c) = (if k' = k then f (view k c) else view k' c)"
  by (simp add: view_same view_other)

lemma ok_fold: "ok c \<Longrightarrow> ok (fold (\<lambda>(k, f). upd k f) us c)"
  by (induction us arbitrary: c) (auto simp: ok_upd)

lemma view_fold:
  "ok c \<Longrightarrow> view k (fold (\<lambda>(k', f). upd k' f) us c) = fold (\<lambda>(k', f). if k' = k then f else id) us (view k c)"
  by (induction us arbitrary: c) (auto simp: ok_upd view_upd)

end

lemma find_entry_key: "find_entry key cache = Some e \<Longrightarrow> e \<in> set cache \<and> ce_key e = key"
  by (auto simp: find_entry_def dest: find_SomeD)

lemma find_append: "find p (xs @ ys) = (case find p xs of Some x \<Rightarrow> Some x | None \<Rightarrow> find p ys)"
  by (induction xs) auto

lemma find_update_first:
  "(\<And>x. p (f x) = p x) \<Longrightarrow> find p (update_first p f xs) = map_option f (find p xs)"
  by (induction xs) auto

lemma find_update_first_other:
  "(\<And>x. p x \<Longrightarrow> \<not> q x \<and> \<not> q (f x)) \<Longrightarrow> find q (update_first p f xs) = find q xs"
  by (induction xs) auto

lemma find_entry_get_with_default:
  "find_entry k' (get_with_default key cache) =
     (if k' = key \<and> find_entry key cache = None
      then Some \<lparr>ce_key = key, ce_context = default_file_context, ce_poisoned = False\<rparr>
      else find_entry k' cache)"
  by (auto simp: get_with_default_def find_entry_def find_append split: option.splits)

lemma cache_ok_get_with_default: "cache_ok cache \<Longrightarrow> cache_ok (get_with_default key cache)"
  by (auto simp: cache_ok_def get_with_default_def find_entry_def split: option.splits dest: find_NoneD)

lemma entry_of_view:
  assumes ok: "cache_ok cache"
  obtains e where "find_entry key (get_with_default key cache) = Some e" "\<not> ce_poisoned e" "ce_key e = key"
    "ce_context e = context_view key cache"
proof (cases "find_entry key cache")
  case None
  then show ?thesis
    by (intro that) (auto simp: find_entry_get_with_default context_view_def fsc_get_def)
next
  case (Some e)
  moreover have "\<not> ce_poisoned e" "ce_key e = key"
    using find_entry_key [OF Some] ok by (auto simp: cache_ok_def)
  ultimately show ?thesis
    by (intro that [of e]) (auto simp: find_entry_get_with_default context_view_def fsc_get_def)
qed

text \<open>Without poison, an update always takes effect and returns the new context.\<close>

lemma update_context_ok:
  assumes ok: "cache_ok cache"
  shows "update_context key f cache =
     (update_first (\<lambda>e. ce_key e = key) (\<lambda>e. e\<lparr>ce_context := f (ce_context e)\<rparr>) (get_with_default key cache),
      Some (f (context_view key cache)))"
  by (rule entry_of_view [OF ok, of key]) (simp add: update_context_def Let_def)

lemma find_entry_update_context:
  assumes ok: "cache_ok cache"
  shows "find_entry k' (fst (update_context key f cache)) =
    (if k' = key then Some \<lparr>ce_key = key, ce_context = f (context_view key cache), ce_poisoned = False\<rparr>
     else find_entry k' cache)"
proof (cases "k' = key")
  case True
  obtain e where "find_entry key (get_with_default key cache) = Some e" "\<not> ce_poisoned e" "ce_key e = key"
    "ce_context e = context_view key cache" by (rule entry_of_view [OF ok])
  then show ?thesis
    using True by (simp add: update_context_ok [OF ok]) (simp add: find_entry_def find_update_first)
next
  case False
  then show ?thesis
    using find_entry_get_with_default [of k' key cache]
    by (auto simp: update_context_ok [OF ok] find_entry_def intro!: trans [OF find_update_first_other])
qed

lemma cache_ok_update_context: "cache_ok cache \<Longrightarrow> cache_ok (fst (update_context key f cache))"
  using cache_ok_get_with_default [of cache key]
  by (auto simp: update_context_ok cache_ok_def map_update_first_key dest!: in_update_first)

interpretation contexts: keyed_store cache_ok context_view "\<lambda>key f cache. fst (update_context key f cache)"
proof
  fix c :: context_cache and k k' :: file_context_key and f :: "file_context \<Rightarrow> file_context"
  assume ok: "cache_ok c"
  show "cache_ok (fst (update_context k f c))" by (rule cache_ok_update_context [OF ok])
  show "context_view k (fst (update_context k f c)) = f (context_view k c)"
    by (simp add: context_view_def [of k "fst _"] fsc_get_def find_entry_update_context [OF ok])
  assume "k' \<noteq> k"
  then show "context_view k' (fst (update_context k f c)) = context_view k' c"
    by (simp add: context_view_def fsc_get_def find_entry_update_context [OF ok])
qed

lemma cache_ok_Nil [simp]: "cache_ok []"
  by (simp add: cache_ok_def)

lemma context_view_Nil [simp]: "context_view key [] = default_file_context"
  by (simp add: context_view_def fsc_get_def find_entry_def)

subsection \<open>What an update keeps\<close>

datatype context_write =
    Telemetry file_telemetry_update
  | Summary scan_summary
  | Flags "file_flags list"

definition context_change :: "(string \<Rightarrow> string option) \<Rightarrow> context_write \<Rightarrow> file_context \<Rightarrow> file_context" where
  "context_change canon w =
     (case w of Telemetry u \<Rightarrow> apply_telemetry canon u | Summary s \<Rightarrow> apply_scan_summary s | Flags fs \<Rightarrow> apply_flags fs)"

text \<open>The operation of the cache that carries a write out.\<close>

definition cache_write ::
  "(string \<Rightarrow> string option) \<Rightarrow> file_context_key \<times> context_write \<Rightarrow> context_cache \<Rightarrow> context_cache" where
  "cache_write canon kw cache =
     (case kw of (key, w) \<Rightarrow>
        fst (case w of
               Telemetry u \<Rightarrow> write_telemetry canon key u cache
             | Summary s \<Rightarrow> write_scan_summary key s cache
             | Flags fs \<Rightarrow> flag_file key fs cache))"

lemma cache_write_update:
  "cache_write canon (key, w) cache = fst (update_context key (context_change canon w) cache)"
  by (simp add: cache_write_def context_change_def write_telemetry_def write_scan_summary_def flag_file_def
      split: context_write.splits)

text \<open>What was known stays known; the flags that were there stay in front.\<close>

definition kept :: "'a option \<Rightarrow> 'b option \<Rightarrow> bool" where
  "kept a b \<longleftrightarrow> a = None \<or> b \<noteq> None"

definition knows_more :: "file_context \<Rightarrow> file_context \<Rightarrow> bool" where
  "knows_more c d \<longleftrightarrow>
     prefix (fc_matching_flags c) (fc_matching_flags d)
     \<and> kept (fc_file_index c) (fc_file_index d)
     \<and> kept (fc_original_name c) (fc_original_name d)
     \<and> kept (fc_normalized_file_path c) (fc_normalized_file_path d)
     \<and> kept (fc_last_write_time c) (fc_last_write_time d)
     \<and> kept (fc_last_rename_time c) (fc_last_rename_time d)
     \<and> kept (fc_last_scan_summary c) (fc_last_scan_summary d)"

lemma newer_simps [simp]: "newer None b = b" "newer (Some x) b = Some x"
  by (simp_all add: newer_def)

lemma kept_refl [simp]: "kept a a"
  by (cases a) (simp_all add: kept_def)

lemma kept_Some [simp]: "kept a (Some b)"
  by (simp add: kept_def)

lemma kept_newer [simp]: "kept a (newer b a)"
  by (simp add: newer_def split: option.split)

lemma kept_trans: "kept a b \<Longrightarrow> kept b c \<Longrightarrow> kept a c"
  by (auto simp: kept_def)

lemma knows_more_refl: "knows_more c c"
  by (simp add: knows_more_def)

lemma knows_more_trans: "knows_more a b \<Longrightarrow> knows_more b c \<Longrightarrow> knows_more a c"
  unfolding knows_more_def by (blast intro: kept_trans prefix_order.trans)

lemma knows_more_change: "knows_more c (context_change canon w c)"
  by (cases w) (simp_all add: knows_more_def context_change_def apply_telemetry_def apply_scan_summary_def
      apply_flags_def split: option.split)


subsection \<open>Histories of the cache\<close>

text \<open>The cache also forgets: on its own when it is full, or by an invalidation.\<close>

datatype cache_op = Write file_context_key context_write | Forget file_context_key

definition run_op :: "(string \<Rightarrow> string option) \<Rightarrow> cache_op \<Rightarrow> context_cache \<Rightarrow> context_cache" where
  "run_op canon op cache =
     (case op of Write key w \<Rightarrow> cache_write canon (key, w) cache | Forget key \<Rightarrow> fsc_invalidate key cache)"

definition run_ops :: "(string \<Rightarrow> string option) \<Rightarrow> cache_op list \<Rightarrow> context_cache \<Rightarrow> context_cache" where
  "run_ops canon ops = fold (run_op canon) ops"

lemma find_entry_invalidate:
  "find_entry k (fsc_invalidate key cache) = (if k = key then None else find_entry k cache)"
proof (cases "k = key")
  case True
  then show ?thesis by (auto simp: find_entry_def fsc_invalidate_def find_None_iff)
next
  case False
  then show ?thesis unfolding find_entry_def fsc_invalidate_def by (induction cache) auto
qed

lemma cache_ok_run_op: "cache_ok cache \<Longrightarrow> cache_ok (run_op canon op cache)"
proof (cases op)
  case (Forget key)
  assume "cache_ok cache"
  then show ?thesis by (simp add: Forget run_op_def fsc_invalidate_def cache_ok_def distinct_map_filter)
qed (simp add: run_op_def cache_write_update cache_ok_update_context)

lemma context_view_run_op:
  "cache_ok cache \<Longrightarrow> context_view k (run_op canon op cache) =
     (case op of
        Write key w \<Rightarrow> if k = key then context_change canon w (context_view k cache) else context_view k cache
      | Forget key \<Rightarrow> if k = key then default_file_context else context_view k cache)"
  by (cases op)
    (auto simp: run_op_def cache_write_update contexts.view_upd,
     auto simp: context_view_def fsc_get_def find_entry_invalidate)

lemma cache_ok_run_ops: "cache_ok cache \<Longrightarrow> cache_ok (run_ops canon ops cache)"
  unfolding run_ops_def by (induction ops arbitrary: cache) (auto simp: cache_ok_run_op)

lemma fsc_get_cache_write:
  "cache_ok cache \<Longrightarrow> fsc_get k (cache_write canon (k', w) cache) =
     (if k = k' then Some (context_change canon w (context_view k' cache)) else fsc_get k cache)"
  by (simp add: cache_write_update fsc_get_def find_entry_update_context)

lemma cache_ok_cache_write: "cache_ok cache \<Longrightarrow> cache_ok (cache_write canon kw cache)"
  by (cases kw) (simp add: cache_write_update cache_ok_update_context)

lemma cache_ok_fold_writes: "cache_ok cache \<Longrightarrow> cache_ok (fold (cache_write canon) ws cache)"
  by (induction ws arbitrary: cache) (simp_all add: cache_ok_cache_write)

lemma fsc_get_fold_writes:
  "cache_ok cache \<Longrightarrow>
     (fsc_get k (fold (cache_write canon) ws cache) = None) = (fsc_get k cache = None \<and> k \<notin> fst ` set ws)"
  by (induction ws arbitrary: cache) (auto simp: cache_ok_cache_write fsc_get_cache_write split: if_splits)

lemma view_fold_writes:
  assumes "cache_ok cache"
  shows "context_view k (fold (cache_write canon) ws cache) =
     fold (\<lambda>(k', w). if k' = k then context_change canon w else id) ws (context_view k cache)"
proof -
  have "fold (cache_write canon) ws cache =
      fold (\<lambda>(key, f) cache. fst (update_context key f cache))
        (map (\<lambda>(k, w). (k, context_change canon w)) ws) cache"
    unfolding fold_map by (rule fold_cong) (auto simp: cache_write_update fun_eq_iff)
  moreover have "fold (\<lambda>(k', f). if k' = k then f else id) (map (\<lambda>(k, w). (k, context_change canon w)) ws)
      = fold (\<lambda>(k', w). if k' = k then context_change canon w else id) ws"
    unfolding fold_map by (rule arg_cong [where f = "\<lambda>g. fold g ws"]) (auto simp: fun_eq_iff)
  ultimately show ?thesis using contexts.view_fold [OF assms] by simp
qed

lemma knows_more_run_ops:
  "cache_ok cache \<Longrightarrow> Forget k \<notin> set ops \<Longrightarrow>
     knows_more (context_view k cache) (context_view k (run_ops canon ops cache))"
proof (induction ops arbitrary: cache)
  case Nil
  then show ?case by (simp add: run_ops_def knows_more_refl)
next
  case (Cons op ops)
  have "knows_more (context_view k cache) (context_view k (run_op canon op cache))"
    using Cons.prems by (auto simp: context_view_run_op knows_more_refl knows_more_change split: cache_op.split)
  moreover have "knows_more (context_view k (run_op canon op cache))
      (context_view k (run_ops canon ops (run_op canon op cache)))"
    using Cons by (simp add: cache_ok_run_op)
  ultimately show ?case by (auto simp: run_ops_def intro: knows_more_trans)
qed

subsection \<open>Snapshots\<close>

lemma flag_snapshots_from_correct:
  "distinct acc \<Longrightarrow> distinct (flag_snapshots_from acc flags)
     \<and> set (flag_snapshots_from acc flags) = set acc \<union> {s. Some s \<in> file_flag_snapshot_of ` set flags}"
  by (induction acc flags rule: flag_snapshots_from.induct) (auto split: option.splits simp: image_iff)

lemma file_flag_snapshot_of_inj:
  "file_flag_snapshot_of f = Some s \<Longrightarrow> file_flag_snapshot_of g = Some s \<Longrightarrow> f = g"
  by (cases f; cases g) (auto simp: file_flag_snapshot_of_def)

lemma distinct_file_flag_snapshots: "distinct (file_flag_snapshots fs)"
  and set_file_flag_snapshots: "set (file_flag_snapshots fs) = {s. Some s \<in> file_flag_snapshot_of ` set fs}"
  using flag_snapshots_from_correct [of "[]" fs] by (simp_all add: file_flag_snapshots_def)

lemma flag_in_snapshots:
  assumes f: "file_flag_snapshot_of f = Some s"
  shows "s \<in> set (file_flag_snapshots fs) \<longleftrightarrow> f \<in> set fs"
proof -
  have "Some s \<in> file_flag_snapshot_of ` set fs \<longleftrightarrow> f \<in> set fs"
  proof
    assume "Some s \<in> file_flag_snapshot_of ` set fs"
    then obtain g where "g \<in> set fs" "file_flag_snapshot_of g = Some s" by auto
    then show "f \<in> set fs" using file_flag_snapshot_of_inj [OF f] by simp
  next
    assume "f \<in> set fs"
    then show "Some s \<in> file_flag_snapshot_of ` set fs" using f by (intro image_eqI [of _ _ f]) simp_all
  qed
  then show ?thesis by (simp add: set_file_flag_snapshots)
qed

lemma fcs_matching_flags_snapshot [simp]:
  "fcs_matching_flags (file_context_snapshot_of k c) = file_flag_snapshots (fc_matching_flags c)"
  by (simp add: file_context_snapshot_of_def)

lemma snapshot_from_take:
  "length acc \<le> limit \<Longrightarrow> snapshot_from limit cache acc = acc @ take (limit - length acc)
     (map (\<lambda>e. file_context_snapshot_of (ce_key e) (ce_context e)) (filter (\<lambda>e. \<not> ce_poisoned e) cache))"
proof (induction cache arbitrary: acc)
  case Nil
  then show ?case by simp
next
  case (Cons e es)
  show ?case
  proof (cases "limit \<le> length acc \<or> ce_poisoned e")
    case True
    then show ?thesis using Cons by auto
  next
    case False
    then have "limit - length acc = Suc (limit - Suc (length acc))" by (simp add: Suc_diff_Suc)
    then show ?thesis using False Cons.IH [of "acc @ [file_context_snapshot_of (ce_key e) (ce_context e)]"] by simp
  qed
qed

subsection \<open>Properties\<close>




text \<open>
  C22. A snapshot for the client is the first entries that can be read, at most as many as asked for; it
  shows each flag of a context exactly once, and no flag the context does not have.
\<close>

theorem snapshot_faithful:
  "fsc_snapshot limit cache = take limit
     (map (\<lambda>e. file_context_snapshot_of (ce_key e) (ce_context e)) (filter (\<lambda>e. \<not> ce_poisoned e) cache))
   \<and> distinct (fcs_matching_flags (file_context_snapshot_of k c))
   \<and> (file_flag_snapshot_of f = Some s \<and> f \<in> set (fc_matching_flags c))
     = (file_flag_snapshot_of f = Some s \<and> s \<in> set (fcs_matching_flags (file_context_snapshot_of k c)))"
proof -
  have flag: "(file_flag_snapshot_of f = Some s \<and> f \<in> set fs)
      = (file_flag_snapshot_of f = Some s \<and> s \<in> set (file_flag_snapshots fs))" for fs
    using flag_in_snapshots by blast
  show ?thesis
    unfolding fcs_matching_flags_snapshot
    by (intro conjI distinct_file_flag_snapshots flag)
      (simp add: fsc_snapshot_def snapshot_from_take)
qed

end
