(* ===== verification/Fs_Wire.thy ===== *)
theory Fs_Wire
  imports Shared_Api
begin

text \<open>
  The bytes of a \<open>GalateaFSEvent\<close> and of the filter message that carries it. The filter copies the
  structure byte by byte into the payload and the agent copies it back, so what crosses the port is
  the \<open>#[repr(C)]\<close> layout: little-endian fields at the offsets of \<open>repr_c_size\<close>, with padding
  and the unused bytes of the enum holding anything.
\<close>

subsection \<open>Little-endian numbers\<close>

fun le_bytes :: "nat \<Rightarrow> nat \<Rightarrow> u8 list" where
  "le_bytes 0 n = []"
| "le_bytes (Suc k) n = of_nat (n mod 256) # le_bytes k (n div 256)"

fun le_nat :: "u8 list \<Rightarrow> nat" where
  "le_nat [] = 0"
| "le_nat (b # bs) = unat b + 256 * le_nat bs"

lemma length_le_bytes [simp]: "length (le_bytes k n) = k"
  by (induction k arbitrary: n) simp_all

lemma le_nat_le_bytes: "le_nat (le_bytes k n) = n mod 256 ^ k"
proof (induction k arbitrary: n)
  case 0
  then show ?case by simp
next
  case (Suc k)
  have "unat (of_nat (n mod 256) :: u8) = n mod 256"
    by (simp add: unat_of_nat take_bit_nat_eq_self)
  moreover have "n mod 256 ^ Suc k = n mod 256 + 256 * (n div 256 mod 256 ^ k)"
    by (simp add: mod_mult2_eq)
  ultimately show ?case by (simp add: Suc.IH)
qed

definition u64_bytes :: "u64 \<Rightarrow> u8 list" where "u64_bytes w = le_bytes 8 (unat w)"
definition u32_bytes :: "u32 \<Rightarrow> u8 list" where "u32_bytes w = le_bytes 4 (unat w)"
definition u16_bytes :: "u16 \<Rightarrow> u8 list" where "u16_bytes w = le_bytes 2 (unat w)"

definition path_bytes :: "u16 list \<Rightarrow> u8 list" where
  "path_bytes us = concat (map u16_bytes us)"

text \<open>The code units of a path array, two bytes each.\<close>

fun path_units :: "u8 list \<Rightarrow> u16 list" where
  "path_units (a # b # bs) = of_nat (le_nat [a, b]) # path_units bs"
| "path_units _ = []"

lemma unat_bound: "unat (w :: 'a::len word) < 2 ^ LENGTH('a)"
  by (rule unsigned_less)

lemma le_nat_u64 [simp]: "of_nat (le_nat (u64_bytes w)) = w"
proof -
  have "unat w mod 256 ^ 8 = unat w" using unat_bound [of w] by simp
  then show ?thesis by (simp add: u64_bytes_def le_nat_le_bytes)
qed

lemma le_nat_u32 [simp]: "of_nat (le_nat (u32_bytes w)) = w"
proof -
  have "unat w mod 256 ^ 4 = unat w" using unat_bound [of w] by simp
  then show ?thesis by (simp add: u32_bytes_def le_nat_le_bytes)
qed

lemma le_nat_u32_nat [simp]: "le_nat (u32_bytes w) = unat w"
proof -
  have "unat w mod 256 ^ 4 = unat w" using unat_bound [of w] by simp
  then show ?thesis by (simp add: u32_bytes_def le_nat_le_bytes)
qed

lemma u16_bytes_pair: "\<exists>a b. u16_bytes w = [a, b] \<and> of_nat (le_nat [a, b]) = w"
proof -
  have "unat w mod 256 ^ 2 = unat w" using unat_bound [of w] by simp
  then have "of_nat (le_nat (u16_bytes w)) = w" by (simp add: u16_bytes_def le_nat_le_bytes)
  moreover have "\<exists>a b. u16_bytes w = [a, b]" by (simp add: u16_bytes_def numeral_2_eq_2)
  ultimately show ?thesis by auto
qed

lemma path_units_bytes [simp]: "path_units (path_bytes us) = us"
proof (induction us)
  case Nil
  then show ?case by (simp add: path_bytes_def)
next
  case (Cons u us)
  obtain a b where "u16_bytes u = [a, b]" "of_nat (le_nat [a, b]) = u" using u16_bytes_pair by blast
  with Cons show ?case by (simp add: path_bytes_def del: le_nat.simps)
qed

lemma length_bytes [simp]:
  "length (u64_bytes a) = 8" "length (u32_bytes b) = 4" "length (u16_bytes c) = 2"
  by (simp_all add: u64_bytes_def u32_bytes_def u16_bytes_def)

lemma length_path_bytes [simp]: "length (path_bytes us) = 2 * length us"
  by (induction us) (simp_all add: path_bytes_def)

subsection \<open>The event\<close>

definition event_tag :: "fs_event_type \<Rightarrow> u32" where
  "event_tag t = (case t of FileOpen \<Rightarrow> 0 | FileCreate \<Rightarrow> 1 | FileWrite \<Rightarrow> 2 | FileModify _ \<Rightarrow> 3 | FileDelete \<Rightarrow> 4)"

text \<open>
  \<open>pad\<close> gives the bytes the structure does not define: 528 behind the tag of an event without
  fields, and 4 before the file index.
\<close>

definition event_type_bytes :: "u8 list \<Rightarrow> fs_event_type \<Rightarrow> u8 list" where
  "event_type_bytes pad t =
     u32_bytes (event_tag t) @
     (case t of
        FileModify (Rename meta) \<Rightarrow> u32_bytes 0 @ u32_bytes (rm_flags meta) @ path_bytes (rm_new_file_path meta)
      | _ \<Rightarrow> take 528 pad)"

definition fs_event_bytes :: "u8 list \<Rightarrow> galatea_fs_event \<Rightarrow> u8 list" where
  "fs_event_bytes pad e =
     u64_bytes (fe_process_id e) @ u64_bytes (fe_process_start_key e) @ u64_bytes (fe_request_id e)
     @ event_type_bytes pad (fe_event_type e) @ path_bytes (fe_file_path e) @ take 4 pad
     @ u64_bytes (fe_file_index e)"

definition field :: "nat \<Rightarrow> nat \<Rightarrow> 'a list \<Rightarrow> 'a list" where
  "field off len bs = take len (drop off bs)"

definition read_num :: "nat \<Rightarrow> nat \<Rightarrow> u8 list \<Rightarrow> nat" where
  "read_num off len bs = le_nat (field off len bs)"

text \<open>Reading an enum whose tag is none of its variants is undefined behaviour: \<open>None\<close>.\<close>

definition read_event_type :: "u8 list \<Rightarrow> fs_event_type option" where
  "read_event_type bs =
     (let tag = read_num 24 4 bs in
      if tag = 0 then Some FileOpen
      else if tag = 1 then Some FileCreate
      else if tag = 2 then Some FileWrite
      else if tag = 3 then
        (if read_num 28 4 bs = 0
         then Some (FileModify (Rename \<lparr>rm_flags = of_nat (read_num 32 4 bs),
                rm_new_file_path = path_units (field 36 520 bs)\<rparr>))
         else None)
      else if tag = 4 then Some FileDelete
      else None)"

definition read_fs_event :: "u8 list \<Rightarrow> galatea_fs_event option" where
  "read_fs_event bs =
     (case read_event_type bs of
        None \<Rightarrow> None
      | Some t \<Rightarrow> Some \<lparr>fe_process_id = of_nat (read_num 0 8 bs), fe_process_start_key = of_nat (read_num 8 8 bs),
          fe_request_id = of_nat (read_num 16 8 bs), fe_event_type = t,
          fe_file_path = path_units (field 556 520 bs), fe_file_index = of_nat (read_num 1080 8 bs)\<rparr>)"

definition fs_event_ok :: "galatea_fs_event \<Rightarrow> bool" where
  "fs_event_ok e \<longleftrightarrow> length (fe_file_path e) = PATH_LEN
     \<and> (case fe_event_type e of FileModify (Rename m) \<Rightarrow> length (rm_new_file_path m) = PATH_LEN | _ \<Rightarrow> True)"

lemma field_skip: "length a \<le> off \<Longrightarrow> field off len (a @ b) = field (off - length a) len b"
  by (simp add: field_def)

lemma field_here: "length a = len \<Longrightarrow> field 0 len (a @ b) = a"
  by (simp add: field_def)

lemma field_all: "length a = len \<Longrightarrow> field 0 len a = a"
  by (simp add: field_def)

lemma length_event_type_bytes:
  assumes "fs_event_ok e" and "528 \<le> length pad"
  shows "length (event_type_bytes pad (fe_event_type e)) = 532"
  using assms by (auto simp: event_type_bytes_def fs_event_ok_def PATH_LEN_def
      split: fs_event_type.splits fs_mod_operation.splits)

lemma length_fs_event_bytes:
  assumes "fs_event_ok e" and "528 \<le> length pad"
  shows "length (fs_event_bytes pad e) = size_of_fs_event"
  using assms length_event_type_bytes [OF assms]
  by (simp add: fs_event_bytes_def fs_event_ok_def PATH_LEN_def)

lemma read_event_type_bytes:
  assumes ok: "fs_event_ok e" and pad: "528 \<le> length pad"
  shows "read_event_type (fs_event_bytes pad e @ rest) = Some (fe_event_type e)"
proof -
  obtain h where h: "length h = 24" "fs_event_bytes pad e @ rest
      = h @ event_type_bytes pad (fe_event_type e) @ (path_bytes (fe_file_path e) @ take 4 pad
          @ u64_bytes (fe_file_index e) @ rest)"
    by (rule that [of "u64_bytes (fe_process_id e) @ u64_bytes (fe_process_start_key e) @ u64_bytes (fe_request_id e)"])
      (simp_all add: fs_event_bytes_def)
  have tag: "read_num 24 4 (fs_event_bytes pad e @ rest) = unat (event_tag (fe_event_type e))"
    by (simp add: read_num_def h field_skip event_type_bytes_def field_here)
  show ?thesis
  proof (cases "fe_event_type e")
    case (FileModify op)
    obtain m where m: "op = Rename m" by (cases op)
    have len: "length (rm_new_file_path m) = 260"
      using ok FileModify m by (simp add: fs_event_ok_def PATH_LEN_def)
    have "read_num 28 4 (fs_event_bytes pad e @ rest) = 0"
      "read_num 32 4 (fs_event_bytes pad e @ rest) = unat (rm_flags m)"
      "field 36 520 (fs_event_bytes pad e @ rest) = path_bytes (rm_new_file_path m)"
      by (simp_all add: read_num_def h field_skip event_type_bytes_def FileModify m field_here len)
    then show ?thesis
      by (simp add: read_event_type_def tag FileModify m event_tag_def)
  qed (simp_all add: read_event_type_def tag event_tag_def)
qed

lemma read_fs_event_bytes:
  assumes ok: "fs_event_ok e" and pad: "528 \<le> length pad"
  shows "read_fs_event (fs_event_bytes pad e @ rest) = Some e"
proof -
  have t: "length (event_type_bytes pad (fe_event_type e)) = 532" by (rule length_event_type_bytes [OF ok pad])
  have p: "length (path_bytes (fe_file_path e)) = 520" using ok by (simp add: fs_event_ok_def PATH_LEN_def)
  have q: "length (take 4 pad) = 4" using pad by simp
  have fields: "field 0 8 (fs_event_bytes pad e @ rest) = u64_bytes (fe_process_id e)"
    "field 8 8 (fs_event_bytes pad e @ rest) = u64_bytes (fe_process_start_key e)"
    "field 16 8 (fs_event_bytes pad e @ rest) = u64_bytes (fe_request_id e)"
    "field 556 520 (fs_event_bytes pad e @ rest) = path_bytes (fe_file_path e)"
    "field 1080 8 (fs_event_bytes pad e @ rest) = u64_bytes (fe_file_index e)"
    using t p q by (simp_all add: fs_event_bytes_def field_skip field_here)
  show ?thesis
    using read_event_type_bytes [OF ok pad, of rest] by (simp add: read_fs_event_def read_num_def fields)
qed

subsection \<open>The message\<close>

text \<open>
  The agent's side of the port: a zeroed structure, overwritten by as many bytes as the payload
  says it has, at most the size of the structure.
\<close>

definition receive_fs_event :: "filter_message \<Rightarrow> galatea_fs_event option" where
  "receive_fs_event msg =
     (let copy_len = min (unat (fm_payload_len msg)) size_of_fs_event
      in read_fs_event (take copy_len (fm_payload msg) @ replicate (size_of_fs_event - copy_len) 0))"

end
