(* ===== verification/Fs_Telemetry.thy ===== *)
theory Fs_Telemetry
  imports File_Context Fs_Wire
begin

text \<open>
  The agent's listener on the filter port (\<open>kf_listen_for_messages\<close> in
  \<open>communication/driver/io.rs\<close>): what each telemetry message does to the file context cache.
\<close>

subsection \<open>One event\<close>

text \<open>\<open>String::from_utf16_lossy\<close> of the code units before the first zero, or of all 260.\<close>

definition event_path :: "u16 list \<Rightarrow> string" where
  "event_path units = from_utf16_lossy (until_nul units)"

definition event_file_index :: "galatea_fs_event \<Rightarrow> u64 option" where
  "event_file_index e = (if fe_file_index e \<noteq> 0 then Some (fe_file_index e) else None)"

text \<open>The update of a create or write event, whose first flag is given.\<close>

definition change_update ::
  "instant \<Rightarrow> file_flags \<Rightarrow> string \<Rightarrow> u64 option \<Rightarrow> file_telemetry_update" where
  "change_update now flag normalized_path file_index =
     \<lparr>fu_normalized_file_path = Some normalized_path, fu_file_index = file_index,
      fu_last_write_process = None, fu_last_write_time = Some now, fu_last_rename_time = None,
      fu_original_name = None, fu_matching_flags = Some (flag # get_location_flags normalized_path)\<rparr>"

definition rename_update ::
  "instant \<Rightarrow> string \<Rightarrow> string \<Rightarrow> u64 option \<Rightarrow> file_telemetry_update" where
  "rename_update now normalized_path normalized_new_path file_index =
     \<lparr>fu_normalized_file_path = Some normalized_new_path, fu_file_index = file_index,
      fu_last_write_process = None, fu_last_write_time = None, fu_last_rename_time = Some now,
      fu_original_name = Some normalized_path,
      fu_matching_flags = get_rename_flags normalized_path normalized_new_path\<rparr>"

definition handle_fs_event ::
  "(string \<Rightarrow> string option) \<Rightarrow> instant \<Rightarrow> galatea_fs_event \<Rightarrow> context_cache \<Rightarrow> context_cache" where
  "handle_fs_event canon now e cache =
     (let path = event_path (fe_file_path e);
          file_index = event_file_index e;
          normalized_path = fsc_canonicalize_path canon path;
          key = from_identity canon normalized_path file_index in
      case fe_event_type e of
        FileOpen \<Rightarrow> cache
      | FileCreate \<Rightarrow>
          fst (write_telemetry canon key (change_update now FileCreateSuccess normalized_path file_index) cache)
      | FileWrite \<Rightarrow>
          fst (write_telemetry canon key (change_update now FileWriteSuccess normalized_path file_index) cache)
      | FileModify (Rename meta) \<Rightarrow>
          (let normalized_new_path = fsc_canonicalize_path canon (event_path (rm_new_file_path meta)) in
           fst (write_telemetry canon key
             (rename_update now normalized_path normalized_new_path file_index) cache))
      | FileDelete \<Rightarrow> cache)"

subsection \<open>The listener\<close>

text \<open>\<open>None\<close>: the bytes are no \<open>GalateaFSEvent\<close>, and reading them is undefined.\<close>

definition handle_filter_message ::
  "(string \<Rightarrow> string option) \<Rightarrow> instant \<Rightarrow> filter_message \<Rightarrow> context_cache \<Rightarrow> context_cache option" where
  "handle_filter_message canon now msg cache =
     (case fm_kind msg of
        FileTelemetry \<Rightarrow>
          (case receive_fs_event msg of
             None \<Rightarrow> None
           | Some e \<Rightarrow> Some (handle_fs_event canon now e cache))
      | Raw \<Rightarrow> Some cache)"

text \<open>
  One turn of the loop: the flag \<open>running\<close> where the loop tests it, what \<open>FilterGetMessage\<close>
  gave and when, and the flag again where a failure tests it.
\<close>

datatype port_read = Message filter_message instant | Read_Error string

datatype listen_end = Listening | Shut_Down | Stopped string | Undefined

fun kf_listen_for_messages ::
  "(string \<Rightarrow> string option) \<Rightarrow> (bool \<times> port_read \<times> bool) list \<Rightarrow> context_cache \<Rightarrow> context_cache \<times> listen_end" where
  "kf_listen_for_messages canon [] cache = (cache, Listening)"
| "kf_listen_for_messages canon ((running, r, still_running) # turns) cache =
     (if \<not> running then (cache, Shut_Down)
      else case r of
        Read_Error e \<Rightarrow> (cache, if still_running then Stopped e else Shut_Down)
      | Message msg now \<Rightarrow>
          (case handle_filter_message canon now msg cache of
             None \<Rightarrow> (cache, Undefined)
           | Some cache' \<Rightarrow> kf_listen_for_messages canon turns cache'))"

subsection \<open>Events as writes to the cache\<close>

text \<open>Every event is at most one write, under the key of the path it names.\<close>

definition event_key :: "(string \<Rightarrow> string option) \<Rightarrow> galatea_fs_event \<Rightarrow> file_context_key" where
  "event_key canon e =
     from_identity canon (fsc_canonicalize_path canon (event_path (fe_file_path e))) (event_file_index e)"

definition event_update ::
  "(string \<Rightarrow> string option) \<Rightarrow> instant \<Rightarrow> galatea_fs_event \<Rightarrow> file_telemetry_update option" where
  "event_update canon now e =
     (let normalized_path = fsc_canonicalize_path canon (event_path (fe_file_path e)) in
      case fe_event_type e of
        FileCreate \<Rightarrow> Some (change_update now FileCreateSuccess normalized_path (event_file_index e))
      | FileWrite \<Rightarrow> Some (change_update now FileWriteSuccess normalized_path (event_file_index e))
      | FileModify (Rename meta) \<Rightarrow> Some (rename_update now normalized_path
          (fsc_canonicalize_path canon (event_path (rm_new_file_path meta))) (event_file_index e))
      | _ \<Rightarrow> None)"

lemma handle_fs_event_write:
  "handle_fs_event canon now e cache =
     (case event_update canon now e of
        None \<Rightarrow> cache
      | Some u \<Rightarrow> fst (update_context (event_key canon e) (apply_telemetry canon u) cache))"
  by (simp add: handle_fs_event_def event_update_def event_key_def write_telemetry_def Let_def
      split: fs_event_type.split fs_mod_operation.split)

lemma cache_ok_handle_fs_event: "cache_ok cache \<Longrightarrow> cache_ok (handle_fs_event canon now e cache)"
  by (simp add: handle_fs_event_write cache_ok_update_context split: option.split)

lemma context_view_handle_fs_event:
  "cache_ok cache \<Longrightarrow> context_view k (handle_fs_event canon now e cache) =
     (case event_update canon now e of
        None \<Rightarrow> context_view k cache
      | Some u \<Rightarrow> if k = event_key canon e then apply_telemetry canon u (context_view k cache)
                  else context_view k cache)"
  by (simp add: handle_fs_event_write contexts.view_upd split: option.split)


subsection \<open>Sequences of events\<close>

definition handle_events ::
  "(string \<Rightarrow> string option) \<Rightarrow> (instant \<times> galatea_fs_event) list \<Rightarrow> context_cache \<Rightarrow> context_cache" where
  "handle_events canon es cache = fold (\<lambda>(now, e). handle_fs_event canon now e) es cache"

lemma handle_events_Cons [simp]:
  "handle_events canon ((now, e) # es) cache = handle_events canon es (handle_fs_event canon now e cache)"
  by (simp add: handle_events_def)

lemma handle_events_Nil [simp]: "handle_events canon [] cache = cache"
  by (simp add: handle_events_def)

text \<open>The listener hands every telemetry message on, as long as it runs.\<close>

lemma listener_handles_messages:
  "(\<And>m now e. (m, now, e) \<in> set ms \<Longrightarrow> fm_kind m = FileTelemetry \<and> receive_fs_event m = Some e) \<Longrightarrow>
     kf_listen_for_messages canon (map (\<lambda>(m, now, e). (True, Message m now, b)) ms) cache
       = (handle_events canon (map snd ms) cache, Listening)"
proof (induction ms arbitrary: cache)
  case Nil
  then show ?case by simp
next
  case (Cons x ms)
  obtain m now e where x: "x = (m, now, e)" by (cases x) auto
  have "fm_kind m = FileTelemetry" "receive_fs_event m = Some e" using Cons.prems x by auto
  then have "handle_filter_message canon now m cache = Some (handle_fs_event canon now e cache)"
    by (simp add: handle_filter_message_def)
  moreover have "kf_listen_for_messages canon (map (\<lambda>(m, now, e). (True, Message m now, b)) ms)
      (handle_fs_event canon now e cache)
    = (handle_events canon (map snd ms) (handle_fs_event canon now e cache), Listening)"
    by (rule Cons.IH) (use Cons.prems in auto)
  ultimately show ?case using x by simp
qed

lemma event_path_fill:
  assumes "is_ascii p" and "CHR 0x00 \<notin> set p"
  shows "event_path (fill_path (wide p)) = take 259 p"
proof -
  have "u \<noteq> 0" if "u \<in> set (wide p)" for u
  proof
    assume "u = 0"
    with that obtain c where c: "c \<in> set p" "(of_nat (byte_of c) :: u16) = 0" by (auto simp: wide_def)
    then have "byte_of c = 0" using unat_wide_char [of c] by simp
    then have "byte_of c = byte_of (CHR 0x00)" by simp
    then have "c = CHR 0x00" by (simp only: of_char_eq_iff)
    with c assms(2) show False by simp
  qed
  then have "until_nul (fill_path (wide p)) = take 259 (wide p)" by (rule until_nul_fill_path)
  also have "\<dots> = wide (take 259 p)" by (simp add: wide_def take_map)
  finally show ?thesis
    using from_utf16_lossy_wide [of "take 259 p"] assms(1)
    by (auto simp: event_path_def is_ascii_def dest: in_set_takeD)
qed

subsection \<open>Properties\<close>

text \<open>The name of a file after its canonicalisation, as the handler computes it.\<close>

definition event_name :: "(string \<Rightarrow> string option) \<Rightarrow> u16 list \<Rightarrow> string" where
  "event_name canon units = fsc_canonicalize_path canon (event_path units)"

text \<open>
  A file is renamed and then written under its new name. With a file index its context carries over:
  it knows the old name and the rename flags next to the flags of the write. Without one (the filter
  sends zero, on volumes that have none) the rename went to the context of the old name, and the one
  of the new name learns nothing of it.
\<close>

theorem rename_history:
  assumes ok: "cache_ok cache"
    and ren: "fe_event_type r = FileModify (Rename meta)" and wr: "fe_event_type w = FileWrite"
    and same: "fe_file_index w = fe_file_index r"
    and path: "event_name canon (fe_file_path w) = event_name canon (rm_new_file_path meta)"
    and differ: "event_key canon r = event_key canon w \<longleftrightarrow> fe_file_index r \<noteq> 0"
  shows "let before = context_view (event_key canon w) cache;
             after = context_view (event_key canon w) (handle_events canon [(t1, r), (t2, w)] cache) in
         if fe_file_index r \<noteq> 0
         then fc_original_name after = Some (event_name canon (fe_file_path r))
            \<and> fc_last_rename_time after = Some t1
            \<and> fc_matching_flags after = fc_matching_flags before
                @ (case get_rename_flags (event_name canon (fe_file_path r)) (event_name canon (fe_file_path w)) of
                     None \<Rightarrow> [] | Some fs \<Rightarrow> fs)
                @ FileWriteSuccess # get_location_flags (event_name canon (fe_file_path w))
         else fc_original_name after = fc_original_name before
            \<and> fc_last_rename_time after = fc_last_rename_time before
            \<and> fc_matching_flags after = fc_matching_flags before
                @ FileWriteSuccess # get_location_flags (event_name canon (fe_file_path w))"
proof -
  have w: "event_update canon now w = Some (change_update now FileWriteSuccess
      (event_name canon (fe_file_path w)) (event_file_index w))" for now
    by (simp add: event_update_def wr event_name_def)
  have r: "event_update canon now r = Some (rename_update now (event_name canon (fe_file_path r))
      (event_name canon (fe_file_path w)) (event_file_index r))" for now
    using path by (simp add: event_update_def ren event_name_def)
  show ?thesis
    using differ
    by (cases "fe_file_index r = 0")
      (auto simp: context_view_handle_fs_event cache_ok_handle_fs_event ok w r Let_def apply_telemetry_def
        change_update_def rename_update_def split: option.split)
qed

definition sample_rename :: galatea_fs_event where
  "sample_rename =
     \<lparr>fe_process_id = 8, fe_process_start_key = 1, fe_request_id = 0,
      fe_event_type = FileModify (Rename \<lparr>rm_flags = 0, rm_new_file_path = fill_path (wide ''b.exe'')\<rparr>),
      fe_file_path = fill_path (wide ''a.txt''), fe_file_index = 0\<rparr>"

definition sample_write :: galatea_fs_event where
  "sample_write =
     \<lparr>fe_process_id = 8, fe_process_start_key = 1, fe_request_id = 0, fe_event_type = FileWrite,
      fe_file_path = fill_path (wide ''b.exe''), fe_file_index = 0\<rparr>"

lemma event_path_sample:
  "event_path (fill_path (wide ''a.txt'')) = ''a.txt''"
  "event_path (fill_path (wide ''b.exe'')) = ''b.exe''"
  using event_path_fill [of "''a.txt''"] event_path_fill [of "''b.exe''"]
  by (simp_all add: is_ascii_def del: wide_Cons)

lemma event_name_sample:
  "event_name Some (fill_path (wide ''a.txt'')) = ''a.txt''"
  "event_name Some (fill_path (wide ''b.exe'')) = ''b.exe''"
  by (simp_all add: event_name_def fsc_canonicalize_path_def event_path_sample del: wide_Cons)

theorem rename_history_witness:
  "fc_original_name (context_view (event_key Some sample_write)
     (handle_events Some [(5, sample_rename), (9, sample_write)] [])) = None
   \<and> fc_matching_flags (context_view (event_key Some sample_write)
     (handle_events Some [(5, sample_rename), (9, sample_write)] [])) = [FileWriteSuccess]"
proof -
  have "event_key Some sample_rename \<noteq> event_key Some sample_write"
    by (simp add: event_key_def event_file_index_def from_identity_def sample_rename_def sample_write_def
        fsc_canonicalize_path_def event_path_sample del: wide_Cons)
  moreover have "get_location_flags ''b.exe'' = []" by code_simp
  ultimately show ?thesis
    using rename_history [of "[]" sample_rename
        "\<lparr>rm_flags = 0, rm_new_file_path = fill_path (wide ''b.exe'')\<rparr>" sample_write Some 5 9]
    by (simp add: sample_rename_def sample_write_def default_file_context_def event_name_sample Let_def del: wide_Cons)
qed

subsection \<open>The size of a context\<close>

lemma write_events_flags:
  assumes wr: "fe_event_type w = FileWrite"
  shows "cache_ok cache \<Longrightarrow>
     fc_matching_flags (context_view (event_key canon w) (handle_events canon (replicate n (t, w)) cache))
       = fc_matching_flags (context_view (event_key canon w) cache)
         @ concat (replicate n (FileWriteSuccess # get_location_flags (event_name canon (fe_file_path w))))"
proof (induction n arbitrary: cache)
  case 0
  then show ?case by simp
next
  case (Suc n)
  have "event_update canon t w = Some (change_update t FileWriteSuccess
      (event_name canon (fe_file_path w)) (event_file_index w))"
    by (simp add: event_update_def wr event_name_def)
  then show ?case
    using Suc by (simp add: cache_ok_handle_fs_event context_view_handle_fs_event apply_telemetry_def change_update_def)
qed

lemma card_snapshots:
  "finite {SnapFileCreateSuccess, SnapFileWriteSuccess, SnapWhiteListed,
      SnapBlackListed, SnapStaticScanMalicious, SnapStaticScanSuspicious, SnapStaticScanBeneign,
      SnapInAutoStartLocation, SnapInTempLocation, SnapRenamedToExecutable}
   \<and> card {SnapFileCreateSuccess, SnapFileWriteSuccess, SnapWhiteListed,
      SnapBlackListed, SnapStaticScanMalicious, SnapStaticScanSuspicious, SnapStaticScanBeneign,
      SnapInAutoStartLocation, SnapInTempLocation, SnapRenamedToExecutable} \<le> 10"
  by simp

lemma length_file_flag_snapshots: "length (file_flag_snapshots fs) \<le> 10"
proof -
  have "(UNIV :: file_flag_snapshot set) = {SnapFileCreateSuccess, SnapFileWriteSuccess, SnapWhiteListed,
      SnapBlackListed, SnapStaticScanMalicious, SnapStaticScanSuspicious, SnapStaticScanBeneign,
      SnapInAutoStartLocation, SnapInTempLocation, SnapRenamedToExecutable}"
    using file_flag_snapshot.exhaust by blast
  then have univ: "finite (UNIV :: file_flag_snapshot set) \<and> card (UNIV :: file_flag_snapshot set) \<le> 10"
    by (metis (no_types, lifting) card_snapshots)
  have "length (file_flag_snapshots fs) = card (set (file_flag_snapshots fs))"
    using distinct_file_flag_snapshots by (simp add: distinct_card)
  also have "\<dots> \<le> card (UNIV :: file_flag_snapshot set)" by (rule card_mono) (use univ in simp_all)
  finally show ?thesis using univ by simp
qed

text \<open>
  A context has no bound: each write to the same file adds its flags again, so that after \<open>n\<close>
  writes there are at least \<open>n\<close> of them; the client is shown ten at most.
\<close>

theorem flags_grow_with_writes:
  assumes "fe_event_type w = FileWrite"
  shows "let c = context_view (event_key canon w) (handle_events canon (replicate n (t, w)) []) in
     length (fc_matching_flags c) = n * Suc (length (get_location_flags (event_name canon (fe_file_path w))))
     \<and> length (fcs_matching_flags (file_context_snapshot_of (event_key canon w) c)) \<le> 10"
  using write_events_flags [OF assms cache_ok_Nil]
  by (simp add: Let_def length_concat sum_list_replicate default_file_context_def length_file_flag_snapshots)

theorem flags_grow_with_writes_witness:
  "length (fc_matching_flags (context_view (event_key Some sample_write)
     (handle_events Some (replicate 500 (9, sample_write)) []))) = 500"
proof -
  have "get_location_flags ''b.exe'' = []" by code_simp
  moreover have "fe_event_type sample_write = FileWrite" "fe_file_path sample_write = fill_path (wide ''b.exe'')"
    by (simp_all add: sample_write_def)
  ultimately show ?thesis
    using flags_grow_with_writes [of sample_write Some 500 9]
    by (simp add: event_name_sample Let_def del: wide_Cons)
qed

end
