(* ===== verification/Driver_Io.thy ===== *)
theory Driver_Io
  imports Sensor_Apc Fs_Telemetry
begin

text \<open>
  The agent's calls into the drivers: \<open>ks_send_verdict\<close>, \<open>ks_register_agent\<close> and the owner of the listener
  thread (\<open>kf_connect_and_listen\<close>, \<open>FilterPortListener\<close>) in \<open>communication/driver/io.rs\<close>. The first two are
  written over any device; the sensor of \<open>Sensor_Irp\<close> behind the I/O manager is one.
\<close>

subsection \<open>Calls to the sensor\<close>

text \<open>The arguments of \<open>DeviceIoControl\<close>: the code, the input buffer with its length, the output length.\<close>

record ioctl_call =
  ic_control_code :: u32
  ic_input :: "galatea_verdict option"
  ic_input_len :: nat
  ic_output_len :: nat

text \<open>A device answers with an error or the number of bytes it returns.\<close>

type_synonym 's device = "ioctl_call \<Rightarrow> 's \<Rightarrow> 's \<times> (ntstatus + nat)"

definition verdict_call :: "galatea_verdict \<Rightarrow> ioctl_call" where
  "verdict_call verdict = \<lparr>ic_control_code = IOCTL_SEND_VERDICT, ic_input = Some verdict,
     ic_input_len = size_of_verdict, ic_output_len = 0\<rparr>"

text \<open>The result is only logged.\<close>

definition ks_send_verdict :: "'s device \<Rightarrow> galatea_verdict \<Rightarrow> 's \<Rightarrow> 's" where
  "ks_send_verdict device verdict s = fst (device (verdict_call verdict) s)"

definition register_call :: ioctl_call where
  "register_call = \<lparr>ic_control_code = IOCTL_REGISTER_AGENT, ic_input = None, ic_input_len = 0, ic_output_len = 0\<rparr>"

definition ks_register_agent :: "(ntstatus \<Rightarrow> string) \<Rightarrow> 's device \<Rightarrow> 's \<Rightarrow> 's \<times> (string + unit)" where
  "ks_register_agent show_error device s =
     (case device register_call s of
        (s', Inr _) \<Rightarrow> (s', Inr ())
      | (s', Inl e) \<Rightarrow> (s', Inl (show_error e)))"

subsection \<open>The sensor as a device\<close>

text \<open>
  The I/O manager makes an IRP at \<open>p\<close> from the arguments (the system buffer holds the input; where there is
  none, \<open>junk\<close>) and calls the driver; for a request that is completed at once, the status and the
  information are the answer. \<open>caller\<close> is the process of the agent, \<open>now\<close> the kernel's time.
\<close>

definition issue_irp :: "nat \<Rightarrow> galatea_verdict \<Rightarrow> ioctl_call \<Rightarrow> sensor \<Rightarrow> sensor" where
  "issue_irp p junk call = upd_irp p (\<lambda>_.
     \<lparr>irp_control_code = ic_control_code call, irp_output_len = ic_output_len call,
      irp_input_len = ic_input_len call,
      irp_input = (case ic_input call of Some v \<Rightarrow> v | None \<Rightarrow> junk), irp_output = None,
      irp_status = STATUS_SUCCESS, irp_information = 0, irp_cancel_routine = False,
      irp_pending_returned = False, irp_completions = 0\<rparr>)"

definition sensor_device :: "nat \<Rightarrow> u64 \<Rightarrow> galatea_verdict \<Rightarrow> nat \<Rightarrow> sensor device" where
  "sensor_device caller now junk p call s =
     (let (s', st) = dispatch_device_control caller now p (issue_irp p junk call s) in
      (s', if st = STATUS_SUCCESS then Inr (irp_information (irps s' p)) else Inl st))"

subsection \<open>What the agent relies on\<close>

text \<open>
  A device that takes verdicts: from the process that registered, every verdict is delivered, and
  delivering one keeps the registration.
\<close>

locale verdict_device =
  fixes device :: "'s device"
    and registered :: "'s \<Rightarrow> bool"
    and deliver :: "galatea_verdict \<Rightarrow> 's \<Rightarrow> 's"
  assumes takes_verdict: "registered s \<Longrightarrow> fst (device (verdict_call v) s) = deliver v s"
    and stays_registered: "registered s \<Longrightarrow> registered (deliver v s)"
begin

lemma send_verdict: "registered s \<Longrightarrow> ks_send_verdict device v s = deliver v s"
  by (simp add: ks_send_verdict_def takes_verdict)

lemma send_verdicts:
  "registered s \<Longrightarrow> fold (ks_send_verdict device) vs s = fold deliver vs s \<and> registered (fold deliver vs s)"
  by (induction vs arbitrary: s) (simp_all add: send_verdict stays_registered)

end

definition sensor_registered :: "nat \<Rightarrow> sensor \<Rightarrow> bool" where
  "sensor_registered caller s \<longleftrightarrow> agent_process s = Some caller"

definition sensor_deliver :: "u64 \<Rightarrow> galatea_verdict \<Rightarrow> nat \<Rightarrow> galatea_verdict \<Rightarrow> sensor \<Rightarrow> sensor" where
  "sensor_deliver now junk p v s =
     finish_irp p STATUS_SUCCESS 0
       (fst (apply_verdict (gv_process_id v) (gv_request_id v) (gv_allow v) now (issue_irp p junk (verdict_call v) s)))"

lemma issue_irp_frame [simp]:
  "agent_process (issue_irp p junk call s) = agent_process s"
  "pending_irp (issue_irp p junk call s) = pending_irp s"
  "pending_scans (issue_irp p junk call s) = pending_scans s"
  "apc_ctxs (issue_irp p junk call s) = apc_ctxs s"
  "terminated (issue_irp p junk call s) = terminated s"
  "object_refs (issue_irp p junk call s) = object_refs s"
  "verdict_cache (issue_irp p junk call s) = verdict_cache s"
  by (simp_all add: issue_irp_def)

lemma finish_irp_frame [simp]:
  "agent_process (finish_irp p st n s) = agent_process s"
  "pending_scans (finish_irp p st n s) = pending_scans s"
  "apc_ctxs (finish_irp p st n s) = apc_ctxs s"
  "terminated (finish_irp p st n s) = terminated s"
  by (simp_all add: finish_irp_def complete_request_def)

interpretation sensor: verdict_device "sensor_device caller now junk p" "sensor_registered caller"
  "sensor_deliver now junk p"
proof
  fix s :: sensor and v :: galatea_verdict
  assume reg: "sensor_registered caller s"
  have "dispatch_device_control caller now p (issue_irp p junk (verdict_call v) s)
      = ioctl_send_verdict now p (issue_irp p junk (verdict_call v) s)"
    using reg by (simp add: dispatch_device_control_def Let_def issue_irp_def verdict_call_def sensor_registered_def
        IOCTL_SEND_VERDICT_def IOCTL_GET_EVENT_def IOCTL_REGISTER_AGENT_def)
  moreover have "irp_input_len (irps (issue_irp p junk (verdict_call v) s) p) = size_of_verdict"
    and "irp_input (irps (issue_irp p junk (verdict_call v) s) p) = v"
    by (simp_all add: issue_irp_def verdict_call_def)
  ultimately show "fst (sensor_device caller now junk p (verdict_call v) s) = sensor_deliver now junk p v s"
    using apply_verdict_returns_True
    by (simp add: sensor_device_def ioctl_send_verdict_def sensor_deliver_def Let_def case_prod_beta)
  show "sensor_registered caller (sensor_deliver now junk p v s)"
    using reg by (simp add: sensor_registered_def sensor_deliver_def)
qed

text \<open>The first process to register becomes the agent; a second one gets an error and changes nothing of it.\<close>

lemma ks_register_agent_sensor:
  "let r = ks_register_agent show_error (sensor_device caller now junk p) s in
   case agent_process s of
     None \<Rightarrow> snd r = Inr () \<and> sensor_registered caller (fst r)
   | Some agent \<Rightarrow> snd r = Inl (show_error STATUS_ACCESS_DENIED) \<and> agent_process (fst r) = Some agent"
proof -
  have "dispatch_device_control caller now p (issue_irp p junk register_call s)
      = ioctl_register_agent caller p (issue_irp p junk register_call s)"
    by (simp add: dispatch_device_control_def Let_def issue_irp_def register_call_def
        IOCTL_SEND_VERDICT_def IOCTL_GET_EVENT_def IOCTL_REGISTER_AGENT_def)
  then show ?thesis
    by (simp add: ks_register_agent_def sensor_device_def ioctl_register_agent_def Let_def case_prod_beta
        ob_reference_def ob_dereference_def sensor_registered_def split: option.split)
qed

subsection \<open>The listener of the filter port\<close>

text \<open>
  \<open>connect\<close> is what \<open>FilterConnectCommunicationPort\<close> gave. The value owns the port; the flag it shares with
  the thread is the one the turns of \<open>kf_listen_for_messages\<close> show.
\<close>

record filter_port_listener =
  pl_port_handle :: nat
  pl_running :: bool
  pl_listener_thread :: bool

definition kf_connect_and_listen :: "(ntstatus \<Rightarrow> string) \<Rightarrow> ntstatus + nat \<Rightarrow> string + filter_port_listener" where
  "kf_connect_and_listen show_error connect =
     (case connect of
        Inl e \<Rightarrow> Inl (show_error e)
      | Inr handle \<Rightarrow> Inr \<lparr>pl_port_handle = handle, pl_running = True, pl_listener_thread = True\<rparr>)"

text \<open>What dropping the value does, in order; joining the thread waits for its end.\<close>

datatype drop_effect = Running_Cleared | Port_Closed nat | Thread_Joined

definition drop_listener :: "filter_port_listener \<Rightarrow> drop_effect list \<times> filter_port_listener" where
  "drop_listener l =
     ([Running_Cleared, Port_Closed (pl_port_handle l)] @ (if pl_listener_thread l then [Thread_Joined] else []),
      l\<lparr>pl_running := False, pl_listener_thread := False\<rparr>)"

text \<open>
  The turns of a listener that is dropped in turn \<open>k\<close>, after the test of the flag: the flag is set up to
  that test and cleared from then on.
\<close>

definition dropped_in_turn :: "nat \<Rightarrow> (bool \<times> port_read \<times> bool) list \<Rightarrow> bool" where
  "dropped_in_turn k turns \<longleftrightarrow> Suc k < length turns
     \<and> (\<forall>i < length turns. fst (turns ! i) = (i \<le> k) \<and> snd (snd (turns ! i)) = (i < k))"

definition handled :: "(string \<Rightarrow> string option) \<Rightarrow> port_read \<Rightarrow> bool" where
  "handled canon r \<longleftrightarrow> (\<forall>msg now cache. r = Message msg now \<longrightarrow> handle_filter_message canon now msg cache \<noteq> None)"

lemma dropped_in_turn_Cons:
  "dropped_in_turn k ((running, r, still_running) # turns) \<longleftrightarrow>
     running \<and> still_running = (0 < k)
     \<and> (case k of 0 \<Rightarrow> turns \<noteq> [] \<and> (\<forall>i < length turns. \<not> fst (turns ! i) \<and> \<not> snd (snd (turns ! i)))
        | Suc k' \<Rightarrow> dropped_in_turn k' turns)"
  by (cases k) (auto simp: dropped_in_turn_def nth_Cons' All_less_Suc2)

lemma dropped_in_turn_0:
  "dropped_in_turn 0 turns \<Longrightarrow> \<exists>r r' rest b. turns = (True, r, False) # (False, r', b) # rest"
  by (cases turns rule: list.exhaust; cases "tl turns")
    (auto simp: dropped_in_turn_Cons All_less_Suc2 dropped_in_turn_def [of _ "[]"])

lemma dropped_in_turn_Suc:
  "dropped_in_turn (Suc k) turns \<Longrightarrow> \<exists>r rest. turns = (True, r, True) # rest \<and> dropped_in_turn k rest"
  by (cases turns) (auto simp: dropped_in_turn_Cons dropped_in_turn_def [of _ "[]"])



end
