(* ===== verification/Agent_Packers.thy ===== *)
theory Agent_Packers
  imports Agent_Config
begin

text \<open>
  The packer signatures of \<open>static_analyzer/packers.rs\<close>: the parser of the signature file, the
  search of the entry point and the match of byte patterns. The lines of the file are a list; a
  line that cannot be read is \<open>None\<close>.
\<close>

type_synonym pattern = "u8 option list"

record pack_signature =
  sg_name :: string
  sg_pattern :: pattern
  sg_ep_only :: bool

subsection \<open>Patterns\<close>

definition hex_digit :: "char \<Rightarrow> nat option" where
  "hex_digit c =
     (let n = byte_of c in
      if 48 \<le> n \<and> n \<le> 57 then Some (n - 48)
      else if 97 \<le> n \<and> n \<le> 102 then Some (n - 87)
      else if 65 \<le> n \<and> n \<le> 70 then Some (n - 55)
      else None)"

fun hex_value :: "nat \<Rightarrow> string \<Rightarrow> nat option" where
  "hex_value acc [] = Some acc"
| "hex_value acc (c # s) = (case hex_digit c of None \<Rightarrow> None | Some d \<Rightarrow> hex_value (acc * 16 + d) s)"

text \<open>\<open>u8::from_str_radix(s, 16).ok()\<close>: one leading plus sign is accepted.\<close>

definition u8_from_hex :: "string \<Rightarrow> u8 option" where
  "u8_from_hex s =
     (let digits = (if s \<noteq> [] \<and> hd s = CHR ''+'' then tl s else s) in
      if digits = [] then None
      else case hex_value 0 digits of
             None \<Rightarrow> None
           | Some n \<Rightarrow> if n < 256 then Some (of_nat n) else None)"

definition parse_pattern :: "string \<Rightarrow> pattern" where
  "parse_pattern hex_str =
     map (\<lambda>s. if s = ''??'' then None else u8_from_hex s) (split_whitespace hex_str)"

fun match_from :: "nat \<Rightarrow> u8 list \<Rightarrow> pattern \<Rightarrow> bool" where
  "match_from i data [] = True"
| "match_from i data (Some b # ps) = (if data ! i \<noteq> b then False else match_from (Suc i) data ps)"
| "match_from i data (None # ps) = match_from (Suc i) data ps"

definition match_pattern :: "u8 list \<Rightarrow> pattern \<Rightarrow> bool" where
  "match_pattern data pattern =
     (if length data < length pattern then False else match_from 0 data pattern)"

subsection \<open>Loading the signature file\<close>

record load_state =
  ld_signatures :: "pack_signature list"
  ld_name :: string
  ld_pat :: pattern
  ld_ep_only :: bool

definition push_current :: "load_state \<Rightarrow> load_state" where
  "push_current st =
     (if ld_name st \<noteq> [] \<and> ld_pat st \<noteq> []
      then st\<lparr>ld_signatures := ld_signatures st @
        [\<lparr>sg_name = ld_name st, sg_pattern = ld_pat st, sg_ep_only = ld_ep_only st\<rparr>]\<rparr>
      else st)"

definition load_line :: "string \<Rightarrow> load_state \<Rightarrow> load_state" where
  "load_line line st =
     (let text = trim line in
      if text = [] \<or> starts_with text '';'' then st
      else if starts_with text ''['' \<and> ends_with text '']''
      then (push_current st)\<lparr>ld_name := slice 1 (length text - 1) text, ld_pat := [], ld_ep_only := True\<rparr>
      else case split_once_char (CHR ''='') text of
             None \<Rightarrow> st
           | Some (key, val) \<Rightarrow>
               (let key = to_lowercase (trim key); val = trim val in
                if key = ''signature'' then st\<lparr>ld_pat := parse_pattern val\<rparr>
                else if key = ''ep_only'' then st\<lparr>ld_ep_only := (to_lowercase val = ''true'')\<rparr>
                else st))"

text \<open>The loop over the lines: the state after it, and whether every line could be read.\<close>

fun load_lines :: "string option list \<Rightarrow> load_state \<Rightarrow> load_state \<times> bool" where
  "load_lines [] st = (st, True)"
| "load_lines (None # ls) st = (st, False)"
| "load_lines (Some l # ls) st = load_lines ls (load_line l st)"

text \<open>
  \<open>load\<close>: the engine's signatures afterwards and whether it succeeded; \<open>None\<close> for a file that
  cannot be opened.
\<close>

definition load_signatures ::
  "string option list option \<Rightarrow> pack_signature list \<Rightarrow> pack_signature list \<times> bool" where
  "load_signatures file sigs =
     (case file of
        None \<Rightarrow> (sigs, False)
      | Some ls \<Rightarrow>
          (case load_lines ls \<lparr>ld_signatures = sigs, ld_name = [], ld_pat = [], ld_ep_only = True\<rparr> of
             (st, False) \<Rightarrow> (ld_signatures st, False)
           | (st, True) \<Rightarrow> (ld_signatures (push_current st), True)))"

subsection \<open>Scanning\<close>

fun find_ep_in :: "nat \<Rightarrow> pe_section list \<Rightarrow> nat option" where
  "find_ep_in rva [] = None"
| "find_ep_in rva (sec # secs) =
     (let v_start = unat (sec_virtual_address sec); v_size = unat (sec_virtual_size sec) in
      if v_start \<le> rva \<and> rva < v_start + v_size
      then Some (unat (sec_pointer_to_raw_data sec) + (rva - v_start))
      else find_ep_in rva secs)"

definition find_entry_point_offset :: "pe \<Rightarrow> nat option" where
  "find_entry_point_offset pe = find_ep_in (unat (pe_entry pe)) (pe_sections pe)"

fun scan_signatures :: "u8 list \<Rightarrow> u8 list \<Rightarrow> pack_signature list \<Rightarrow> string option" where
  "scan_signatures ep_data file_data [] = None"
| "scan_signatures ep_data file_data (sig # sigs) =
     (let target_slice = (if sg_ep_only sig then ep_data else file_data) in
      if length target_slice < length (sg_pattern sig) then scan_signatures ep_data file_data sigs
      else if match_pattern target_slice (sg_pattern sig) then Some (sg_name sig)
      else scan_signatures ep_data file_data sigs)"

definition packer_scan :: "pack_signature list \<Rightarrow> pe \<Rightarrow> u8 list \<Rightarrow> string option" where
  "packer_scan sigs pe buffer =
     (case find_entry_point_offset pe of
        None \<Rightarrow> None
      | Some ep_offset \<Rightarrow>
          (if length buffer \<le> ep_offset then None
           else scan_signatures (drop ep_offset buffer) buffer sigs))"

subsection \<open>What a match is\<close>

definition byte_matches :: "u8 option \<Rightarrow> u8 \<Rightarrow> bool" where
  "byte_matches p b \<longleftrightarrow> (case p of None \<Rightarrow> True | Some x \<Rightarrow> b = x)"

definition matches_at_start :: "u8 list \<Rightarrow> pattern \<Rightarrow> bool" where
  "matches_at_start data pattern \<longleftrightarrow> length pattern \<le> length data
     \<and> (\<forall>i < length pattern. byte_matches (pattern ! i) (data ! i))"

lemma byte_matches_simps [simp]: "byte_matches None b" "byte_matches (Some x) b = (b = x)"
  by (simp_all add: byte_matches_def)

lemma match_from_iff: "match_from k data ps \<longleftrightarrow> (\<forall>i < length ps. byte_matches (ps ! i) (data ! (k + i)))"
proof (induction ps arbitrary: k)
  case Nil
  then show ?case by simp
next
  case (Cons p ps)
  have "(\<forall>i < length (p # ps). byte_matches ((p # ps) ! i) (data ! (k + i)))
    \<longleftrightarrow> byte_matches p (data ! k) \<and> (\<forall>i < length ps. byte_matches (ps ! i) (data ! (Suc k + i)))"
    by (simp add: All_less_Suc2)
  with Cons [of "Suc k"] show ?case by (cases p) auto
qed

lemma match_pattern_iff: "match_pattern data ps \<longleftrightarrow> matches_at_start data ps"
  by (simp add: match_pattern_def matches_at_start_def match_from_iff)

definition sig_matches :: "nat \<Rightarrow> u8 list \<Rightarrow> pack_signature \<Rightarrow> bool" where
  "sig_matches ep buffer sig \<longleftrightarrow>
     matches_at_start (if sg_ep_only sig then drop ep buffer else buffer) (sg_pattern sig)"

lemma matches_at_start_short: "length data < length ps \<Longrightarrow> \<not> matches_at_start data ps"
  by (simp add: matches_at_start_def)

lemma scan_signatures_Cons:
  "scan_signatures (drop ep buffer) buffer (sig # sigs) =
     (if sig_matches ep buffer sig then Some (sg_name sig)
      else scan_signatures (drop ep buffer) buffer sigs)"
  by (auto simp: sig_matches_def match_pattern_iff Let_def dest: matches_at_start_short
      simp del: length_drop)

lemma scan_signatures_find:
  "scan_signatures (drop ep buffer) buffer sigs = map_option sg_name (find (sig_matches ep buffer) sigs)"
  by (induction sigs) (simp_all add: scan_signatures_Cons del: scan_signatures.simps(2))

subsection \<open>A signature file written out\<close>

text \<open>The text of a signature in the format of the file, for the round trip through \<open>load\<close>.\<close>

definition hex_upper :: "nat \<Rightarrow> char" where
  "hex_upper d = (if d < 10 then char_of (48 + d) else char_of (55 + d))"

definition show_byte :: "u8 option \<Rightarrow> string" where
  "show_byte p = (case p of None \<Rightarrow> ''??''
     | Some b \<Rightarrow> [hex_upper (unat b div 16), hex_upper (unat b mod 16)])"

definition show_pattern :: "pattern \<Rightarrow> string" where
  "show_pattern ps = join_str '' '' (map show_byte ps)"

definition show_signature :: "pack_signature \<Rightarrow> string option list" where
  "show_signature sig =
     [Some (''['' @ sg_name sig @ '']''),
      Some (''signature = '' @ show_pattern (sg_pattern sig)),
      Some (''ep_only = '' @ (if sg_ep_only sig then ''true'' else ''false''))]"

lemma hex_digit_upper: "d < 16 \<Longrightarrow> hex_digit (hex_upper d) = Some d"
  by (auto simp: hex_digit_def hex_upper_def Let_def)

lemma u8_bound: "unat (b :: u8) < 256"
proof -
  have "unat b < 2 ^ LENGTH(8)" by (rule unsigned_less)
  then show ?thesis by simp
qed

lemma u8_from_hex_show: "u8_from_hex [hex_upper (unat (b::u8) div 16), hex_upper (unat b mod 16)] = Some b"
proof -
  have d: "unat b div 16 < 16" using u8_bound [of b] by linarith
  have "hex_upper (unat b div 16) \<noteq> CHR ''+''"
  proof
    assume "hex_upper (unat b div 16) = CHR ''+''"
    with hex_digit_upper [OF d] show False by (simp add: hex_digit_def)
  qed
  moreover have "unat b div 16 * 16 + unat b mod 16 = unat b" by simp
  ultimately show ?thesis
    using u8_bound [of b] by (simp add: u8_from_hex_def hex_digit_upper d Let_def)
qed

lemma hex_upper_no_ws: "d < 16 \<Longrightarrow> \<not> is_ws (hex_upper d)"
  by (auto simp: hex_upper_def is_ws_def)

lemma show_byte_token: "show_byte p \<noteq> []" "c \<in> set (show_byte p) \<Longrightarrow> \<not> is_ws c"
proof -
  show "show_byte p \<noteq> []" by (simp add: show_byte_def split: option.split)
  assume c: "c \<in> set (show_byte p)"
  show "\<not> is_ws c"
  proof (cases p)
    case None
    with c show ?thesis by (simp add: show_byte_def is_ws_def)
  next
    case (Some b)
    have "unat b div 16 < 16" using u8_bound [of b] by linarith
    with Some c show ?thesis by (auto simp: show_byte_def hex_upper_no_ws)
  qed
qed

lemma split_ws_join:
  assumes "\<And>t c. t \<in> set ts \<Longrightarrow> c \<in> set t \<Longrightarrow> \<not> is_ws c" and "\<And>t. t \<in> set ts \<Longrightarrow> t \<noteq> []"
  shows "split_whitespace (join_str '' '' ts) = ts"
  using assms
proof (induction ts rule: induct_list012)
  case 1
  then show ?case by (simp add: split_whitespace_def)
next
  case (2 t)
  then show ?case using split_ws_acc_token [of t "[]" "[]"] by (simp add: split_whitespace_def)
next
  case (3 t u ts)
  have "is_ws (CHR '' '')" by (simp add: is_ws_def)
  moreover have "split_whitespace (join_str '' '' (u # ts)) = u # ts"
    by (rule "3.IH"(2)) (use "3.prems" in auto)
  moreover have "\<not> is_ws c" if "c \<in> set t" for c using "3.prems"(1) [of t c] that by simp
  moreover have "t \<noteq> []" using "3.prems"(2) [of t] by simp
  ultimately show ?case
    using split_ws_acc_token [of t "[]" "'' '' @ join_str '' '' (u # ts)"]
    by (simp add: split_whitespace_def)
qed

lemma parse_show_pattern: "parse_pattern (show_pattern ps) = ps"
proof -
  have "split_whitespace (show_pattern ps) = map show_byte ps"
    unfolding show_pattern_def by (rule split_ws_join) (auto dest: show_byte_token(2) simp: show_byte_token(1))
  moreover have "(if show_byte p = ''??'' then None else u8_from_hex (show_byte p)) = p" for p
  proof (cases p)
    case None
    then show ?thesis by (simp add: show_byte_def)
  next
    case (Some b)
    have "unat b mod 16 < 16" by simp
    then have "hex_upper (unat b mod 16) \<noteq> CHR ''?''"
      using hex_digit_upper [of "unat b mod 16"] by (auto simp: hex_digit_def)
    with Some show ?thesis by (simp add: show_byte_def u8_from_hex_show)
  qed
  ultimately show ?thesis by (simp add: parse_pattern_def comp_def)
qed


text \<open>
  A signature the format can carry: its name and its pattern are not empty; the brackets keep the
  name's outer white space.
\<close>

definition sig_ok :: "pack_signature \<Rightarrow> bool" where
  "sig_ok sig \<longleftrightarrow> sg_name sig \<noteq> [] \<and> sg_pattern sig \<noteq> []"

lemma trim_id: "s \<noteq> [] \<Longrightarrow> \<not> is_ws (hd s) \<Longrightarrow> \<not> is_ws (last s) \<Longrightarrow> trim s = s"
  unfolding trim_def by (rule trim_matches_id)

lemma starts_with_Cons: "starts_with (c # s) [d] \<longleftrightarrow> c = d"
  by (simp add: starts_with_def)

lemma load_header:
  "load_line (''['' @ n @ '']'') st = (push_current st)\<lparr>ld_name := n, ld_pat := [], ld_ep_only := True\<rparr>"
proof -
  have "trim (''['' @ n @ '']'') = ''['' @ n @ '']''" by (rule trim_id) (simp_all add: is_ws_def)
  then show ?thesis
    by (simp add: load_line_def Let_def starts_with_Cons ends_with_iff_suffix suffix_def slice_def)
qed

lemma trim_space: "trim (CHR '' '' # s) = trim s"
  by (simp add: trim_def trim_matches_def is_ws_def)

lemma join_str_ends:
  assumes "ts \<noteq> []" and "\<And>t. t \<in> set ts \<Longrightarrow> t \<noteq> []"
  shows "join_str sep ts \<noteq> [] \<and> hd (join_str sep ts) = hd (hd ts) \<and> last (join_str sep ts) = last (last ts)"
  using assms
proof (induction ts rule: induct_list012)
  case (3 t u ts)
  have "t \<noteq> []" using "3.prems"(2) [of t] by simp
  moreover have "join_str sep (u # ts) \<noteq> [] \<and> last (join_str sep (u # ts)) = last (last (u # ts))"
    using "3.IH"(2) "3.prems"(2) by simp
  ultimately show ?case by (simp add: hd_append)
qed auto

lemma show_pattern_ends:
  assumes "ps \<noteq> []"
  shows "show_pattern ps \<noteq> []" and "\<not> is_ws (hd (show_pattern ps))" and "\<not> is_ws (last (show_pattern ps))"
proof -
  have ne: "map show_byte ps \<noteq> []" "\<And>t. t \<in> set (map show_byte ps) \<Longrightarrow> t \<noteq> []"
    using assms show_byte_token(1) by auto
  note e = join_str_ends [of "map show_byte ps" "'' ''", OF ne]
  show "show_pattern ps \<noteq> []" using e by (simp add: show_pattern_def)
  have "hd (map show_byte ps) = show_byte (hd ps)" "last (map show_byte ps) = show_byte (last ps)"
    using assms by (simp_all add: hd_map last_map)
  then show "\<not> is_ws (hd (show_pattern ps))" "\<not> is_ws (last (show_pattern ps))"
    using e show_byte_token(2) [OF hd_in_set [OF show_byte_token(1)]]
      show_byte_token(2) [OF last_in_set [OF show_byte_token(1)]] by (simp_all add: show_pattern_def)
qed

lemma load_signature_line:
  assumes "ps \<noteq> []"
  shows "load_line (''signature = '' @ show_pattern ps) st = st\<lparr>ld_pat := ps\<rparr>"
proof -
  note e = show_pattern_ends [OF assms]
  let ?t = "''signature = '' @ show_pattern ps"
  have t: "trim ?t = ?t" by (rule trim_id) (use e in \<open>simp_all add: is_ws_def\<close>)
  have v: "trim ('' '' @ show_pattern ps) = show_pattern ps"
    using trim_id [OF e] by (simp add: trim_space)
  have k: "trim ''signature '' = ''signature''"
    by (simp add: trim_def trim_matches_def is_ws_def)
  have "split_once_char (CHR ''='') ?t = Some (''signature '', '' '' @ show_pattern ps)" by simp
  then show ?thesis
    by (simp add: load_line_def t Let_def starts_with_Cons k v parse_show_pattern ascii_lower_char_def
        del: append_Cons append_Nil split_once_char.simps)
      (simp add: ascii_lower_char_def starts_with_Cons v [simplified] parse_show_pattern)
qed


lemma load_ep_only_line:
  "load_line (''ep_only = '' @ (if b then ''true'' else ''false'')) st = st\<lparr>ld_ep_only := b\<rparr>"
proof -
  let ?v = "if b then ''true'' else ''false''"
  have t: "trim (''ep_only = '' @ ?v) = ''ep_only = '' @ ?v" by (rule trim_id) (simp_all add: is_ws_def)
  have v: "trim ('' '' @ ?v) = ?v" by (simp add: trim_space trim_id is_ws_def)
  have k: "trim ''ep_only '' = ''ep_only''" by (simp add: trim_def trim_matches_def is_ws_def)
  have "split_once_char (CHR ''='') (''ep_only = '' @ ?v) = Some (''ep_only '', '' '' @ ?v)" by simp
  then show ?thesis
    by (simp add: load_line_def t Let_def starts_with_Cons k v ascii_lower_char_def
        del: append_Cons append_Nil split_once_char.simps)
      (simp add: ascii_lower_char_def starts_with_Cons v [simplified])
qed

text \<open>Reading a written signature pushes the one before it and makes it the current one.\<close>

lemma load_show_signature:
  assumes "sig_ok sig"
  shows "load_lines (show_signature sig @ ls) st =
    load_lines ls ((push_current st)\<lparr>ld_name := sg_name sig, ld_pat := sg_pattern sig, ld_ep_only := sg_ep_only sig\<rparr>)"
proof -
  have p: "sg_pattern sig \<noteq> []" using assms by (simp add: sig_ok_def)
  have "show_signature sig @ ls = Some (''['' @ sg_name sig @ '']'') #
      Some (''signature = '' @ show_pattern (sg_pattern sig)) #
      Some (''ep_only = '' @ (if sg_ep_only sig then ''true'' else ''false'')) # ls"
    by (simp add: show_signature_def)
  then show ?thesis
    by (simp only: load_lines.simps load_header load_signature_line [OF p] load_ep_only_line) simp
qed

lemma load_show_signatures:
  assumes "\<And>sig. sig \<in> set sigs \<Longrightarrow> sig_ok sig"
  shows "\<exists>st'. load_lines (concat (map show_signature sigs)) st = (st', True)
    \<and> ld_signatures (push_current st') = ld_signatures (push_current st) @ sigs"
  using assms
proof (induction sigs arbitrary: st)
  case Nil
  then show ?case by simp
next
  case (Cons sig sigs)
  let ?st = "(push_current st)\<lparr>ld_name := sg_name sig, ld_pat := sg_pattern sig, ld_ep_only := sg_ep_only sig\<rparr>"
  have ok: "sig_ok sig" using Cons.prems by simp
  obtain st' where "load_lines (concat (map show_signature sigs)) ?st = (st', True)"
    and "ld_signatures (push_current st') = ld_signatures (push_current ?st) @ sigs"
    using Cons.IH [of ?st] Cons.prems by auto
  moreover have "ld_signatures (push_current ?st) = ld_signatures (push_current st) @ [sig]"
    using ok by (simp add: push_current_def [of ?st] sig_ok_def)
  ultimately show ?case by (simp add: load_show_signature [OF ok])
qed

subsection \<open>Properties\<close>

text \<open>
  C29. The packer scan returns the name of the first signature of the file that matches, and nothing
  if none does or the entry point is in no section or beyond the file: an entry-point signature
  matches at the entry point, any other one only at the very start of the file.
\<close>

theorem packer_scan_first_match:
  "packer_scan sigs pe buffer =
     (case find_entry_point_offset pe of
        None \<Rightarrow> None
      | Some ep \<Rightarrow> if ep < length buffer then map_option sg_name (find (sig_matches ep buffer) sigs) else None)"
  by (simp add: packer_scan_def scan_signatures_find split: option.split)

text \<open>
  C30. A signature file written in the documented format is read back exactly: every signature, in
  order, with its name, its bytes and wildcards and its entry-point flag, after those already loaded.
\<close>

theorem signature_file_roundtrip:
  assumes "\<And>sig. sig \<in> set sigs \<Longrightarrow> sig_ok sig"
  shows "load_signatures (Some (concat (map show_signature sigs))) old = (old @ sigs, True)"
proof -
  let ?st = "\<lparr>ld_signatures = old, ld_name = [], ld_pat = [], ld_ep_only = True\<rparr>"
  obtain st' where "load_lines (concat (map show_signature sigs)) ?st = (st', True)"
    and "ld_signatures (push_current st') = ld_signatures (push_current ?st) @ sigs"
    using load_show_signatures [OF assms, of sigs ?st] by blast
  then show ?thesis by (simp add: load_signatures_def push_current_def [of ?st])
qed

definition sample_signature :: pack_signature where
  "sample_signature = \<lparr>sg_name = ''UPX'', sg_pattern = [Some 0x60, None, Some 0xBE], sg_ep_only = False\<rparr>"

theorem signature_file_roundtrip_witness:
  "load_signatures (Some (show_signature sample_signature)) [] = ([sample_signature], True)"
  using signature_file_roundtrip [of "[sample_signature]" "[]"] by (simp add: sample_signature_def sig_ok_def)

end
