(* ===== verification/Agent_Heuristics.thy ===== *)
theory Agent_Heuristics
  imports Agent_Packers
begin

text \<open>
  The heuristics over a PE file: the Shannon entropy of \<open>utils/math.rs\<close>, \<open>analyze_pe\<close> of
  \<open>heuristics.rs\<close>, the feature vector and the reading of the model's outputs of \<open>ml.rs\<close>.
  The digest is a parameter \<open>md5_hex\<close>, from bytes to hexadecimal text; the model is a function
  from features to named output tensors.
\<close>

subsection \<open>Entropy\<close>

definition byte_frequency :: "u8 list \<Rightarrow> nat list" where
  "byte_frequency data = map (\<lambda>i. count_list data (of_nat i)) [0..<256]"

definition entropy_step :: "real \<Rightarrow> nat \<Rightarrow> real \<Rightarrow> real" where
  "entropy_step len cnt e =
     (if 0 < cnt then let p = real cnt / len in e - p * log 2 p else e)"

definition calculate_entropy :: "u8 list \<Rightarrow> real" where
  "calculate_entropy data =
     (if data = [] then 0 else fold (entropy_step (real (length data))) (byte_frequency data) 0)"

text \<open>The entropy as a sum of the terms of the bytes.\<close>

definition entropy_term :: "u8 list \<Rightarrow> nat \<Rightarrow> real" where
  "entropy_term data i =
     (let c = count_list data (of_nat i) in
      if 0 < c then - (real c / real (length data)) * log 2 (real c / real (length data)) else 0)"

lemma fold_entropy_step:
  "fold (entropy_step len) cs e = e + (\<Sum>c \<leftarrow> cs. if 0 < c then - (real c / len) * log 2 (real c / len) else 0)"
  by (induction cs arbitrary: e) (auto simp: entropy_step_def Let_def algebra_simps)

lemma calculate_entropy_sum:
  "data \<noteq> [] \<Longrightarrow> calculate_entropy data = (\<Sum>i < 256. entropy_term data i)"
  by (simp add: calculate_entropy_def fold_entropy_step byte_frequency_def comp_def entropy_term_def
      Let_def sum_list_distinct_conv_sum_set atLeast0LessThan)

lemma of_nat_u8_eq_iff: "i < 256 \<Longrightarrow> (b :: u8) = of_nat i \<longleftrightarrow> i = unat b"
  by (auto simp: unat_of_nat take_bit_nat_eq_self)

lemma sum_byte_counts: "(\<Sum>i < 256. count_list data (of_nat i :: u8)) = length data"
proof (induction data)
  case Nil
  then show ?case by simp
next
  case (Cons b data)
  have "(\<Sum>i < 256. count_list (b # data) (of_nat i :: u8))
      = (\<Sum>i < 256. (if i = unat b then 1 else 0) + count_list data (of_nat i))"
    by (rule sum.cong) (simp_all add: of_nat_u8_eq_iff [symmetric])
  also have "\<dots> = 1 + length data"
    using u8_bound [of b] by (simp add: sum.distrib Cons.IH sum.delta)
  finally show ?case by simp
qed

lemma entropy_term_bounds:
  assumes "data \<noteq> []"
  shows "0 \<le> entropy_term data i"
    and "entropy_term data i - 8 * (real (count_list data (of_nat i)) / real (length data))
      \<le> (1 / 256 - real (count_list data (of_nat i)) / real (length data)) / ln 2"
proof -
  let ?c = "count_list data (of_nat i :: u8)"
  let ?p = "real ?c / real (length data)"
  have len: "0 < length data" using assms by simp
  have p1: "?p \<le> 1" using count_le_length [of data "of_nat i"] len by simp
  show "0 \<le> entropy_term data i"
  proof (cases "0 < ?c")
    case True
    then have "log 2 ?p \<le> 0" using p1 len by (simp add: log_le_zero_cancel_iff)
    then have "?p * log 2 ?p \<le> 0" by (intro mult_nonneg_nonpos) simp_all
    then have "0 \<le> - ?p * log 2 ?p" by simp
    with True show ?thesis by (simp add: entropy_term_def Let_def)
  next
    case False
    then show ?thesis by (simp add: entropy_term_def)
  qed
  show "entropy_term data i - 8 * ?p \<le> (1 / 256 - ?p) / ln 2"
  proof (cases "0 < ?c")
    case True
    define p where "p = ?p"
    have p: "0 < p" using True len by (simp add: p_def)
    have "ln (1 / (256 * p)) \<le> 1 / (256 * p) - 1" using p by (intro ln_le_minus_one) simp
    then have "p * ln (1 / (256 * p)) \<le> p * (1 / (256 * p) - 1)" using p by (intro mult_left_mono) auto
    also have "\<dots> = 1 / 256 - p" using p by (simp add: right_diff_distrib)
    finally have le: "p * ln (1 / (256 * p)) \<le> 1 / 256 - p" .
    have "ln (256 :: real) = 8 * ln 2" using ln_realpow [of 2 8] by simp
    then have l: "ln (1 / (256 * p)) = - (8 * ln 2) - ln p" using p by (simp add: ln_div ln_mult)
    have "entropy_term data i = - p * log 2 p" using True by (simp add: entropy_term_def p_def Let_def)
    then have "entropy_term data i - 8 * p = p * ln (1 / (256 * p)) / ln 2"
      unfolding l by (simp add: log_def field_simps)
    also have "\<dots> \<le> (1 / 256 - p) / ln 2" using le by (intro divide_right_mono) auto
    finally show ?thesis unfolding p_def .
  next
    case False
    then show ?thesis by (simp add: entropy_term_def)
  qed
qed

lemma entropy_nonneg: "0 \<le> calculate_entropy data"
  by (cases "data = []")
    (auto simp: calculate_entropy_sum entropy_term_bounds(1) intro!: sum_nonneg, simp add: calculate_entropy_def)

lemma entropy_le_8: "calculate_entropy data \<le> 8"
proof (cases "data = []")
  case True
  then show ?thesis by (simp add: calculate_entropy_def)
next
  case False
  let ?p = "\<lambda>i. real (count_list data (of_nat i :: u8)) / real (length data)"
  have one: "(\<Sum>i < 256. ?p i) = 1"
    using False by (simp add: sum_divide_distrib [symmetric] sum_byte_counts flip: of_nat_sum)
  have "(\<Sum>i < 256. 8 * ?p i) = 8 * 1" by (simp only: sum_distrib_left [symmetric] one)
  then have "calculate_entropy data - 8 = (\<Sum>i < 256. entropy_term data i - 8 * ?p i)"
    by (simp only: calculate_entropy_sum [OF False] sum_subtractf)
  also have "\<dots> \<le> (\<Sum>i < 256. (1 / 256 - ?p i) / ln 2)"
    by (rule sum_mono) (rule entropy_term_bounds(2) [OF False])
  also have "\<dots> = ((\<Sum>i < (256::nat). 1 / 256) - (\<Sum>i < 256. ?p i)) / ln 2"
    by (simp only: sum_divide_distrib [symmetric] sum_subtractf)
  also have "\<dots> = 0" by (simp add: one)
  finally show ?thesis by simp
qed


subsection \<open>PE heuristics\<close>

record heur_report =
  hp_is_packed :: bool
  hp_packer :: "string option"
  hp_has_rwx :: bool
  hp_high_entropy :: bool
  hp_imphash :: string
  hp_score_mod :: i32

definition new_heur_report :: heur_report where
  "new_heur_report = \<lparr>hp_is_packed = False, hp_packer = None, hp_has_rwx = False,
     hp_high_entropy = False, hp_imphash = [], hp_score_mod = 0\<rparr>"

abbreviation add_score :: "i32 \<Rightarrow> heur_report \<Rightarrow> heur_report" where
  "add_score n r \<equiv> r\<lparr>hp_score_mod := hp_score_mod r + n\<rparr>"

definition section_high_entropy :: "u8 list \<Rightarrow> pe_section \<Rightarrow> bool" where
  "section_high_entropy buffer sec =
     (let start = unat (sec_pointer_to_raw_data sec);
          sz = unat (sec_size_of_raw_data sec);
          fin = start + sz
      in start < length buffer \<and> fin \<le> length buffer
         \<and> calculate_entropy (slice start fin buffer) > HEUR_ENTROPY_THRESHOLD)"

definition section_rwx :: "pe_section \<Rightarrow> bool" where
  "section_rwx sec \<longleftrightarrow> sec_characteristics sec AND 0xE0000000 = 0xE0000000"

text \<open>One turn of the loop over the sections: the report, \<open>added_ent\<close> and \<open>added_rwx\<close>.\<close>

definition heur_section ::
  "u8 list \<Rightarrow> pe_section \<Rightarrow> heur_report \<times> bool \<times> bool \<Rightarrow> heur_report \<times> bool \<times> bool" where
  "heur_section buffer sec st =
     (let (r, added_ent, added_rwx) = st;
          (r, added_ent) =
            (if section_high_entropy buffer sec then
               (let r = r\<lparr>hp_high_entropy := True\<rparr> in
                if \<not> added_ent then
                  (add_score HEUR_ENTROPY_SCORE
                     (if hp_is_packed r then add_score HEUR_KNOWN_PACKER_SCORE r else r), True)
                else (r, added_ent))
             else (r, added_ent));
          (r, added_rwx) =
            (if section_rwx sec then
               (let r = r\<lparr>hp_has_rwx := True\<rparr> in
                if \<not> added_rwx then (add_score HEUR_RWX_SEC_SCORE r, True) else (r, added_rwx))
             else (r, added_rwx))
      in (r, added_ent, added_rwx))"

text \<open>\<open>rsplitn(2, '.').last()\<close>: the text before the last dot.\<close>

definition before_last_dot :: "string \<Rightarrow> string" where
  "before_last_dot s = (case split_once_char (CHR ''.'') (rev s) of None \<Rightarrow> s | Some (a, b) \<Rightarrow> rev b)"

definition import_entry :: "pe_import \<Rightarrow> string" where
  "import_entry imp =
     (let raw_dll = to_lowercase (imp_dll imp);
          dll_name = (if ends_with raw_dll ''.dll'' \<or> ends_with raw_dll ''.sys'' \<or> ends_with raw_dll ''.ocx''
                      then before_last_dot raw_dll else raw_dll);
          func_part = (if imp_name imp \<noteq> [] then to_lowercase (imp_name imp)
                       else ''ord'' @ show_nat (unat (imp_ordinal imp)))
      in dll_name @ ''.'' @ func_part)"

definition hidden_imports_score :: "heur_report \<Rightarrow> heur_report" where
  "hidden_imports_score r =
     (if hp_is_packed r then add_score (HEUR_HIDDEN_IMP_SCORE - 10) r else add_score HEUR_HIDDEN_IMP_SCORE r)"

definition analyze_pe ::
  "(string \<Rightarrow> string) \<Rightarrow> u8 list \<Rightarrow> pe \<Rightarrow> pack_signature list \<Rightarrow> heur_report option" where
  "analyze_pe md5_hex buffer pe sigs =
     (let report = (case packer_scan sigs pe buffer of
                      None \<Rightarrow> new_heur_report
                    | Some name \<Rightarrow> new_heur_report\<lparr>hp_packer := Some name, hp_is_packed := True\<rparr>);
          (report, _, _) = fold (heur_section buffer) (pe_sections pe) (report, False, False);
          import_list = map import_entry (pe_imports pe)
      in if import_list \<noteq> []
         then (let report = (if length import_list < 3 then hidden_imports_score report else report)
               in Some (report\<lparr>hp_imphash := md5_hex (join_str '','' import_list)\<rparr>))
         else Some (hidden_imports_score report))"

lemma heur_section_eq:
  "heur_section buffer s (r, e, x) =
     (let he = section_high_entropy buffer s; rwx = section_rwx s in
      (r\<lparr>hp_high_entropy := (hp_high_entropy r \<or> he), hp_has_rwx := (hp_has_rwx r \<or> rwx),
         hp_score_mod := hp_score_mod r
           + (if he \<and> \<not> e then HEUR_ENTROPY_SCORE + (if hp_is_packed r then HEUR_KNOWN_PACKER_SCORE else 0) else 0)
           + (if rwx \<and> \<not> x then HEUR_RWX_SEC_SCORE else 0)\<rparr>, e \<or> he, x \<or> rwx))"
  by (cases "section_high_entropy buffer s"; cases "section_rwx s"; cases e; cases x)
    (simp_all add: heur_section_def Let_def algebra_simps)

text \<open>The fold over the sections in one step.\<close>

lemma fold_heur_section:
  "fold (heur_section buffer) secs (r, e, x) =
     (let he = (\<exists>s \<in> set secs. section_high_entropy buffer s); rwx = (\<exists>s \<in> set secs. section_rwx s) in
      (r\<lparr>hp_high_entropy := (hp_high_entropy r \<or> he), hp_has_rwx := (hp_has_rwx r \<or> rwx),
         hp_score_mod := hp_score_mod r
           + (if he \<and> \<not> e then HEUR_ENTROPY_SCORE + (if hp_is_packed r then HEUR_KNOWN_PACKER_SCORE else 0) else 0)
           + (if rwx \<and> \<not> x then HEUR_RWX_SEC_SCORE else 0)\<rparr>, e \<or> he, x \<or> rwx))"
proof (induction secs arbitrary: r e x)
  case Nil
  then show ?case by simp
next
  case (Cons s secs)
  show ?case
    by (cases "section_high_entropy buffer s"; cases "section_rwx s"; cases e; cases x)
      (simp_all add: Cons.IH heur_section_eq Let_def algebra_simps)
qed

definition packed_by :: "pack_signature list \<Rightarrow> pe \<Rightarrow> u8 list \<Rightarrow> bool" where
  "packed_by sigs pe buffer \<longleftrightarrow> packer_scan sigs pe buffer \<noteq> None"

text \<open>What the whole heuristic adds to the score.\<close>

definition heur_score :: "bool \<Rightarrow> bool \<Rightarrow> bool \<Rightarrow> bool \<Rightarrow> i32" where
  "heur_score packed high_entropy rwx few_imports =
     (if high_entropy then 25 + (if packed then 30 else 0) else 0)
     + (if rwx then 40 else 0)
     + (if few_imports then (if packed then 10 else 20) else 0)"

lemma analyze_pe_report:
  "\<exists>r. analyze_pe md5_hex buffer pe sigs = Some r
     \<and> hp_is_packed r = packed_by sigs pe buffer
     \<and> hp_packer r = packer_scan sigs pe buffer
     \<and> hp_high_entropy r = (\<exists>s \<in> set (pe_sections pe). section_high_entropy buffer s)
     \<and> hp_has_rwx r = (\<exists>s \<in> set (pe_sections pe). section_rwx s)
     \<and> hp_score_mod r = heur_score (hp_is_packed r) (hp_high_entropy r) (hp_has_rwx r)
                          (length (pe_imports pe) < 3)"
proof (cases "packer_scan sigs pe buffer")
  case None
  then show ?thesis
    by (auto simp: analyze_pe_def Let_def fold_heur_section hidden_imports_score_def packed_by_def
        new_heur_report_def heur_score_def score_defs)
next
  case (Some name)
  then show ?thesis
    by (auto simp: analyze_pe_def Let_def fold_heur_section hidden_imports_score_def packed_by_def
        new_heur_report_def heur_score_def score_defs)
qed

lemma heur_score_values:
  "sint (heur_score p h x f) = (if h then 25 + (if p then 30 else 0) else 0)
     + (if x then 40 else 0) + (if f then (if p then 10 else 20) else 0)"
  by (cases p; cases h; cases x; cases f) (simp_all add: heur_score_def)


subsection \<open>Features and outputs of the model\<close>

definition section_entropy :: "u8 list \<Rightarrow> pe_section \<Rightarrow> real" where
  "section_entropy buffer sec =
     (let start = unat (sec_pointer_to_raw_data sec); sz = unat (sec_size_of_raw_data sec) in
      if start + sz \<le> length buffer then calculate_entropy (slice start (start + sz) buffer) else 0)"

definition optional_features :: "pe_optional_header option \<Rightarrow> real list" where
  "optional_features opt =
     (case opt of
        Some h \<Rightarrow>
          [real (unat (oh_major_linker_version h)), real (unat (oh_minor_linker_version h)),
           real (unat (oh_size_of_code h)), real (unat (oh_size_of_initialized_data h)),
           real (unat (oh_size_of_uninitialized_data h)), real (unat (oh_address_of_entry_point h)),
           real (unat (oh_base_of_code h)), real (unat (oh_image_base h)),
           real (unat (oh_section_alignment h)), real (unat (oh_file_alignment h)),
           real (unat (oh_major_operating_system_version h)), real (unat (oh_minor_operating_system_version h)),
           real (unat (oh_size_of_image h)), real (unat (oh_size_of_headers h)),
           real (unat (oh_check_sum h)), real (unat (oh_subsystem h)), real (unat (oh_dll_characteristics h))]
      | None \<Rightarrow> replicate 17 0)"

text \<open>
  The minimum and maximum start from the infinities in the code and are zero when there is no
  section; over a list that is not empty the fold from its head gives the same value.
\<close>

definition min_entropy :: "real list \<Rightarrow> real" where
  "min_entropy es = (case es of [] \<Rightarrow> 0 | e # rest \<Rightarrow> fold (\<lambda>b a. min a b) rest e)"

definition max_entropy :: "real list \<Rightarrow> real" where
  "max_entropy es = (case es of [] \<Rightarrow> 0 | e # rest \<Rightarrow> fold (\<lambda>b a. max a b) rest e)"

definition mean_entropy :: "real list \<Rightarrow> real" where
  "mean_entropy es = (if es \<noteq> [] then sum_list es / real (length es) else 0)"

definition extract_ml_features :: "pe \<Rightarrow> u8 list \<Rightarrow> real list" where
  "extract_ml_features pe buffer =
     (let entropies = map (section_entropy buffer) (pe_sections pe) in
      [real (unat (pe_machine pe)), real (unat (pe_size_of_optional_header pe)),
       real (unat (pe_characteristics pe))]
      @ optional_features (pe_optional pe)
      @ [real (length (pe_sections pe)), mean_entropy entropies, min_entropy entropies, max_entropy entropies,
         real (pe_libraries pe), real (length (pe_imports pe)), real (pe_exports pe)])"

text \<open>
  An output tensor of the session is of one element type; the session is a function from the
  features to the outputs by name, \<open>None\<close> when the tensor, the lock or the run fails.
\<close>

datatype ml_tensor = F32_Tensor "real list" | I64_Tensor "int list" | Other_Tensor

type_synonym ml_session = "real list \<Rightarrow> (string \<rightharpoonup> ml_tensor) option"

definition predict_label :: "(string \<rightharpoonup> ml_tensor) \<Rightarrow> real" where
  "predict_label outputs =
     (case outputs ''label'' of
        Some (I64_Tensor (lbl # _)) \<Rightarrow> of_int lbl
      | _ \<Rightarrow> 0)"

definition predict :: "ml_session \<Rightarrow> real list \<Rightarrow> real" where
  "predict session features =
     (case session features of
        None \<Rightarrow> 0
      | Some outputs \<Rightarrow>
          (case (case outputs ''probabilities'' of
                   Some v \<Rightarrow> Some v
                 | None \<Rightarrow> outputs ''output_probability'') of
             Some (F32_Tensor data) \<Rightarrow> if 2 \<le> length data then data ! 1 else predict_label outputs
           | _ \<Rightarrow> predict_label outputs))"

lemma length_extract_ml_features: "length (extract_ml_features pe buffer) = 27"
  by (simp add: extract_ml_features_def optional_features_def Let_def split: option.split)

lemma section_entropy_bounds: "0 \<le> section_entropy buffer s \<and> section_entropy buffer s \<le> 8"
  by (simp add: section_entropy_def Let_def entropy_nonneg entropy_le_8)

lemma fold_min_le: "fold (\<lambda>b a. min a b) es (e :: real) \<le> e \<and> (\<forall>x \<in> set es. fold (\<lambda>b a. min a b) es e \<le> x)"
proof (induction es arbitrary: e)
  case (Cons y es)
  from Cons [of "min e y"] show ?case by auto
qed simp

lemma fold_max_ge: "e \<le> fold (\<lambda>b a. max a b) es (e :: real) \<and> (\<forall>x \<in> set es. x \<le> fold (\<lambda>b a. max a b) es e)"
proof (induction es arbitrary: e)
  case (Cons y es)
  from Cons [of "max e y"] show ?case by auto
qed simp

lemma min_max_entropy:
  "x \<in> set es \<Longrightarrow> min_entropy es \<le> x \<and> x \<le> max_entropy es"
  using fold_min_le fold_max_ge by (cases es) (auto simp: min_entropy_def max_entropy_def)

lemma min_in: "es \<noteq> [] \<Longrightarrow> min_entropy es \<in> set es"
proof -
  have "fold (\<lambda>b a. min a b) es e \<in> set (e # es)" for e :: real and es
    by (induction es arbitrary: e) (auto simp: min_def)
  then show "es \<noteq> [] \<Longrightarrow> min_entropy es \<in> set es" by (cases es) (auto simp: min_entropy_def)
qed

lemma max_in: "es \<noteq> [] \<Longrightarrow> max_entropy es \<in> set es"
proof -
  have "fold (\<lambda>b a. max a b) es e \<in> set (e # es)" for e :: real and es
    by (induction es arbitrary: e) (auto simp: max_def)
  then show "es \<noteq> [] \<Longrightarrow> max_entropy es \<in> set es" by (cases es) (auto simp: max_entropy_def)
qed

lemma mean_bounds:
  assumes "es \<noteq> []" and "\<And>e. e \<in> set es \<Longrightarrow> a \<le> e \<and> e \<le> (b :: real)"
  shows "a \<le> mean_entropy es \<and> mean_entropy es \<le> b"
proof -
  have "a * real (length es) \<le> sum_list es \<and> sum_list es \<le> b * real (length es)"
    using assms(2) by (induction es) (fastforce simp: algebra_simps)+
  with assms(1) show ?thesis by (simp add: mean_entropy_def field_simps)
qed


subsection \<open>Properties\<close>

text \<open>
  C0. The entropy of any data lies between 0 and 8 bits per byte, and the feature vector always has
  its 27 entries, in which the entropy features of the sections satisfy
  \<open>0 \<le> minimum \<le> mean \<le> maximum \<le> 8\<close>.
\<close>

theorem entropy_features_bounded:
  "0 \<le> calculate_entropy data \<and> calculate_entropy data \<le> 8
   \<and> length (extract_ml_features pe buffer) = 27
   \<and> 0 \<le> extract_ml_features pe buffer ! 22
   \<and> extract_ml_features pe buffer ! 22 \<le> extract_ml_features pe buffer ! 21
   \<and> extract_ml_features pe buffer ! 21 \<le> extract_ml_features pe buffer ! 23
   \<and> extract_ml_features pe buffer ! 23 \<le> 8"
proof -
  let ?es = "map (section_entropy buffer) (pe_sections pe)"
  have "length (optional_features (pe_optional pe)) = 17"
    by (simp add: optional_features_def split: option.split)
  then have nths: "extract_ml_features pe buffer ! 21 = mean_entropy ?es"
    "extract_ml_features pe buffer ! 22 = min_entropy ?es" "extract_ml_features pe buffer ! 23 = max_entropy ?es"
    by (simp_all add: extract_ml_features_def Let_def nth_append)
  have "0 \<le> min_entropy ?es \<and> min_entropy ?es \<le> mean_entropy ?es
      \<and> mean_entropy ?es \<le> max_entropy ?es \<and> max_entropy ?es \<le> 8"
  proof (cases "?es = []")
    case True
    then show ?thesis by (simp add: min_entropy_def mean_entropy_def max_entropy_def)
  next
    case False
    have b: "0 \<le> x \<and> x \<le> 8" if "x \<in> set ?es" for x using that section_entropy_bounds by auto
    show ?thesis
      using mean_bounds [OF False, of "min_entropy ?es" "max_entropy ?es"] min_max_entropy [of _ ?es]
        b [OF min_in [OF False]] b [OF max_in [OF False]] by blast
  qed
  then show ?thesis
    by (simp add: nths entropy_nonneg entropy_le_8 length_extract_ml_features)
qed

text \<open>
  Each heuristic counts once: whatever the number of sections that show a trait, the score is
  25 for a high-entropy section (30 more if a packer is known), 40 for a section that can be read,
  written and executed, and 20 (10 if packed) for fewer than three imports; the flags of the report
  say which traits were found.
\<close>

theorem heuristics_count_once:
  "\<exists>r. analyze_pe md5_hex buffer pe sigs = Some r
     \<and> hp_is_packed r = (packer_scan sigs pe buffer \<noteq> None)
     \<and> hp_high_entropy r = (\<exists>s \<in> set (pe_sections pe). section_high_entropy buffer s)
     \<and> hp_has_rwx r = (\<exists>s \<in> set (pe_sections pe). section_rwx s)
     \<and> sint (hp_score_mod r)
        = (if hp_high_entropy r then 25 + (if hp_is_packed r then 30 else 0) else 0)
        + (if hp_has_rwx r then 40 else 0)
        + (if length (pe_imports pe) < 3 then (if hp_is_packed r then 10 else 20) else 0)"
  using analyze_pe_report [of md5_hex buffer pe sigs]
  by (auto simp: packed_by_def heur_score_values simp del: not_None_eq)

end
