(* ===== verification/Agent_Analyzer.thy ===== *)
theory Agent_Analyzer
  imports Agent_Heuristics Scan_Cache
begin

text \<open>
  The static analysis of a process event: the stages and \<open>analyze_event\<close> of
  \<open>static_analyzer/mod.rs\<close>, the signature lookup of \<open>db.rs\<close>, the reading of the trust status
  of \<open>authenticode.rs\<close> and the verdict of \<open>engine/correlation.rs\<close>. What the code asks of the
  operating system, the database and its libraries are the fields of the record \<open>scan_env\<close>.
\<close>

subsection \<open>Signature database\<close>

text \<open>A row of the table; \<open>meta\<close> is the only column that may be null.\<close>

record sig_row =
  row_hash :: string
  row_type :: i32
  row_verdict :: i32
  row_meta :: "string option"

datatype ioc_type = Md5Hash | UnknownIoc

record signature_record =
  sr_hash :: string
  sr_ioc_type :: ioc_type
  sr_verdict :: i32
  sr_meta :: string

text \<open>\<open>None\<close> for the rows: the connection or the statement failed.\<close>

definition row_record :: "sig_row \<Rightarrow> signature_record option" where
  "row_record row =
     (case row_meta row of
        None \<Rightarrow> None
      | Some meta \<Rightarrow> Some \<lparr>sr_hash = row_hash row,
          sr_ioc_type = (if row_type row = 0 then Md5Hash else UnknownIoc),
          sr_verdict = row_verdict row, sr_meta = meta\<rparr>)"

definition check_signature :: "sig_row list option \<Rightarrow> string \<Rightarrow> signature_record option" where
  "check_signature db hash =
     (case db of
        None \<Rightarrow> None
      | Some rows \<Rightarrow>
          (case find (\<lambda>r. row_hash r = hash) rows of None \<Rightarrow> None | Some row \<Rightarrow> row_record row))"

subsection \<open>Authenticode\<close>

record signature_status =
  ss_is_signed :: bool
  ss_is_trusted :: bool
  ss_signer :: "string option"
  ss_is_revoked :: bool

definition TRUST_E_NOSIGNATURE :: u32 where "TRUST_E_NOSIGNATURE = 0x800B0100"
definition CERT_E_REVOKED :: u32 where "CERT_E_REVOKED = 0x800B010C"

text \<open>From the status of \<open>WinVerifyTrust\<close> and the name its provider data hold.\<close>

definition verify_signature :: "u32 \<times> string option \<Rightarrow> signature_status" where
  "verify_signature trust =
     (let (status, signer) = trust;
          is_trusted = (status = 0);
          is_signed = (status \<noteq> TRUST_E_NOSIGNATURE);
          is_revoked = (status = CERT_E_REVOKED);
          signer_name = (if is_signed then signer else None)
      in \<lparr>ss_is_signed = is_signed, ss_is_trusted = is_trusted, ss_signer = signer_name,
          ss_is_revoked = is_revoked\<rparr>)"

subsection \<open>The result of an analysis\<close>

record analysis_result =
  ar_event :: galatea_event
  ar_threat_score :: i32
  ar_md5_hash :: "string option"
  ar_signature_match :: "signature_match option"
  ar_authenticode :: "authenticode_info option"
  ar_heuristics :: "heuristic_results option"
  ar_ml_prediction :: "ml_prediction option"
  ar_verdict_allow :: bool
  ar_size :: u64
  ar_mod_time :: instant

definition new_analysis_result :: "galatea_event \<Rightarrow> analysis_result" where
  "new_analysis_result event =
     \<lparr>ar_event = event, ar_threat_score = 0, ar_md5_hash = None, ar_signature_match = None,
      ar_authenticode = None, ar_heuristics = None, ar_ml_prediction = None,
      ar_verdict_allow = True, ar_size = 0, ar_mod_time = 0\<rparr>"

definition details_of :: "analysis_result \<Rightarrow> detection_details" where
  "details_of ctx =
     \<lparr>dd_threat_score = ar_threat_score ctx, dd_md5_hash = ar_md5_hash ctx,
      dd_signature_match = ar_signature_match ctx, dd_authenticode = ar_authenticode ctx,
      dd_heuristics = ar_heuristics ctx, dd_ml_prediction = ar_ml_prediction ctx\<rparr>"

definition build_result_from_details ::
  "galatea_event \<Rightarrow> detection_details \<Rightarrow> bool \<Rightarrow> u64 \<Rightarrow> instant \<Rightarrow> analysis_result" where
  "build_result_from_details event details allow sz mod_time =
     \<lparr>ar_event = event, ar_threat_score = dd_threat_score details, ar_md5_hash = dd_md5_hash details,
      ar_signature_match = dd_signature_match details, ar_authenticode = dd_authenticode details,
      ar_heuristics = dd_heuristics details, ar_ml_prediction = dd_ml_prediction details,
      ar_verdict_allow = allow, ar_size = sz, ar_mod_time = mod_time\<rparr>"

datatype stage_outcome = Continue | Block | Allow

text \<open>
  The environment of a scan: \<open>calc_md5\<close> of a file (\<open>None\<close> an error), the digest of a text,
  the database, the trust provider, the model, the file contents and the parsed file.
\<close>

record scan_env =
  env_calc_md5 :: "string \<Rightarrow> string option"
  env_md5_hex :: "string \<Rightarrow> string"
  env_db :: "sig_row list option"
  env_trust :: "string \<Rightarrow> u32 \<times> string option"
  env_ml :: "ml_session option"
  env_packers :: "pack_signature list"
  env_read :: "string \<Rightarrow> u8 list option"
  env_parse :: "u8 list \<Rightarrow> pe option"

subsection \<open>Stages\<close>

definition above_threshold :: "analysis_result \<Rightarrow> bool" where
  "above_threshold ctx = i32_lt STAT_BLOCK_THRESHOLD (ar_threat_score ctx)"

definition block_if_above :: "analysis_result \<Rightarrow> analysis_result \<times> stage_outcome" where
  "block_if_above ctx = (ctx, if above_threshold ctx then Block else Continue)"

definition stage_signature_check ::
  "scan_env \<Rightarrow> string \<Rightarrow> analysis_result \<Rightarrow> analysis_result \<times> stage_outcome" where
  "stage_signature_check env image_path ctx =
     (let hash_md5 = (case env_calc_md5 env image_path of Some h \<Rightarrow> h | None \<Rightarrow> []) in
      if hash_md5 \<noteq> [] then
        (let ctx = ctx\<lparr>ar_md5_hash := Some hash_md5\<rparr> in
         case check_signature (env_db env) hash_md5 of
           Some sig \<Rightarrow>
             (if sr_ioc_type sig = Md5Hash then
                block_if_above (ctx\<lparr>ar_signature_match := Some \<lparr>sm_hash = sr_hash sig,
                    sm_verdict_score = sr_verdict sig, sm_metadata = sr_meta sig\<rparr>,
                  ar_threat_score := ar_threat_score ctx + sr_verdict sig\<rparr>)
              else (ctx, Continue))
         | None \<Rightarrow> (ctx, Continue))
      else (ctx, Continue))"

definition add_authenticode ::
  "signature_status \<Rightarrow> bool \<Rightarrow> bool \<Rightarrow> i32 \<Rightarrow> analysis_result \<Rightarrow> analysis_result" where
  "add_authenticode sig trusted revoked n ctx =
     ctx\<lparr>ar_threat_score := ar_threat_score ctx + n,
       ar_authenticode := Some \<lparr>ai_is_signed = True, ai_is_trusted = trusted, ai_is_revoked = revoked,
         ai_signer = ss_signer sig, ai_score_modifier = n\<rparr>\<rparr>"

definition stage_authenticode_check ::
  "scan_env \<Rightarrow> string \<Rightarrow> analysis_result \<Rightarrow> analysis_result \<times> stage_outcome" where
  "stage_authenticode_check env image_path ctx =
     (let sig = verify_signature (env_trust env image_path);
          ctx = (if ss_is_signed sig then
                   (if ss_is_trusted sig then add_authenticode sig True False CODE_SIGN_FORGIVENESS ctx
                    else if ss_is_revoked sig then add_authenticode sig False True CODE_SIGN_REVOKED ctx
                    else add_authenticode sig False False CODE_SIGN_UNTRUSTED ctx)
                 else ctx)
      in block_if_above ctx)"

definition stage_ml_check ::
  "scan_env \<Rightarrow> u8 list option \<Rightarrow> pe option \<Rightarrow> analysis_result \<Rightarrow> analysis_result \<times> stage_outcome" where
  "stage_ml_check env file_buffer file_pe ctx =
     (case (env_ml env, file_buffer, file_pe) of
        (Some engine, Some buffer, Some pe) \<Rightarrow>
          (let ml_prob = predict engine (extract_ml_features pe buffer) in
           (if ml_prob > ML_CERTAINTY_MAL
            then ctx\<lparr>ar_threat_score := ar_threat_score ctx + ML_MALICIOUS,
                     ar_ml_prediction := Some \<lparr>mp_malicious_probability = ml_prob,
                       mp_score_modifier = ML_MALICIOUS\<rparr>\<rparr>
            else ctx, Continue))
      | _ \<Rightarrow> (ctx, Continue))"

definition stage_heuristic_check ::
  "scan_env \<Rightarrow> u8 list option \<Rightarrow> pe option \<Rightarrow> analysis_result \<Rightarrow> analysis_result \<times> stage_outcome" where
  "stage_heuristic_check env file_buffer file_pe ctx =
     (case (file_buffer, file_pe) of
        (Some buffer, Some pe) \<Rightarrow>
          (case analyze_pe (env_md5_hex env) buffer pe (env_packers env) of
             Some rep \<Rightarrow>
               block_if_above (ctx\<lparr>ar_threat_score := ar_threat_score ctx + hp_score_mod rep,
                 ar_heuristics := Some \<lparr>hr_is_packed = hp_is_packed rep, hr_packer_name = hp_packer rep,
                   hr_has_rwx_sections = hp_has_rwx rep, hr_high_entropy = hp_high_entropy rep,
                   hr_imphash = (if hp_imphash rep \<noteq> [] then Some (hp_imphash rep) else None),
                   hr_score_modifier = hp_score_mod rep\<rparr>\<rparr>)
           | None \<Rightarrow> (ctx, Continue))
      | _ \<Rightarrow> (ctx, Continue))"

text \<open>The loop over the stages.\<close>

fun run_stages ::
  "(analysis_result \<Rightarrow> analysis_result \<times> stage_outcome) list \<Rightarrow> analysis_result \<Rightarrow> analysis_result" where
  "run_stages [] ctx = ctx"
| "run_stages (stage # stages) ctx =
     (case stage ctx of
        (ctx', Block) \<Rightarrow> ctx'\<lparr>ar_verdict_allow := False\<rparr>
      | (ctx', Continue) \<Rightarrow> run_stages stages ctx'
      | (ctx', Allow) \<Rightarrow> ctx')"

definition scan_stages ::
  "scan_env \<Rightarrow> string \<Rightarrow> u8 list option \<Rightarrow> pe option
     \<Rightarrow> (analysis_result \<Rightarrow> analysis_result \<times> stage_outcome) list" where
  "scan_stages env image_path file_buffer file_pe =
     [stage_signature_check env image_path,
      stage_authenticode_check env image_path,
      stage_ml_check env file_buffer file_pe,
      stage_heuristic_check env file_buffer file_pe]"

subsection \<open>The verdict of the stages\<close>

text \<open>What the loop keeps: the verdict so far allows, and the score so far is not above the threshold.\<close>

definition below :: "analysis_result \<Rightarrow> bool" where
  "below ctx \<longleftrightarrow> ar_verdict_allow ctx \<and> \<not> above_threshold ctx"

text \<open>A stage that checks the score: it blocks exactly above the threshold, and keeps the verdict.\<close>

definition checks_score :: "(analysis_result \<Rightarrow> analysis_result \<times> stage_outcome) \<Rightarrow> bool" where
  "checks_score stage \<longleftrightarrow> (\<forall>ctx. below ctx \<longrightarrow>
     ar_verdict_allow (fst (stage ctx)) \<and> ar_event (fst (stage ctx)) = ar_event ctx
     \<and> snd (stage ctx) = (if above_threshold (fst (stage ctx)) then Block else Continue))"

lemma above_threshold_frame [simp]:
  "above_threshold (ctx\<lparr>ar_md5_hash := h\<rparr>) = above_threshold ctx"
  "above_threshold (ctx\<lparr>ar_verdict_allow := b\<rparr>) = above_threshold ctx"
  "above_threshold (ctx\<lparr>ar_ml_prediction := m\<rparr>) = above_threshold ctx"
  by (simp_all add: above_threshold_def)

lemma checking_signature: "checks_score (stage_signature_check env path)"
  by (auto simp: checks_score_def stage_signature_check_def block_if_above_def Let_def below_def split: option.splits)

lemma checking_authenticode: "checks_score (stage_authenticode_check env path)"
  by (auto simp: checks_score_def stage_authenticode_check_def add_authenticode_def block_if_above_def
      Let_def below_def)

text \<open>
  The stage of the model does not check the score; the heuristics that follow it do, whenever the
  model had a file to look at.
\<close>

definition ml_then_heuristics ::
  "scan_env \<Rightarrow> u8 list option \<Rightarrow> pe option \<Rightarrow> analysis_result \<Rightarrow> analysis_result \<times> stage_outcome" where
  "ml_then_heuristics env buf pe ctx = stage_heuristic_check env buf pe (fst (stage_ml_check env buf pe ctx))"

lemma ml_check_continues: "snd (stage_ml_check env buf pe ctx) = Continue"
  by (simp add: stage_ml_check_def Let_def split: option.split)

lemma ml_check_frame:
  "ar_verdict_allow (fst (stage_ml_check env buf pe ctx)) = ar_verdict_allow ctx"
  "ar_event (fst (stage_ml_check env buf pe ctx)) = ar_event ctx"
  by (simp_all add: stage_ml_check_def Let_def split: option.split)

lemma checking_ml_heuristics: "checks_score (ml_then_heuristics env buf pe)"
proof (cases "buf = None \<or> pe = None")
  case True
  then have "ml_then_heuristics env buf pe ctx = (ctx, Continue)" for ctx
    by (auto simp: ml_then_heuristics_def stage_ml_check_def stage_heuristic_check_def split: option.split)
  then show ?thesis by (simp add: checks_score_def below_def)
next
  case False
  then obtain b p where bp: "buf = Some b" "pe = Some p" by auto
  obtain r where "analyze_pe (env_md5_hex env) b p (env_packers env) = Some r"
    using analyze_pe_report by blast
  then show ?thesis
    by (simp add: checks_score_def ml_then_heuristics_def stage_heuristic_check_def bp block_if_above_def
        below_def ml_check_frame)
qed

lemma checking_loop:
  assumes "checks_score stage" and "below ctx"
  shows "below (fst (stage ctx)) \<and> snd (stage ctx) = Continue
    \<or> above_threshold (fst (stage ctx)) \<and> snd (stage ctx) = Block"
  using assms by (auto simp: checks_score_def below_def)

lemma run_stages_Cons:
  "run_stages (stage # stages) ctx =
     (case snd (stage ctx) of
        Block \<Rightarrow> (fst (stage ctx))\<lparr>ar_verdict_allow := False\<rparr>
      | Continue \<Rightarrow> run_stages stages (fst (stage ctx))
      | Allow \<Rightarrow> fst (stage ctx))"
  by (simp add: case_prod_beta)

lemma run_stages_ml:
  "run_stages [stage_ml_check env buf pe, stage_heuristic_check env buf pe] ctx
     = run_stages [ml_then_heuristics env buf pe] ctx"
proof -
  have "ml_then_heuristics env buf pe ctx = stage_heuristic_check env buf pe (fst (stage_ml_check env buf pe ctx))"
    by (simp add: ml_then_heuristics_def)
  then show ?thesis
    by (simp only: run_stages_Cons ml_check_continues stage_outcome.case)
qed

lemma run_checking_stages:
  assumes "\<And>stage. stage \<in> set stages \<Longrightarrow> checks_score stage" and "below ctx"
  shows "ar_verdict_allow (run_stages stages ctx) \<longleftrightarrow> \<not> above_threshold (run_stages stages ctx)"
    and "ar_event (run_stages stages ctx) = ar_event ctx"
proof -
  have "(ar_verdict_allow (run_stages stages ctx) \<longleftrightarrow> \<not> above_threshold (run_stages stages ctx))
    \<and> ar_event (run_stages stages ctx) = ar_event ctx"
    using assms
  proof (induction stages arbitrary: ctx)
    case Nil
    then show ?case by (simp add: below_def)
  next
    case (Cons stage stages)
    have c: "checks_score stage" using Cons.prems(1) by simp
    have e: "ar_event (fst (stage ctx)) = ar_event ctx"
      using c Cons.prems(2) by (simp add: checks_score_def)
    from checking_loop [OF c Cons.prems(2)] show ?case
    proof
      assume a: "below (fst (stage ctx)) \<and> snd (stage ctx) = Continue"
      then show ?case
        using Cons.IH [of "fst (stage ctx)"] Cons.prems(1) e by (simp add: run_stages_Cons del: run_stages.simps(2))
    next
      assume "above_threshold (fst (stage ctx)) \<and> snd (stage ctx) = Block"
      then show ?case using e by (simp add: run_stages_Cons del: run_stages.simps(2))
    qed
  qed
  then show "ar_verdict_allow (run_stages stages ctx) \<longleftrightarrow> \<not> above_threshold (run_stages stages ctx)"
    and "ar_event (run_stages stages ctx) = ar_event ctx" by simp_all
qed

lemma scan_stages_verdict:
  assumes "below ctx"
  shows "ar_verdict_allow (run_stages (scan_stages env path buf pe) ctx)
           \<longleftrightarrow> \<not> above_threshold (run_stages (scan_stages env path buf pe) ctx)"
    and "ar_event (run_stages (scan_stages env path buf pe) ctx) = ar_event ctx"
proof -
  let ?three = "[stage_signature_check env path, stage_authenticode_check env path, ml_then_heuristics env buf pe]"
  have eq: "run_stages (scan_stages env path buf pe) ctx = run_stages ?three ctx"
    unfolding scan_stages_def
    by (simp only: run_stages_Cons [of "stage_signature_check env path"]
        run_stages_Cons [of "stage_authenticode_check env path"] run_stages_ml)
  have c: "checks_score stage" if "stage \<in> set ?three" for stage
    using that checking_signature checking_authenticode checking_ml_heuristics by auto
  show "ar_verdict_allow (run_stages (scan_stages env path buf pe) ctx)
           \<longleftrightarrow> \<not> above_threshold (run_stages (scan_stages env path buf pe) ctx)"
    unfolding eq by (rule run_checking_stages(1) [OF c assms])
  show "ar_event (run_stages (scan_stages env path buf pe) ctx) = ar_event ctx"
    unfolding eq by (rule run_checking_stages(2) [OF c assms])
qed


subsection \<open>Correlation\<close>

text \<open>
  What an analysis does to the outside: a detection event to the clients (the identifier and the
  time are the environment's), a verdict to the driver, the injection of the hook library.
\<close>

datatype effect =
    Send_Ipc ipc_message
  | Send_Verdict galatea_verdict
  | Inject u64 string

definition trim_nul :: "string \<Rightarrow> string" where
  "trim_nul = trim_matches (\<lambda>c. byte_of c = 0)"

definition event_image :: "galatea_event \<Rightarrow> string" where
  "event_image event = trim_nul (from_utf16_lossy (ge_image_path event))"

text \<open>What \<open>get_process_info\<close> found out, and the record the events carry.\<close>

definition event_process_info :: "process_info option \<Rightarrow> u64 \<Rightarrow> string \<Rightarrow> process_info" where
  "event_process_info data pid image_path =
     \<lparr>pi_pid = pid,
      pi_name = (case data of Some p \<Rightarrow> pi_name p | None \<Rightarrow> ''Unknown''),
      pi_path = (case data of Some p \<Rightarrow> pi_path p | None \<Rightarrow> image_path),
      pi_parent_pid = (case data of Some p \<Rightarrow> pi_parent_pid p | None \<Rightarrow> None),
      pi_command_line = (case data of Some p \<Rightarrow> pi_command_line p | None \<Rightarrow> None),
      pi_creation_time = (case data of Some p \<Rightarrow> pi_creation_time p | None \<Rightarrow> None)\<rparr>"

record report_env =
  rp_process_info :: "u64 \<Rightarrow> process_info option"
  rp_event_id :: string
  rp_now :: instant
  rp_ipc :: bool

definition broadcast_static_process_verdict :: "report_env \<Rightarrow> analysis_result \<Rightarrow> effect list" where
  "broadcast_static_process_verdict rp result =
     (let pid = ge_process_id (ar_event result);
          detection_event =
            \<lparr>de_event_id = rp_event_id rp, de_timestamp = rp_now rp,
             de_process_info = event_process_info (rp_process_info rp pid) pid (event_image (ar_event result)),
             de_detection = details_of result,
             de_verdict = (if ar_verdict_allow result then Allowed else Blocked)\<rparr>
      in (if rp_ipc rp then [Send_Ipc (Detection detection_event)] else [])
         @ [Send_Verdict \<lparr>gv_process_id = pid, gv_request_id = ge_request_id (ar_event result),
                          gv_allow = ar_verdict_allow result\<rparr>])"

subsection \<open>Analysis of an event\<close>

text \<open>
  What the cache of \<open>Scan_Cache\<close> and its barriers answer:
  two attempts to acquire the scan and, where they return a barrier, the two waits. The path of the
  hook library is \<open>None\<close> when it is not UTF-8.
\<close>

record analysis_env =
  ae_scan :: scan_env
  ae_report :: report_env
  ae_canonicalize :: "string \<Rightarrow> string option"
  ae_metadata :: "string \<Rightarrow> (instant option \<times> u64) option"
  ae_acquire1 :: "wait_result scan_outcome"
  ae_acquire2 :: "wait_result scan_outcome"
  ae_file_index :: "string \<Rightarrow> u64 option"
  ae_dll_path :: "string option"

text \<open>What the analysis leaves for the cache: nothing, an aborted scan, or the completed one.\<close>

datatype guard_end = No_Guard | Aborted | Completes completed_scan

definition allow_details :: "detection_details \<Rightarrow> bool" where
  "allow_details d \<longleftrightarrow> i32_le (dd_threat_score d) STAT_BLOCK_THRESHOLD"

definition fail_closed :: "analysis_env \<Rightarrow> galatea_event \<Rightarrow> effect list \<times> guard_end" where
  "fail_closed env event =
     (broadcast_static_process_verdict (ae_report env)
        ((new_analysis_result event)\<lparr>ar_verdict_allow := False\<rparr>), No_Guard)"

definition reuse_details ::
  "analysis_env \<Rightarrow> galatea_event \<Rightarrow> detection_details \<Rightarrow> u64 \<Rightarrow> instant \<Rightarrow> effect list \<times> guard_end" where
  "reuse_details env event details sz time =
     (broadcast_static_process_verdict (ae_report env)
        (build_result_from_details event details (allow_details details) sz time), No_Guard)"

text \<open>The part after the scan slot was acquired.\<close>

definition run_scan ::
  "analysis_env \<Rightarrow> galatea_event \<Rightarrow> string \<Rightarrow> u64 \<Rightarrow> instant \<Rightarrow> effect list \<times> guard_end" where
  "run_scan env event image_path file_size last_write =
     (let ctx = (new_analysis_result event)\<lparr>ar_size := file_size, ar_mod_time := last_write\<rparr>;
          file_buffer = env_read (ae_scan env) image_path;
          file_pe = (case file_buffer of None \<Rightarrow> None | Some buf \<Rightarrow> env_parse (ae_scan env) buf)
      in if file_buffer = None
         then (broadcast_static_process_verdict (ae_report env) (ctx\<lparr>ar_verdict_allow := False\<rparr>), Aborted)
         else
           (let ctx = run_stages (scan_stages (ae_scan env) image_path file_buffer file_pe) ctx;
                scan = \<lparr>cs_details = details_of ctx, cs_mod_time = last_write, cs_file_size = file_size,
                        cs_file_index = ae_file_index env image_path\<rparr>
            in ((case ae_dll_path env of
                   Some path \<Rightarrow> if ar_verdict_allow ctx then [Inject (ge_process_id (ar_event ctx)) path] else []
                 | None \<Rightarrow> [])
                  @ broadcast_static_process_verdict (ae_report env) ctx, Completes scan)))"

definition analyze_frozen ::
  "analysis_env \<Rightarrow> galatea_event \<Rightarrow> string \<Rightarrow> effect list \<times> guard_end" where
  "analyze_frozen env event image_path =
     (case ae_metadata env image_path of
        None \<Rightarrow> fail_closed env event
      | Some (modified, file_size) \<Rightarrow>
          (let last_write = (case modified of Some t \<Rightarrow> t | None \<Rightarrow> 0) in
           if 0 < file_size then
             (case ae_acquire1 env of
                Cache_Hit details \<Rightarrow> reuse_details env event details file_size last_write
              | Acquired _ \<Rightarrow> run_scan env event image_path file_size last_write
              | Wait (Completed scan) \<Rightarrow>
                  reuse_details env event (cs_details scan) (cs_file_size scan) (cs_mod_time scan)
              | Wait _ \<Rightarrow>
                  (case ae_acquire2 env of
                     Cache_Hit details \<Rightarrow> reuse_details env event details file_size last_write
                   | Acquired _ \<Rightarrow> run_scan env event image_path file_size last_write
                   | Wait (Completed scan) \<Rightarrow>
                       reuse_details env event (cs_details scan) (cs_file_size scan) (cs_mod_time scan)
                   | Wait _ \<Rightarrow> fail_closed env event))
           else fail_closed env event))"

definition analyze_system :: "analysis_env \<Rightarrow> galatea_event \<Rightarrow> string \<Rightarrow> effect list" where
  "analyze_system env event image_path =
     (if SHOW_SYSTEM_PROCESSES \<and> rp_ipc (ae_report env) then
        [Send_Ipc (Detection
           \<lparr>de_event_id = rp_event_id (ae_report env), de_timestamp = rp_now (ae_report env),
            de_process_info = event_process_info (rp_process_info (ae_report env) (ge_process_id event))
              (ge_process_id event) image_path,
            de_detection = \<lparr>dd_threat_score = 0, dd_md5_hash = None, dd_signature_match = None,
              dd_authenticode = None, dd_heuristics = None, dd_ml_prediction = None\<rparr>,
            de_verdict = SystemAllowed\<rparr>)]
      else [])"

definition analyze_event :: "analysis_env \<Rightarrow> galatea_event \<Rightarrow> effect list \<times> guard_end" where
  "analyze_event env event =
     (let raw_path = event_image event;
          image_path = (case ae_canonicalize env raw_path of Some p \<Rightarrow> p | None \<Rightarrow> raw_path)
      in if ge_frozen event then analyze_frozen env event image_path
         else (analyze_system env event image_path, No_Guard))"


subsection \<open>Properties\<close>

fun verdicts_in :: "effect list \<Rightarrow> galatea_verdict list" where
  "verdicts_in [] = []"
| "verdicts_in (Send_Verdict v # es) = v # verdicts_in es"
| "verdicts_in (_ # es) = verdicts_in es"

lemma verdicts_in_append [simp]: "verdicts_in (xs @ ys) = verdicts_in xs @ verdicts_in ys"
  by (induction xs rule: verdicts_in.induct) simp_all

lemma verdicts_in_inject [simp]:
  "verdicts_in (case d of None \<Rightarrow> [] | Some p \<Rightarrow> if b then [Inject x p] else []) = []"
  by (simp split: option.split)

definition verdict_for :: "galatea_event \<Rightarrow> bool \<Rightarrow> galatea_verdict" where
  "verdict_for event allow =
     \<lparr>gv_process_id = ge_process_id event, gv_request_id = ge_request_id event, gv_allow = allow\<rparr>"

lemma verdicts_in_broadcast:
  "verdicts_in (broadcast_static_process_verdict rp r) = [verdict_for (ar_event r) (ar_verdict_allow r)]"
  by (simp add: broadcast_static_process_verdict_def Let_def verdict_for_def)

lemma below_new: "below ((new_analysis_result event)\<lparr>ar_size := sz, ar_mod_time := t\<rparr>)"
  by (simp add: below_def above_threshold_def new_analysis_result_def i32_lt_def score_defs)

lemma details_allow: "allow_details (details_of ctx) \<longleftrightarrow> \<not> above_threshold ctx"
  by (simp add: allow_details_def details_of_def above_threshold_def i32_le_iff_not_lt)

lemma run_scan_cases:
  obtains (unreadable) "env_read (ae_scan env) path = None"
      and "verdicts_in (fst (run_scan env event path sz t)) = [verdict_for event False]"
      and "snd (run_scan env event path sz t) = Aborted"
  | (scanned) scan where "snd (run_scan env event path sz t) = Completes scan"
      and "env_read (ae_scan env) path \<noteq> None"
      and "verdicts_in (fst (run_scan env event path sz t)) = [verdict_for event (allow_details (cs_details scan))]"
proof (cases "env_read (ae_scan env) path")
  case None
  then show thesis
    by (intro unreadable) (simp_all add: run_scan_def Let_def verdicts_in_broadcast new_analysis_result_def)
next
  case (Some buf)
  define ctx where "ctx = run_stages (scan_stages (ae_scan env) path (Some buf) (env_parse (ae_scan env) buf))
    ((new_analysis_result event)\<lparr>ar_size := sz, ar_mod_time := t\<rparr>)"
  have v: "ar_verdict_allow ctx \<longleftrightarrow> \<not> above_threshold ctx"
    unfolding ctx_def by (rule scan_stages_verdict(1) [OF below_new])
  have e: "ar_event ctx = event"
    unfolding ctx_def by (subst scan_stages_verdict(2) [OF below_new]) (simp add: new_analysis_result_def)
  let ?scan = "\<lparr>cs_details = details_of ctx, cs_mod_time = t, cs_file_size = sz,
      cs_file_index = ae_file_index env path\<rparr>"
  have "snd (run_scan env event path sz t) = Completes ?scan"
    "verdicts_in (fst (run_scan env event path sz t)) = [verdict_for event (allow_details (cs_details ?scan))]"
    using Some v e by (simp_all add: run_scan_def Let_def verdicts_in_broadcast details_allow flip: ctx_def)
  with Some show thesis by (intro scanned [of ?scan]) simp_all
qed

lemma verdicts_in_fail_closed: "verdicts_in (fst (fail_closed env event)) = [verdict_for event False]"
  by (simp add: fail_closed_def verdicts_in_broadcast new_analysis_result_def)

lemma verdicts_in_reuse:
  "verdicts_in (fst (reuse_details env event d sz t)) = [verdict_for event (allow_details d)]"
  by (simp add: reuse_details_def verdicts_in_broadcast build_result_from_details_def)

lemma run_scan_one: "\<exists>a. verdicts_in (fst (run_scan env event path sz t)) = [verdict_for event a]"
  by (cases rule: run_scan_cases [where env = env and event = event and path = path and sz = sz and t = t]) auto

lemma analyze_frozen_one: "\<exists>a. verdicts_in (fst (analyze_frozen env event path)) = [verdict_for event a]"
  using verdicts_in_fail_closed verdicts_in_reuse run_scan_one
  unfolding analyze_frozen_def Let_def
  by (split option.split prod.split if_split scan_outcome.split wait_result.split)+ blast

text \<open>
  C0. Every event of a frozen process is answered once: whatever the cache, the waits, the file and
  the engines do, exactly one verdict goes to the driver, for the process and the request of the
  event; an event of a process that was not frozen gets none.
\<close>

theorem one_verdict_per_event:
  "if ge_frozen event
   then \<exists>allow. verdicts_in (fst (analyze_event env event)) =
          [\<lparr>gv_process_id = ge_process_id event, gv_request_id = ge_request_id event, gv_allow = allow\<rparr>]
   else verdicts_in (fst (analyze_event env event)) = []"
  using analyze_frozen_one [of env event]
  by (simp add: analyze_event_def analyze_system_def Let_def verdict_for_def)


text \<open>
  C7. The agent fails closed: a frozen process whose file cannot be stated, is empty, cannot be
  read, or is scanned elsewhere without a result twice in a row, is blocked.
\<close>

theorem fails_closed:
  assumes "ge_frozen event" and "path = (case ae_canonicalize env (event_image event) of
      Some p \<Rightarrow> p | None \<Rightarrow> event_image event)"
    and "ae_metadata env path = None
      \<or> (\<exists>m. ae_metadata env path = Some (m, 0))
      \<or> env_read (ae_scan env) path = None \<and> ae_acquire1 env = Acquired g
      \<or> ae_acquire1 env \<in> {Wait Failed, Wait Timed_Out} \<and> ae_acquire2 env \<in> {Wait Failed, Wait Timed_Out}"
  shows "verdicts_in (fst (analyze_event env event)) =
    [\<lparr>gv_process_id = ge_process_id event, gv_request_id = ge_request_id event, gv_allow = False\<rparr>]"
proof -
  have unreadable: "verdicts_in (fst (run_scan env event path sz t)) = [verdict_for event False]"
    if "env_read (ae_scan env) path = None" for sz t
    using that
    by (cases rule: run_scan_cases [where env = env and event = event and path = path and sz = sz and t = t]) auto
  have "verdicts_in (fst (analyze_frozen env event path)) = [verdict_for event False]"
    using assms(3) verdicts_in_fail_closed [of env event] unreadable
    by (auto simp: analyze_frozen_def split: option.split)
  with assms(1,2) show ?thesis by (simp add: analyze_event_def Let_def verdict_for_def)
qed

text \<open>A file system with no file, for the witnesses.\<close>

definition empty_env :: analysis_env where
  "empty_env = \<lparr>ae_scan = \<lparr>env_calc_md5 = (\<lambda>_. None), env_md5_hex = (\<lambda>s. s), env_db = Some [],
       env_trust = (\<lambda>_. (TRUST_E_NOSIGNATURE, None)), env_ml = None, env_packers = [],
       env_read = (\<lambda>_. Some [77, 90]), env_parse = (\<lambda>_. None)\<rparr>,
     ae_report = \<lparr>rp_process_info = (\<lambda>_. None), rp_event_id = ''e1'', rp_now = 0, rp_ipc = False\<rparr>,
     ae_canonicalize = (\<lambda>_. None), ae_metadata = (\<lambda>_. None), ae_acquire1 = Acquired None, ae_acquire2 = Acquired None,
     ae_file_index = (\<lambda>_. None), ae_dll_path = None\<rparr>"

definition frozen_event :: galatea_event where
  "frozen_event = \<lparr>ge_process_id = 42, ge_request_id = 7, ge_frozen = True, ge_image_path = replicate PATH_LEN 0\<rparr>"

theorem fails_closed_witness:
  "verdicts_in (fst (analyze_event empty_env frozen_event)) =
     [\<lparr>gv_process_id = 42, gv_request_id = 7, gv_allow = False\<rparr>]"
  using fails_closed [of frozen_event _ empty_env] by (simp add: frozen_event_def empty_env_def)



text \<open>
  C0. A file of score exactly 80 is recorded as malicious, which is documented as having crossed the
  blocking threshold, and its process is allowed: the two thresholds differ by one, and only there.
\<close>

theorem reputation_and_verdict:
  "su_verdict (scan_summary_of scan) = Malicious \<longleftrightarrow>
     \<not> allow_details (cs_details scan) \<or> sint (dd_threat_score (cs_details scan)) = 80"
  by (auto simp: scan_summary_of_def allow_details_def Let_def i32_le_def score_defs)

text \<open>
  A file whose digest the database knows as bad, with a score above 80, is blocked at the first
  stage, whatever the other engines would say: no certificate can outweigh it. A row without a
  description is not found at all.
\<close>

theorem known_bad_is_blocked:
  assumes "env_calc_md5 env path = Some hash" and "hash \<noteq> []" and "env_db env = Some rows"
    and "find (\<lambda>r. row_hash r = hash) rows = Some row" and "row_type row = 0" and "80 < sint (row_verdict row)"
  shows "if row_meta row = None then check_signature (env_db env) hash = None
    else run_stages (scan_stages env path buf pe) (new_analysis_result event) =
      (new_analysis_result event)\<lparr>ar_md5_hash := Some hash, ar_threat_score := row_verdict row,
        ar_signature_match := Some \<lparr>sm_hash = row_hash row, sm_verdict_score = row_verdict row,
          sm_metadata = the (row_meta row)\<rparr>, ar_verdict_allow := False\<rparr>"
  using assms
  by (auto simp: check_signature_def row_record_def scan_stages_def stage_signature_check_def Let_def
      block_if_above_def above_threshold_def new_analysis_result_def i32_lt_def score_defs)

definition bad_row :: sig_row where
  "bad_row = \<lparr>row_hash = ''0cc1'', row_type = 0, row_verdict = 100, row_meta = Some ''eicar''\<rparr>"

definition bad_env :: scan_env where
  "bad_env = (ae_scan empty_env)\<lparr>env_calc_md5 := (\<lambda>_. Some ''0cc1''), env_db := Some [bad_row]\<rparr>"

theorem known_bad_is_blocked_witness:
  "\<not> ar_verdict_allow (run_stages (scan_stages bad_env ''c:/a.exe'' None None) (new_analysis_result frozen_event))"
  using known_bad_is_blocked [of bad_env "''c:/a.exe''" "''0cc1''" "[bad_row]" bad_row None None frozen_event]
  by (simp add: bad_env_def bad_row_def)

end
