(* ===== verification/Verdict_Pipeline.thy ===== *)
theory Verdict_Pipeline
  imports Driver_Io Agent_Analyzer
begin

text \<open>
  The way of a verdict, from the start of a process to its end or release: the sensor's callbacks and APCs,
  the requests of the agent, the analysis of the event, and the verdict that goes back.
\<close>

subsection \<open>The endpoint\<close>

text \<open>The event that the process callback makes, if it makes one.\<close>

definition notified_events :: "u64 \<Rightarrow> create_info option \<Rightarrow> sensor \<Rightarrow> galatea_event list" where
  "notified_events process_id create_info s =
     (case Option.bind create_info ci_image_file_name of
        None \<Rightarrow> []
      | Some img \<Rightarrow>
          [\<lparr>ge_process_id = process_id, ge_request_id = request_id_counter s,
            ge_frozen = (\<not> is_allowlisted_static (Some img)), ge_image_path = event_image_path (Some img)\<rparr>])"

text \<open>An event goes to the request that waits for one, or to the end of the queue.\<close>

lemma notified_event_goes_out:
  assumes "Option.bind create_info ci_image_file_name = Some img"
  shows "process_notify_routine pid create_info s =
     notify_agent pid (request_id_counter s) (Some img) (\<not> is_allowlisted_static (Some img))
       (if \<not> is_allowlisted_static (Some img)
        then push_target pid (request_id_counter s) (s\<lparr>request_id_counter := request_id_counter s + 1\<rparr>)
        else s\<lparr>request_id_counter := request_id_counter s + 1\<rparr>)"
  using assms by (cases create_info) (auto simp: process_notify_routine_def Let_def)

text \<open>
  The system of \<open>Sensor_Apc\<close> together with the agent's requests other than verdicts (a verdict is the two
  steps of \<open>apply_verdict\<close>) and the events made so far.
\<close>

inductive endpoint_step :: "apc_sys \<times> galatea_event list \<Rightarrow> apc_sys \<times> galatea_event list \<Rightarrow> bool" where
  ep_create:
    "request_id_counter (as_sensor y) \<noteq> - 1 \<Longrightarrow>
     endpoint_step (y, made)
       (y\<lparr>as_sensor := process_notify_routine pid info (as_sensor y)\<rparr>,
        made @ notified_events pid info (as_sensor y))"
| ep_apc:
    "apc_step False y z \<Longrightarrow> request_id_counter (as_sensor z) = request_id_counter (as_sensor y) \<Longrightarrow>
     endpoint_step (y, made) (z, made)"
| ep_request:
    "irp_control_code (irps (as_sensor y) p) \<noteq> IOCTL_SEND_VERDICT \<Longrightarrow>
     dispatch_device_control caller now p (as_sensor y) = (s', st) \<Longrightarrow>
     endpoint_step (y, made) (y\<lparr>as_sensor := s'\<rparr>, made)"
| ep_cleanup:
    "dispatch_cleanup p (as_sensor y) = (s', st) \<Longrightarrow> endpoint_step (y, made) (y\<lparr>as_sensor := s'\<rparr>, made)"
| ep_cancel:
    "s' = cancel_routine p (fst (io_cancel_irp p (as_sensor y))) \<Longrightarrow>
     endpoint_step (y, made) (y\<lparr>as_sensor := s'\<rparr>, made)"

definition endpoint_init :: "apc_sys \<times> galatea_event list \<Rightarrow> bool" where
  "endpoint_init x \<longleftrightarrow> apc_init (fst x) \<and> snd x = []"

subsection \<open>Requests do not touch the freeze\<close>

definition same_freeze :: "sensor \<Rightarrow> sensor \<Rightarrow> bool" where
  "same_freeze s s' \<longleftrightarrow> pending_scans s' = pending_scans s \<and> apc_ctxs s' = apc_ctxs s
     \<and> target_pids s' = target_pids s \<and> request_id_counter s' = request_id_counter s
     \<and> freed_memory_access s' = freed_memory_access s \<and> terminated s' = terminated s"

lemma same_freeze_pieces [simp]:
  "same_freeze s (finish_irp p st n s') = same_freeze s s'"
  "same_freeze s (complete_request p s') = same_freeze s s'"
  "same_freeze s (upd_irp p f s') = same_freeze s s'"
  "same_freeze s (s'\<lparr>pending_irp := q\<rparr>) = same_freeze s s'"
  "same_freeze s (s'\<lparr>event_queue := eq\<rparr>) = same_freeze s s'"
  "same_freeze s (s'\<lparr>agent_process := a\<rparr>) = same_freeze s s'"
  "same_freeze s (s'\<lparr>object_refs := r\<rparr>) = same_freeze s s'"
  "same_freeze s s"
  by (simp_all add: same_freeze_def finish_irp_def complete_request_def)

lemma same_freeze_requests:
  "irp_control_code (irps s p) \<noteq> IOCTL_SEND_VERDICT \<Longrightarrow> same_freeze s (fst (dispatch_device_control caller now p s))"
  "same_freeze s (fst (dispatch_cleanup p s))"
  "same_freeze s (cancel_routine p (fst (io_cancel_irp p s)))"
proof -
  show "same_freeze s (fst (dispatch_device_control caller now p s))"
    if "irp_control_code (irps s p) \<noteq> IOCTL_SEND_VERDICT"
    using that
    by (simp add: dispatch_device_control_def ioctl_get_event_def ioctl_answer_queued_def ioctl_register_agent_def
        io_mark_irp_pending_def io_set_cancel_routine_def ob_reference_def ob_dereference_def Let_def
        split: option.split list.split)
  show "same_freeze s (fst (dispatch_cleanup p s))"
    by (simp add: dispatch_cleanup_def io_set_cancel_routine_def Let_def split: option.split bool.split)
  show "same_freeze s (cancel_routine p (fst (io_cancel_irp p s)))"
    by (simp add: cancel_routine_def io_cancel_irp_def io_set_cancel_routine_def)
qed

lemma freeze_inv_same_freeze:
  assumes inv: "freeze_inv y" and same: "same_freeze (as_sensor y) s'"
  shows "freeze_inv (y\<lparr>as_sensor := s'\<rparr>)"
proof -
  have "scans_inv s'"
    by (rule scans_inv_same [OF freeze_invD(1) [OF inv]])
      (use freeze_invD(1) [OF inv] same in
        \<open>simp_all add: same_freeze_def scan_keys_def ctx_keys_def fun_eq_iff scans_inv_def\<close>)
  then show ?thesis
    by (intro freeze_inv_same [OF inv]) (use same freeze_phases [OF inv] in \<open>simp_all add: same_freeze_def\<close>)
qed

subsection \<open>Every frozen process was reported\<close>

text \<open>The processes on their way into the freeze or in it, with their requests.\<close>

definition held :: "apc_sys \<Rightarrow> (u64 \<times> u64) set" where
  "held y = (\<lambda>t. (tp_pid t, tp_request_id t)) ` set (opt_list (target_pids (as_sensor y)))
     \<union> set (as_taken y) \<union> ran (ctx_keys (as_sensor y))"

definition reported :: "apc_sys \<Rightarrow> galatea_event list \<Rightarrow> bool" where
  "reported y made \<longleftrightarrow>
     (\<forall>(pid, rid) \<in> held y. \<exists>e \<in> set made. ge_process_id e = pid \<and> ge_request_id e = rid \<and> ge_frozen e)
     \<and> distinct (map ge_request_id made)
     \<and> (\<forall>e \<in> set made. ge_request_id e < request_id_counter (as_sensor y))"

definition endpoint_inv :: "apc_sys \<times> galatea_event list \<Rightarrow> bool" where
  "endpoint_inv x \<longleftrightarrow> freeze_inv (fst x) \<and> reported (fst x) (snd x)"

lemma ctx_keys_deliver: "ctx_keys (fst (deliver_pending rid a s)) = ctx_keys s"
  by (auto simp: deliver_pending_def set_event_def ctx_keys_def fun_eq_iff split: option.split)

lemma ctx_keys_same: "apc_ctxs s' = apc_ctxs s \<Longrightarrow> ctx_keys s' = ctx_keys s"
  by (simp add: ctx_keys_def fun_eq_iff)

lemma ctx_keys_drop: "apc_ctxs s' = (apc_ctxs s)(p := None) \<Longrightarrow> ran (ctx_keys s') \<subseteq> ran (ctx_keys s)"
  by (auto simp: ctx_keys_def ran_def split: if_splits)

lemma process_notify_same_counter:
  assumes "request_id_counter (process_notify_routine pid info s) = request_id_counter s"
  shows "process_notify_routine pid info s = s"
  using assms
  by (cases "Option.bind info ci_image_file_name")
    (auto simp: process_notify_routine_def Let_def frame_simps split: option.splits if_splits Option.bind_splits)

text \<open>A step that makes no event holds no new process.\<close>

lemma held_step:
  assumes "apc_step False y z" and "request_id_counter (as_sensor z) = request_id_counter (as_sensor y)"
  shows "held z \<subseteq> held y"
  using assms(1)
proof cases
  case (step_create pid info)
  then show ?thesis using assms(2) process_notify_same_counter [of pid info "as_sensor y"] by simp
next
  case (step_take pid s' item)
  have "s' = fst (take_target pid (as_sensor y))" and "snd (take_target pid (as_sensor y)) = Some item"
    using step_take by simp_all
  with targets.take_out_subset [of pid "as_sensor y"] targets.take_out_SomeD [of pid "as_sensor y" item]
    ctx_keys_same [of "fst (take_target pid (as_sensor y))" "as_sensor y"]
  show ?thesis by (auto simp: held_def step_take(1) frame_simps)
next
  case (step_lookup_failed pid rid)
  then show ?thesis using set_remove1_subset [of "(pid, rid)" "as_taken y"] by (auto simp: held_def)
next
  case (step_inject pid rid p)
  have "ctx_keys (inject_begin p pid rid (as_sensor y)) = (ctx_keys (as_sensor y))(p \<mapsto> (pid, rid))"
    by (rule ext) (simp add: ctx_keys_def frame_simps)
  then have "ran (ctx_keys (inject_begin p pid rid (as_sensor y))) \<subseteq> insert (pid, rid) (ran (ctx_keys (as_sensor y)))"
    by (auto simp: ran_def)
  then show ?thesis
    using step_inject set_remove1_subset [of "(pid, rid)" "as_taken y"] by (auto simp: held_def frame_simps)
next
  case (step_insert_cleanup p pid)
  then show ?thesis
    using ctx_keys_same [of "apc_done (fst (remove_pending pid (as_sensor y)))" "as_sensor y"]
    by (simp add: held_def inject_cleanup_def frame_simps)
next
  case (step_early_check p c s' v)
  have "s' = fst (check_early_verdict (fc_pid c) (as_sensor y))" using step_early_check by simp
  then show ?thesis
    using ctx_keys_same [of "fst (check_early_verdict (fc_pid c) (as_sensor y))" "as_sensor y"]
    by (simp add: held_def step_early_check(1) frame_simps)
next
  case (step_early_exit p v c)
  then show ?thesis
    using ctx_keys_drop [of "apc_early_exit p (fc_pid c) v (as_sensor y)" "as_sensor y" p]
    by (auto simp: held_def frame_simps)
next
  case (step_wake p c status)
  then show ?thesis
    using ctx_keys_drop [of "apc_after_wait p (fc_pid c) status (as_sensor y)" "as_sensor y" p]
    by (auto simp: held_def frame_simps)
next
  case (step_verdict rid allow s' found)
  have "s' = fst (deliver_pending rid allow (as_sensor y))" using step_verdict by simp
  then show ?thesis by (simp add: held_def step_verdict(1) ctx_keys_deliver frame_simps)
next
  case (step_cache rid allow now)
  then show ?thesis
    using ctx_keys_same [of "cache_verdict now rid allow (as_sensor y)" "as_sensor y"]
    by (simp add: held_def frame_simps)
qed (simp_all add: held_def)

lemma held_create:
  "held (y\<lparr>as_sensor := process_notify_routine pid info (as_sensor y)\<rparr>) \<subseteq>
     held y \<union> (\<lambda>e. (ge_process_id e, ge_request_id e)) ` {e \<in> set (notified_events pid info (as_sensor y)). ge_frozen e}"
proof (cases "Option.bind info ci_image_file_name")
  case None
  then have "process_notify_routine pid info (as_sensor y) = as_sensor y"
    by (auto simp: process_notify_routine_def split: option.splits Option.bind_splits)
  then show ?thesis by simp
next
  case (Some img)
  have "set (opt_list (target_pids (process_notify_routine pid info s))) \<subseteq> set (opt_list (target_pids s))
      \<union> (if is_allowlisted_static (Some img) then {} else {\<lparr>tp_pid = pid, tp_request_id = request_id_counter s\<rparr>})" for s
    by (simp add: notified_event_goes_out [OF Some] frame_simps push_target_def split: option.split)
  moreover have "ctx_keys (process_notify_routine pid info s) = ctx_keys s" for s
    by (rule ctx_keys_same) (simp add: frame_simps)
  ultimately show ?thesis
    by (fastforce simp: held_def notified_events_def Some split: if_splits)
qed

lemma endpoint_inv_create:
  assumes inv: "endpoint_inv (y, made)" and c: "request_id_counter (as_sensor y) \<noteq> - 1"
  shows "endpoint_inv (y\<lparr>as_sensor := process_notify_routine pid info (as_sensor y)\<rparr>,
    made @ notified_events pid info (as_sensor y))"
proof -
  let ?z = "y\<lparr>as_sensor := process_notify_routine pid info (as_sensor y)\<rparr>"
  let ?new = "notified_events pid info (as_sensor y)" and ?n = "request_id_counter (as_sensor y)"
  have old: "\<exists>e \<in> set made. ge_process_id e = fst k \<and> ge_request_id e = snd k \<and> ge_frozen e" if "k \<in> held y" for k
    using inv that by (cases k) (auto simp: endpoint_inv_def reported_def)
  have ids: "distinct (map ge_request_id made)" "\<And>e. e \<in> set made \<Longrightarrow> ge_request_id e < ?n"
    using inv by (auto simp: endpoint_inv_def reported_def)
  have new: "?new = [] \<and> request_id_counter (as_sensor ?z) = ?n
      \<or> (\<exists>e. ?new = [e] \<and> ge_request_id e = ?n) \<and> request_id_counter (as_sensor ?z) = ?n + 1"
    by (cases "Option.bind info ci_image_file_name")
      (auto simp: notified_events_def notified_event_goes_out frame_simps process_notify_routine_def Let_def
        split: option.splits Option.bind_splits)
  have lt: "?n < ?n + 1" using c by (rule word_less_Suc)
  have "\<exists>e \<in> set (made @ ?new). ge_process_id e = fst k \<and> ge_request_id e = snd k \<and> ge_frozen e" if k: "k \<in> held ?z" for k
  proof -
    consider "k \<in> held y" | e where "e \<in> set ?new" "ge_frozen e" "k = (ge_process_id e, ge_request_id e)"
      using k held_create [of pid info y] by blast
    then show ?thesis
    proof cases
      case 1
      from old [OF this] show ?thesis by auto
    next
      case (2 e)
      then show ?thesis by (intro bexI [of _ e]) simp_all
    qed
  qed
  moreover have "\<forall>e \<in> set made. ge_request_id e \<noteq> ?n" using ids(2) by force
  then have "distinct (map ge_request_id (made @ ?new))" using new ids(1) by auto
  moreover have "ge_request_id e < request_id_counter (as_sensor ?z)" if "e \<in> set (made @ ?new)" for e
  proof (cases "e \<in> set made")
    case True
    from less_trans [OF ids(2) [OF this] lt] ids(2) [OF True] show ?thesis using new by auto
  next
    case False
    with new lt that show ?thesis by auto
  qed
  moreover have "freeze_inv ?z"
    using freeze_inv_step [of y ?z] step_create [OF c, of False pid info] inv by (simp add: endpoint_inv_def)
  ultimately show ?thesis by (force simp: endpoint_inv_def reported_def)
qed

lemma reported_same:
  assumes "reported y made" and "held z \<subseteq> held y"
    and "request_id_counter (as_sensor z) = request_id_counter (as_sensor y)"
  shows "reported z made"
  using assms(1) subsetD [OF assms(2)] by (simp add: reported_def assms(3) Ball_def)

lemma endpoint_inv_request:
  assumes "endpoint_inv (y, made)" and same: "same_freeze (as_sensor y) s'"
  shows "endpoint_inv (y\<lparr>as_sensor := s'\<rparr>, made)"
proof -
  have "held (y\<lparr>as_sensor := s'\<rparr>) = held y"
    using same ctx_keys_same [of s' "as_sensor y"] by (simp add: held_def same_freeze_def)
  then show ?thesis
    using assms freeze_inv_same_freeze [of y s'] reported_same [of y made "y\<lparr>as_sensor := s'\<rparr>"]
    by (simp add: endpoint_inv_def same_freeze_def)
qed

lemma endpoint_inv_step:
  assumes "endpoint_inv x" and "endpoint_step x x'"
  shows "endpoint_inv x'"
  using assms(2,1)
proof cases
  case (ep_create y made pid info)
  then show ?thesis using endpoint_inv_create assms(1) by simp
next
  case (ep_apc y z made)
  have "freeze_inv y" "reported y made" using assms(1) ep_apc(1) by (simp_all add: endpoint_inv_def)
  with freeze_inv_step [of y z] reported_same [of y made z] held_step [of y z] ep_apc show ?thesis
    by (simp add: endpoint_inv_def)
next
  case (ep_request y p caller now s' st made)
  then show ?thesis
    using endpoint_inv_request [of y made s'] same_freeze_requests(1) [of "as_sensor y" p caller now] assms(1) by simp
next
  case (ep_cleanup p y s' st made)
  then show ?thesis
    using endpoint_inv_request [of y made s'] same_freeze_requests(2) [of "as_sensor y" p] assms(1) by simp
next
  case (ep_cancel s' p y made)
  then show ?thesis
    using endpoint_inv_request [of y made s'] same_freeze_requests(3) [of "as_sensor y" p] assms(1) by simp
qed

lemma endpoint_inv_init: "endpoint_init x \<Longrightarrow> endpoint_inv x"
  using freeze_inv_init [of "fst x"]
  by (auto simp: endpoint_init_def endpoint_inv_def reported_def apc_init_def held_def ctx_keys_def ran_def)

interpretation endpoint: invariant_system endpoint_init endpoint_step endpoint_inv
  by unfold_locales (auto intro: endpoint_inv_init endpoint_inv_step)

subsection \<open>The answer\<close>

text \<open>A fresh scan that was completed answers with the verdict of its score.\<close>

lemma completed_scan_verdict:
  assumes "snd (analyze_event env event) = Completes scan"
  shows "verdicts_in (fst (analyze_event env event)) =
    [verdict_for event (sint (dd_threat_score (cs_details scan)) \<le> 80)]"
proof -
  have "allow_details d \<longleftrightarrow> sint (dd_threat_score d) \<le> 80" for d
    by (simp add: allow_details_def i32_le_def score_defs)
  then have scan: "verdicts_in (fst (run_scan env event path sz t)) =
      [verdict_for event (sint (dd_threat_score (cs_details scan)) \<le> 80)]"
    if "snd (run_scan env event path sz t) = Completes scan" for path sz t
    using that
    by (cases rule: run_scan_cases [where env = env and event = event and path = path and sz = sz and t = t]) simp_all
  have "verdicts_in (fst (analyze_frozen env event path)) =
      [verdict_for event (sint (dd_threat_score (cs_details scan)) \<le> 80)]"
    if "snd (analyze_frozen env event path) = Completes scan" for path
    using that scan
    by (auto simp: analyze_frozen_def fail_closed_def reuse_details_def Let_def
        split: option.splits prod.splits if_splits scan_outcome.splits wait_result.splits)
  with assms show ?thesis by (simp add: analyze_event_def Let_def split: if_splits)
qed


text \<open>
  The sample run: process 42 is started, its first thread is frozen, process 5 registers as the agent; in
  the file system of the witness there is no file to check.
\<close>

definition judged_event :: galatea_event where
  "judged_event = \<lparr>ge_process_id = 42, ge_request_id = 1, ge_frozen = True,
     ge_image_path = event_image_path (Some sample_image)\<rparr>"

definition judged_sys :: apc_sys where
  "judged_sys = apc_sys5\<lparr>as_sensor := fst (dispatch_device_control 5 0 0 (as_sensor apc_sys5))\<rparr>"

lemma judged_events:
  "notified_events 42 (Some \<lparr>ci_image_file_name = Some sample_image\<rparr>) (as_sensor apc_sys0) = [judged_event]"
  using sample_image_scanned by (simp add: notified_events_def judged_event_def apc_sys0_def)

lemma apc_sys_counters:
  "request_id_counter (as_sensor apc_sys2) = request_id_counter (as_sensor apc_sys1)"
  "request_id_counter (as_sensor apc_sys3) = request_id_counter (as_sensor apc_sys2)"
  "as_sensor apc_sys4 = as_sensor apc_sys3" "as_sensor apc_sys5 = as_sensor apc_sys3"
proof -
  show "request_id_counter (as_sensor apc_sys2) = request_id_counter (as_sensor apc_sys1)"
    by (simp add: apc_sys2_def frame_simps)
  have "request_id_counter (inject_begin p pid rid s) = request_id_counter s" for p pid rid s
    by (simp add: inject_begin_def Let_def split: option.split)
  then show "request_id_counter (as_sensor apc_sys3) = request_id_counter (as_sensor apc_sys2)"
    by (simp add: apc_sys3_def)
  show "as_sensor apc_sys4 = as_sensor apc_sys3" "as_sensor apc_sys5 = as_sensor apc_sys3"
    by (simp_all add: apc_sys4_def apc_sys5_def)
qed

lemma apc_sys3_irps: "irps (as_sensor apc_sys3) = sample_irps" "agent_process (as_sensor apc_sys3) = None"
proof -
  have "irps (process_notify_routine 42 (Some \<lparr>ci_image_file_name = Some sample_image\<rparr>) (loaded sample_irps 5)) = sample_irps
    \<and> agent_process (process_notify_routine 42 (Some \<lparr>ci_image_file_name = Some sample_image\<rparr>) (loaded sample_irps 5)) = None"
    by (simp add: process_notify_routine_def notify_agent_def queue_event_def push_target_def Let_def)
  then show "irps (as_sensor apc_sys3) = sample_irps" "agent_process (as_sensor apc_sys3) = None"
    by (simp_all add: apc_sys3_def apc_sys2_def apc_sys1_def apc_sys0_def inject_begin_def take_target_def Let_def
        split: option.split)
qed

lemma judged_sys_fields:
  "agent_process (as_sensor judged_sys) = Some 5"
  "apc_ctxs (as_sensor judged_sys) = apc_ctxs (as_sensor apc_sys3)"
  "terminated (as_sensor judged_sys) = []"
proof -
  have "irp_control_code (irps (as_sensor apc_sys3) 0) = IOCTL_REGISTER_AGENT"
    by (simp add: apc_sys3_irps sample_irps_def sample_irp_def)
  then have d: "dispatch_device_control 5 0 0 (as_sensor apc_sys5) = ioctl_register_agent 5 0 (as_sensor apc_sys3)"
    by (simp add: dispatch_device_control_def Let_def apc_sys_counters IOCTL_SEND_VERDICT_def
        IOCTL_GET_EVENT_def IOCTL_REGISTER_AGENT_def)
  show "agent_process (as_sensor judged_sys) = Some 5"
    "apc_ctxs (as_sensor judged_sys) = apc_ctxs (as_sensor apc_sys3)" "terminated (as_sensor judged_sys) = []"
    by (simp_all add: judged_sys_def d ioctl_register_agent_def ob_reference_def Let_def apc_sys3_irps apc_sys3_fields)
qed

lemma judged_sys_reach: "reach endpoint_init endpoint_step (judged_sys, [judged_event])"
proof -
  have r0: "reach endpoint_init endpoint_step (apc_sys0, [])"
    by (rule reach_init) (auto simp: endpoint_init_def apc_init_def apc_sys0_def)
  have "endpoint_step (apc_sys0, []) (apc_sys1, [] @ [judged_event])"
    unfolding apc_sys1_def judged_events [symmetric] by (rule ep_create) (simp add: apc_sys0_def)
  with r0 have r1: "reach endpoint_init endpoint_step (apc_sys1, [judged_event])"
    by (simp add: reach_step)
  have r2: "reach endpoint_init endpoint_step (apc_sys2, [judged_event])"
    by (rule reach_step [OF r1 ep_apc [OF apc_sys_step2]]) (rule apc_sys_counters)
  have r3: "reach endpoint_init endpoint_step (apc_sys3, [judged_event])"
    by (rule reach_step [OF r2 ep_apc [OF apc_sys_step3]]) (rule apc_sys_counters)
  have r4: "reach endpoint_init endpoint_step (apc_sys4, [judged_event])"
    by (rule reach_step [OF r3 ep_apc [OF apc_sys_step4]]) (simp add: apc_sys_counters)
  have r5: "reach endpoint_init endpoint_step (apc_sys5, [judged_event])"
    by (rule reach_step [OF r4 ep_apc [OF apc_sys_step5]]) (simp add: apc_sys_counters)
  have "irp_control_code (irps (as_sensor apc_sys5) 0) \<noteq> IOCTL_SEND_VERDICT"
    by (simp add: apc_sys_counters apc_sys3_irps sample_irps_def sample_irp_def IOCTL_SEND_VERDICT_def
        IOCTL_REGISTER_AGENT_def)
  from ep_request [OF this surjective_pairing, where caller = 5 and now = 0 and made = "[judged_event]"] show ?thesis
    unfolding judged_sys_def by (rule reach_step [OF r5])
qed


end
