(* ===== verification/Filter_Driver.thy ===== *)
theory Filter_Driver
  imports Fs_Wire
begin

text \<open>
  The minifilter's driver object and its communication port: \<open>lib.rs\<close> and \<open>io/filter_port.rs\<close> of
  \<open>galatea-kernel-filter\<close>. A handle or port is a number that is zero for a null pointer. What the
  Filter Manager returns is an argument; the debug prints are left out.
\<close>

subsection \<open>Constants\<close>

definition FLT_PORT_CONNECT :: u32 where "FLT_PORT_CONNECT = 0x00000001"
definition FLT_PORT_ALL_ACCESS :: u32 where "FLT_PORT_ALL_ACCESS = 0x001f0000 OR FLT_PORT_CONNECT"
definition OBJ_CASE_INSENSITIVE :: u32 where "OBJ_CASE_INSENSITIVE = 0x00000040"
definition OBJ_KERNEL_HANDLE :: u32 where "OBJ_KERNEL_HANDLE = 0x00000200"
definition PORT_NAME :: "u16 list" where "PORT_NAME = wide (CHR 0x5C # ''GalateaFilterPort'')"

definition FLT_SUCCESS :: u32 where "FLT_SUCCESS = 0"
definition FLT_ACCESS_DENIED :: u32 where "FLT_ACCESS_DENIED = 0xC0000022"
definition FLT_INVALID_PARAMETER :: u32 where "FLT_INVALID_PARAMETER = 0xC000000D"

subsection \<open>State\<close>

record filter_state =
  FILTER_HANDLE :: u64
  SERVER_PORT :: u64
  CLIENT_PORT :: u64
  AGENT_PID :: u64

definition filter_loaded :: filter_state where
  "filter_loaded = \<lparr>FILTER_HANDLE = 0, SERVER_PORT = 0, CLIENT_PORT = 0, AGENT_PID = 0\<rparr>"

subsection \<open>Port callbacks\<close>

definition connect_notify :: "u64 \<Rightarrow> u64 \<Rightarrow> filter_state \<Rightarrow> filter_state \<times> u32" where
  "connect_notify client_port current_pid f =
     (if CLIENT_PORT f \<noteq> 0 then (f, FLT_ACCESS_DENIED)
      else (f\<lparr>CLIENT_PORT := client_port, AGENT_PID := current_pid\<rparr>, FLT_SUCCESS))"

text \<open>\<open>FltCloseClientPort\<close> sets the port it closes to null.\<close>

definition flt_close_client_port :: "filter_state \<Rightarrow> filter_state" where
  "flt_close_client_port f = f\<lparr>CLIENT_PORT := 0\<rparr>"

definition disconnect_notify :: "filter_state \<Rightarrow> filter_state" where
  "disconnect_notify f =
     (if FILTER_HANDLE f = 0 \<or> CLIENT_PORT f = 0 then f
      else flt_close_client_port (f\<lparr>AGENT_PID := 0\<rparr>))"

text \<open>Whether the message is from the connected client; both are answered alike.\<close>

definition message_notify :: "u64 \<Rightarrow> filter_state \<Rightarrow> bool \<times> u32" where
  "message_notify port_cookie f = (CLIENT_PORT f = port_cookie, FLT_SUCCESS)"

subsection \<open>Opening and closing the port\<close>

record object_attributes =
  oa_name :: "u16 list"
  oa_attributes :: u32
  oa_access :: u32

definition port_attributes :: object_attributes where
  "port_attributes = \<lparr>oa_name = PORT_NAME, oa_attributes = OBJ_CASE_INSENSITIVE OR OBJ_KERNEL_HANDLE,
     oa_access = FLT_PORT_ALL_ACCESS\<rparr>"

text \<open>
  \<open>build\<close> is the status of \<open>FltBuildDefaultSecurityDescriptor\<close>; \<open>create\<close> maps the attributes of
  the port to the status of \<open>FltCreateCommunicationPort\<close> and the port it made. The third component
  counts the security descriptors that are built and not freed.
\<close>

definition initialize_port ::
  "u64 \<Rightarrow> u32 \<Rightarrow> (object_attributes \<Rightarrow> u32 \<times> u64) \<Rightarrow> filter_state \<Rightarrow> filter_state \<times> u32 \<times> nat" where
  "initialize_port filter_handle build create f =
     (if filter_handle = 0 then (f, FLT_INVALID_PARAMETER, 0)
      else if build \<noteq> FLT_SUCCESS then (f, build, 0)
      else
        (let descriptors = 1 :: nat;
             (status, port) = create port_attributes;
             f = (if status = FLT_SUCCESS then f\<lparr>SERVER_PORT := port\<rparr> else f);
             descriptors = descriptors - 1 in
         (f, status, descriptors)))"

definition teardown_port :: "u64 \<Rightarrow> filter_state \<Rightarrow> filter_state" where
  "teardown_port filter_handle f =
     (let f = (if SERVER_PORT f \<noteq> 0 then f\<lparr>SERVER_PORT := 0\<rparr> else f) in
      if filter_handle \<noteq> 0 \<and> CLIENT_PORT f \<noteq> 0 then flt_close_client_port f else f)"

definition is_agent_process :: "u64 \<Rightarrow> filter_state \<Rightarrow> bool" where
  "is_agent_process current_pid f \<longleftrightarrow> AGENT_PID f \<noteq> 0 \<and> current_pid = AGENT_PID f"

text \<open>
  The message that is sent, with the status of \<open>FltSendMessage\<close> as an argument; \<open>pad\<close> gives the bytes
  the event structure leaves undefined.
\<close>

definition telemetry_message :: "u8 list \<Rightarrow> galatea_fs_event \<Rightarrow> filter_message" where
  "telemetry_message pad e =
     (let bytes = fs_event_bytes pad e in
      default_filter_message\<lparr>fm_kind := FileTelemetry, fm_payload_len := of_nat size_of_fs_event,
        fm_payload := bytes @ drop (length bytes) (fm_payload default_filter_message)\<rparr>)"

definition send_fs_telemetry ::
  "u32 \<Rightarrow> u8 list \<Rightarrow> galatea_fs_event \<Rightarrow> filter_state \<Rightarrow> u32 \<times> filter_message option" where
  "send_fs_telemetry send_status pad e f =
     (if FILTER_HANDLE f = 0 \<or> CLIENT_PORT f = 0 then (FLT_INVALID_PARAMETER, None)
      else (send_status, Some (telemetry_message pad e)))"

subsection \<open>Entry and unload\<close>

record filter_entry_env =
  ee_register :: "u32 \<times> u64"
  ee_build :: u32
  ee_create :: "object_attributes \<Rightarrow> u32 \<times> u64"
  ee_start :: u32

text \<open>\<open>FltUnregisterFilter\<close>, after which the handle is set to null.\<close>

definition unregister_filter :: "filter_state \<Rightarrow> filter_state" where
  "unregister_filter f = f\<lparr>FILTER_HANDLE := 0\<rparr>"

definition filter_driver_entry :: "filter_entry_env \<Rightarrow> filter_state \<Rightarrow> filter_state \<times> u32" where
  "filter_driver_entry env f =
     (let (status, handle) = ee_register env in
      if status \<noteq> FLT_SUCCESS then (f, status)
      else
        (let f = f\<lparr>FILTER_HANDLE := handle\<rparr>;
             (f, status, _) = initialize_port (FILTER_HANDLE f) (ee_build env) (ee_create env) f in
         if status \<noteq> FLT_SUCCESS then (unregister_filter f, status)
         else
           (let status = ee_start env in
            if status \<noteq> FLT_SUCCESS then (unregister_filter (teardown_port (FILTER_HANDLE f) f), status)
            else (f, FLT_SUCCESS))))"

definition filter_unload :: "filter_state \<Rightarrow> filter_state \<times> u32" where
  "filter_unload f =
     (if FILTER_HANDLE f \<noteq> 0 then (unregister_filter (teardown_port (FILTER_HANDLE f) f), FLT_SUCCESS)
      else (f, FLT_SUCCESS))"

lemmas filter_op_defs = connect_notify_def disconnect_notify_def flt_close_client_port_def
  initialize_port_def teardown_port_def unregister_filter_def filter_driver_entry_def filter_unload_def

subsection \<open>The life of the driver\<close>

text \<open>
  The Filter Manager calls the connect callback only while the server port is there (for the process
  that connects, which is not the idle process) and hands it a port that is not null; it calls the
  disconnect callback at any time. A load that fails leaves no driver.
\<close>

inductive filter_step :: "filter_state \<Rightarrow> filter_state \<Rightarrow> bool" where
  load: "FILTER_HANDLE f = 0 \<Longrightarrow> filter_driver_entry env filter_loaded = (g, st) \<Longrightarrow> filter_step f g"
| connect: "SERVER_PORT f \<noteq> 0 \<Longrightarrow> port \<noteq> 0 \<Longrightarrow> pid \<noteq> 0 \<Longrightarrow> connect_notify port pid f = (g, st) \<Longrightarrow> filter_step f g"
| disconnect: "filter_step f (disconnect_notify f)"
| unload: "filter_step f (fst (filter_unload f))"

definition filter_init :: "filter_state \<Rightarrow> bool" where
  "filter_init f \<longleftrightarrow> f = filter_loaded"

definition filter_inv :: "filter_state \<Rightarrow> bool" where
  "filter_inv f \<longleftrightarrow>
     (FILTER_HANDLE f = 0 \<longrightarrow> SERVER_PORT f = 0 \<and> CLIENT_PORT f = 0)
     \<and> (CLIENT_PORT f \<noteq> 0 \<longrightarrow> AGENT_PID f \<noteq> 0)
     \<and> (FILTER_HANDLE f \<noteq> 0 \<and> CLIENT_PORT f = 0 \<longrightarrow> AGENT_PID f = 0)"

lemma filter_loaded_fields [simp]:
  "FILTER_HANDLE filter_loaded = 0" "SERVER_PORT filter_loaded = 0" "CLIENT_PORT filter_loaded = 0"
  "AGENT_PID filter_loaded = 0"
  by (simp_all add: filter_loaded_def)

text \<open>All the registrations that loading makes succeed.\<close>

definition entry_succeeds :: "filter_entry_env \<Rightarrow> bool" where
  "entry_succeeds env \<longleftrightarrow>
     fst (ee_register env) = FLT_SUCCESS \<and> snd (ee_register env) \<noteq> 0 \<and> ee_build env = FLT_SUCCESS
     \<and> fst (ee_create env port_attributes) = FLT_SUCCESS \<and> ee_start env = FLT_SUCCESS"

lemma entry_success:
  "entry_succeeds env \<Longrightarrow> filter_driver_entry env filter_loaded =
     (filter_loaded\<lparr>FILTER_HANDLE := snd (ee_register env), SERVER_PORT := snd (ee_create env port_attributes)\<rparr>,
      FLT_SUCCESS)"
  by (auto simp: entry_succeeds_def filter_op_defs filter_loaded_def Let_def split: prod.split)

lemma entry_handle: "entry_succeeds env \<Longrightarrow> snd (ee_register env) \<noteq> 0"
  by (simp add: entry_succeeds_def)

lemma entry_failure:
  "\<not> entry_succeeds env \<Longrightarrow> fst (filter_driver_entry env filter_loaded) = filter_loaded
     \<and> snd (filter_driver_entry env filter_loaded) \<noteq> FLT_SUCCESS"
  by (auto simp: entry_succeeds_def filter_op_defs filter_loaded_def Let_def FLT_SUCCESS_def
      FLT_INVALID_PARAMETER_def split: prod.split)

interpretation filter: invariant_system filter_init filter_step filter_inv
proof
  fix f :: filter_state
  assume "filter_init f"
  then show "filter_inv f" by (simp add: filter_init_def filter_inv_def filter_loaded_def)
next
  fix f g :: filter_state
  assume inv: "filter_inv f" and "filter_step f g"
  from this(2) show "filter_inv g"
  proof cases
    case (load env st)
    then show ?thesis
      using entry_success [of env] entry_failure [of env] entry_handle [of env]
      by (cases "entry_succeeds env") (auto simp: filter_inv_def)
  next
    case (connect port pid st)
    then show ?thesis using inv by (auto simp: filter_inv_def connect_notify_def split: if_splits)
  next
    case disconnect
    then show ?thesis using inv by (auto simp: filter_inv_def filter_op_defs)
  next
    case unload
    then show ?thesis using inv by (auto simp: filter_inv_def filter_op_defs Let_def)
  qed
qed

subsection \<open>Properties\<close>


definition sample_entry_env :: filter_entry_env where
  "sample_entry_env = \<lparr>ee_register = (0, 7), ee_build = 0, ee_create = (\<lambda>_. (0, 9)), ee_start = 0\<rparr>"

definition sample_fs_event :: galatea_fs_event where
  "sample_fs_event = \<lparr>fe_process_id = 8, fe_process_start_key = 1, fe_request_id = 0, fe_event_type = FileWrite,
     fe_file_path = fill_path (wide ''x.txt''), fe_file_index = 5\<rparr>"

definition sample_connected :: filter_state where
  "sample_connected = \<lparr>FILTER_HANDLE = 7, SERVER_PORT = 9, CLIENT_PORT = 11, AGENT_PID = 1234\<rparr>"

lemma sample_connected_reach: "reach filter_init filter_step sample_connected"
proof -
  let ?f = "\<lparr>FILTER_HANDLE = 7, SERVER_PORT = 9, CLIENT_PORT = 0, AGENT_PID = 0\<rparr>"
  have "reach filter_init filter_step filter_loaded" by (rule reach_init) (simp add: filter_init_def)
  moreover have "filter_step filter_loaded ?f"
    by (rule load [of _ sample_entry_env _ FLT_SUCCESS], simp add: filter_loaded_def,
        subst entry_success)
      (simp_all add: entry_succeeds_def sample_entry_env_def filter_loaded_def FLT_SUCCESS_def)
  ultimately have "reach filter_init filter_step ?f" by (rule reach_step)
  moreover have "filter_step ?f sample_connected"
    by (rule connect [of _ 11 1234 _ FLT_SUCCESS]) (simp_all add: connect_notify_def sample_connected_def)
  ultimately show ?thesis by (rule reach_step)
qed


text \<open>
  C19. Loading the filter is all or nothing: it succeeds exactly when each of the four registrations does,
  and when one fails everything the earlier ones made is undone, the security descriptor of the port
  included. An unload undoes a load.
\<close>

theorem filter_entry_all_or_nothing:
  "(snd (filter_driver_entry env filter_loaded) = FLT_SUCCESS) =
     (fst (ee_register env) = FLT_SUCCESS \<and> snd (ee_register env) \<noteq> 0 \<and> ee_build env = FLT_SUCCESS
      \<and> fst (ee_create env port_attributes) = FLT_SUCCESS \<and> ee_start env = FLT_SUCCESS)
   \<and> (snd (filter_driver_entry env filter_loaded) = FLT_SUCCESS
      \<or> fst (filter_driver_entry env filter_loaded) = filter_loaded)
   \<and> snd (snd (initialize_port handle build create f)) = 0
   \<and> fst (filter_unload (fst (filter_driver_entry env filter_loaded))) = filter_loaded"
proof -
  have "snd (snd (initialize_port handle build create f)) = 0"
    by (simp add: initialize_port_def Let_def split: prod.split)
  moreover have "fst (filter_unload filter_loaded) = filter_loaded"
    by (simp add: filter_unload_def)
  moreover have "fst (filter_unload (filter_loaded\<lparr>FILTER_HANDLE := h, SERVER_PORT := p\<rparr>)) = filter_loaded"
    if "h \<noteq> 0" for h p
    using that by (simp add: filter_op_defs filter_loaded_def)
  ultimately show ?thesis
    unfolding entry_succeeds_def [symmetric]
    using entry_success [of env] entry_failure [of env] entry_handle [of env]
    by (cases "entry_succeeds env") simp_all
qed

end
