(* ===== verification/Filter_Callbacks.thy ===== *)
theory Filter_Callbacks
  imports Filter_Driver
begin

text \<open>
  The operation callbacks of the minifilter: \<open>callbacks/fs_callbacks.rs\<close>, with the structures and
  constants of \<open>ffi/flt.rs\<close> they read. A callback returns its status and the event it hands to
  \<open>send_fs_telemetry\<close>, if any. A pointer that the code tests for null is an option.
\<close>

subsection \<open>Structures and constants\<close>

definition FLT_PREOP_SUCCESS_WITH_CALLBACK :: nat where "FLT_PREOP_SUCCESS_WITH_CALLBACK = 0"
definition FLT_PREOP_SUCCESS_NO_CALLBACK :: nat where "FLT_PREOP_SUCCESS_NO_CALLBACK = 1"
definition FLT_POSTOP_FINISHED_PROCESSING :: nat where "FLT_POSTOP_FINISHED_PROCESSING = 0"

definition FILE_RENAME_INFORMATION_CLASS :: int where "FILE_RENAME_INFORMATION_CLASS = 10"
definition FILE_RENAME_INFORMATION_BYPASS_ACCESS_CHECK_CLASS :: int where
  "FILE_RENAME_INFORMATION_BYPASS_ACCESS_CHECK_CLASS = 56"
definition FILE_RENAME_INFORMATION_EX_CLASS :: int where "FILE_RENAME_INFORMATION_EX_CLASS = 65"
definition FILE_RENAME_INFORMATION_EX_BYPASS_ACCESS_CHECK_CLASS :: int where
  "FILE_RENAME_INFORMATION_EX_BYPASS_ACCESS_CHECK_CLASS = 66"
definition FILE_RENAME_REPLACE_IF_EXISTS :: u32 where "FILE_RENAME_REPLACE_IF_EXISTS = 0x00000001"

definition FILE_SUPERSEDED :: nat where "FILE_SUPERSEDED = 0"
definition FILE_CREATED :: nat where "FILE_CREATED = 2"
definition FILE_OVERWRITTEN :: nat where "FILE_OVERWRITTEN = 3"

lemmas flt_const_defs = FLT_PREOP_SUCCESS_WITH_CALLBACK_def FLT_PREOP_SUCCESS_NO_CALLBACK_def
  FLT_POSTOP_FINISHED_PROCESSING_def FILE_RENAME_INFORMATION_CLASS_def
  FILE_RENAME_INFORMATION_BYPASS_ACCESS_CHECK_CLASS_def FILE_RENAME_INFORMATION_EX_CLASS_def
  FILE_RENAME_INFORMATION_EX_BYPASS_ACCESS_CHECK_CLASS_def

text \<open>A file object with its name (\<open>None\<close> for a null buffer), in whole code units.\<close>

record file_object =
  fo_file_name :: "u16 list option"

text \<open>The related objects; the answer of \<open>FltQueryInformationFile\<close> for the file is part of them.\<close>

record flt_related_objects =
  fr_file_object :: "file_object option"
  fr_internal_information :: "u32 \<times> u64"

record flt_set_file_information =
  sf_length :: u32
  sf_file_information_class :: int
  sf_replace_if_exists :: u8
  sf_info_buffer :: "u8 list"

text \<open>The parameter block is \<open>None\<close> where its pointer is null.\<close>

record flt_callback_data =
  cd_iopb :: "flt_set_file_information option"
  cd_status :: u32
  cd_information :: nat

text \<open>The current process: its id and its start key.\<close>

record caller =
  ca_pid :: u64
  ca_start_key :: u64

definition RENAME_NAME_OFFSET :: nat where "RENAME_NAME_OFFSET = 20"

subsection \<open>Callbacks\<close>

definition query_file_index :: "u32 \<times> u64 \<Rightarrow> u64" where
  "query_file_index info = (case info of (status, index_number) \<Rightarrow> if 0 \<le> sint status then index_number else 0)"

definition pre_create :: "caller \<Rightarrow> filter_state \<Rightarrow> nat" where
  "pre_create c f =
     (if is_agent_process (ca_pid c) f then FLT_PREOP_SUCCESS_NO_CALLBACK
      else if ca_pid c \<le> 4 then FLT_PREOP_SUCCESS_NO_CALLBACK
      else FLT_PREOP_SUCCESS_WITH_CALLBACK)"

definition post_create ::
  "caller \<Rightarrow> flt_callback_data option \<Rightarrow> flt_related_objects option \<Rightarrow> filter_state \<Rightarrow> nat \<times> galatea_fs_event option" where
  "post_create c data flt_objects f =
     (FLT_POSTOP_FINISHED_PROCESSING,
      if is_agent_process (ca_pid c) f then None
      else case (data, flt_objects) of
        (Some d, Some r) \<Rightarrow>
          if cd_information d \<in> {FILE_CREATED, FILE_SUPERSEDED, FILE_OVERWRITTEN} then
            if sint (cd_status d) < 0 then None
            else (case Option.bind (fr_file_object r) fo_file_name of
                    None \<Rightarrow> None
                  | Some file_name \<Rightarrow>
                      Some \<lparr>fe_process_id = ca_pid c, fe_process_start_key = ca_start_key c, fe_request_id = 0,
                        fe_event_type = FileCreate, fe_file_path = fill_path file_name,
                        fe_file_index = query_file_index (fr_internal_information r)\<rparr>)
          else None
      | _ \<Rightarrow> None)"

definition pre_write :: "caller \<Rightarrow> flt_related_objects \<Rightarrow> filter_state \<Rightarrow> nat \<times> galatea_fs_event option" where
  "pre_write c r f =
     (FLT_PREOP_SUCCESS_NO_CALLBACK,
      if is_agent_process (ca_pid c) f then None
      else case Option.bind (fr_file_object r) fo_file_name of
        None \<Rightarrow> None
      | Some file_name \<Rightarrow>
          if ca_pid c \<le> 4 then None
          else Some \<lparr>fe_process_id = ca_pid c, fe_process_start_key = ca_start_key c, fe_request_id = 0,
                 fe_event_type = FileWrite, fe_file_path = fill_path file_name,
                 fe_file_index = query_file_index (fr_internal_information r)\<rparr>)"

text \<open>
  The new name of a rename: the name length is at offset 16 of the buffer, the name at offset 20.
  \<open>None\<close> where the lengths do not fit. At most 259 code units are read.
\<close>

definition rename_name_length :: "flt_set_file_information \<Rightarrow> nat option" where
  "rename_name_length s =
     (if unat (sf_length s) < RENAME_NAME_OFFSET + 2 then None
      else
        (let requested_name_bytes = read_num 16 4 (sf_info_buffer s);
             available_name_bytes = unat (sf_length s) - RENAME_NAME_OFFSET in
         if requested_name_bytes > available_name_bytes \<or> requested_name_bytes mod 2 \<noteq> 0 then None
         else Some requested_name_bytes))"

definition new_file_path :: "flt_set_file_information \<Rightarrow> nat \<Rightarrow> u16 list" where
  "new_file_path s requested_name_bytes =
     (let new_path_len = min (requested_name_bytes div 2) 259 in
      path_units (field RENAME_NAME_OFFSET (2 * new_path_len) (sf_info_buffer s))
        @ replicate (PATH_LEN - new_path_len) 0)"

definition rename_flags :: "flt_set_file_information \<Rightarrow> u32" where
  "rename_flags s =
     (if sf_file_information_class s = FILE_RENAME_INFORMATION_CLASS then
        (if sf_replace_if_exists s \<noteq> 0 then FILE_RENAME_REPLACE_IF_EXISTS else 0)
      else of_nat (read_num 0 4 (sf_info_buffer s)))"

definition is_rename_class :: "int \<Rightarrow> bool" where
  "is_rename_class k \<longleftrightarrow>
     k \<in> {FILE_RENAME_INFORMATION_CLASS, FILE_RENAME_INFORMATION_EX_CLASS,
          FILE_RENAME_INFORMATION_BYPASS_ACCESS_CHECK_CLASS,
          FILE_RENAME_INFORMATION_EX_BYPASS_ACCESS_CHECK_CLASS}"

definition rename_event ::
  "caller \<Rightarrow> flt_set_file_information \<Rightarrow> flt_related_objects \<Rightarrow> galatea_fs_event option" where
  "rename_event c s r =
     (case rename_name_length s of
        None \<Rightarrow> None
      | Some requested_name_bytes \<Rightarrow>
          (case Option.bind (fr_file_object r) fo_file_name of
             None \<Rightarrow> None
           | Some file_name \<Rightarrow>
               if ca_pid c \<le> 4 then None
               else Some \<lparr>fe_process_id = ca_pid c, fe_process_start_key = ca_start_key c, fe_request_id = 0,
                      fe_event_type = FileModify (Rename \<lparr>rm_flags = rename_flags s,
                        rm_new_file_path = new_file_path s requested_name_bytes\<rparr>),
                      fe_file_path = fill_path file_name,
                      fe_file_index = query_file_index (fr_internal_information r)\<rparr>))"

definition pre_set_info ::
  "caller \<Rightarrow> flt_callback_data option \<Rightarrow> flt_related_objects option \<Rightarrow> filter_state \<Rightarrow> nat \<times> galatea_fs_event option" where
  "pre_set_info c data flt_objects f =
     (FLT_PREOP_SUCCESS_NO_CALLBACK,
      if is_agent_process (ca_pid c) f then None
      else case (data, flt_objects) of
        (Some d, Some r) \<Rightarrow>
          (case cd_iopb d of
             None \<Rightarrow> None
           | Some set_info \<Rightarrow>
               if is_rename_class (sf_file_information_class set_info) then rename_event c set_info r else None)
      | _ \<Rightarrow> None)"

subsection \<open>The operations of the Filter Manager\<close>

text \<open>
  An operation of a process: the Filter Manager calls the pre-operation callback and, for a create
  whose callback asks for it, the post-operation callback when the create is done.
\<close>

datatype file_io =
    Io_Create "flt_callback_data option" "flt_related_objects option"
  | Io_Write flt_related_objects
  | Io_Set_Info "flt_callback_data option" "flt_related_objects option"

definition io_event :: "caller \<Rightarrow> file_io \<Rightarrow> filter_state \<Rightarrow> galatea_fs_event option" where
  "io_event c op f =
     (case op of
        Io_Create data r \<Rightarrow>
          if pre_create c f = FLT_PREOP_SUCCESS_WITH_CALLBACK then snd (post_create c data r f) else None
      | Io_Write r \<Rightarrow> snd (pre_write c r f)
      | Io_Set_Info data r \<Rightarrow> snd (pre_set_info c data r f))"


text \<open>The buffer of a set-information request is as long as the request says.\<close>

definition io_buffer_ok :: "file_io \<Rightarrow> bool" where
  "io_buffer_ok op =
     (case op of
        Io_Set_Info (Some d) _ \<Rightarrow>
          (case cd_iopb d of Some s \<Rightarrow> unat (sf_length s) \<le> length (sf_info_buffer s) | None \<Rightarrow> True)
      | _ \<Rightarrow> True)"

lemma length_path_units: "length (path_units bs) = length bs div 2"
  by (induction bs rule: path_units.induct) auto

lemma rename_name_in_buffer:
  "rename_name_length s = Some n \<Longrightarrow> RENAME_NAME_OFFSET + n \<le> unat (sf_length s)"
  by (auto simp: rename_name_length_def Let_def split: if_splits)

lemma new_file_path_ok:
  assumes n: "rename_name_length s = Some n" and buf: "unat (sf_length s) \<le> length (sf_info_buffer s)"
  shows "length (new_file_path s n) = PATH_LEN" and "new_file_path s n ! (PATH_LEN - 1) = 0"
proof -
  let ?k = "min (n div 2) 259"
  have "2 * ?k + RENAME_NAME_OFFSET \<le> length (sf_info_buffer s)"
    using rename_name_in_buffer [OF n] buf by linarith
  then have "length (field RENAME_NAME_OFFSET (2 * ?k) (sf_info_buffer s)) = 2 * ?k"
    by (simp add: field_def)
  then have len: "length (path_units (field RENAME_NAME_OFFSET (2 * ?k) (sf_info_buffer s))) = ?k"
    by (simp add: length_path_units)
  show "length (new_file_path s n) = PATH_LEN"
    by (simp add: new_file_path_def Let_def len PATH_LEN_def)
  show "new_file_path s n ! (PATH_LEN - 1) = 0"
    by (simp add: new_file_path_def Let_def nth_append len PATH_LEN_def)
qed

text \<open>A path array as the filter fills it: all its units, with a zero at the end.\<close>

definition path_ok :: "u16 list \<Rightarrow> bool" where
  "path_ok p \<longleftrightarrow> length p = PATH_LEN \<and> p ! (PATH_LEN - 1) = 0"

definition event_paths_ok :: "galatea_fs_event \<Rightarrow> bool" where
  "event_paths_ok e \<longleftrightarrow> path_ok (fe_file_path e)
     \<and> (case fe_event_type e of FileModify (Rename m) \<Rightarrow> path_ok (rm_new_file_path m) | _ \<Rightarrow> True)"

lemma event_paths_ok_fs_event_ok: "event_paths_ok e \<Longrightarrow> fs_event_ok e"
  by (auto simp: event_paths_ok_def path_ok_def fs_event_ok_def split: fs_event_type.splits fs_mod_operation.splits)

lemma path_ok_fill_path [simp]: "path_ok (fill_path src)"
  using fill_path_nul_terminated by (simp add: path_ok_def)

lemmas callback_defs = io_event_def pre_create_def post_create_def pre_write_def pre_set_info_def
  rename_event_def flt_const_defs

lemma io_event_caller:
  "io_event c op f = Some e \<Longrightarrow>
     4 < ca_pid c \<and> \<not> is_agent_process (ca_pid c) f \<and> fe_process_id e = ca_pid c
     \<and> fe_process_start_key e = ca_start_key c \<and> fe_request_id e = 0 \<and> path_ok (fe_file_path e)"
  by (auto simp: callback_defs not_le split: file_io.splits if_splits option.splits)

lemma io_event_rename:
  "io_event c op f = Some e \<Longrightarrow> fe_event_type e = FileModify (Rename m) \<Longrightarrow>
     \<exists>d rel s n. op = Io_Set_Info (Some d) rel \<and> cd_iopb d = Some s \<and> rename_name_length s = Some n
       \<and> m = \<lparr>rm_flags = rename_flags s, rm_new_file_path = new_file_path s n\<rparr>"
  by (auto simp: callback_defs not_le split: file_io.splits if_splits option.splits)

lemma io_event_paths_ok:
  assumes e: "io_event c op f = Some e" and buf: "io_buffer_ok op"
  shows "event_paths_ok e"
proof -
  have "path_ok (rm_new_file_path m)" if "fe_event_type e = FileModify (Rename m)" for m
    using io_event_rename [OF e that] buf new_file_path_ok by (fastforce simp: io_buffer_ok_def path_ok_def)
  then show ?thesis
    using io_event_caller [OF e] by (auto simp: event_paths_ok_def split: fs_event_type.split fs_mod_operation.split)
qed

subsection \<open>Properties\<close>

text \<open>
  Neither the agent nor the system processes are watched: whatever they do to a file, no event is
  sent. Every event that is sent names the process that caused it and carries paths of 260 code units
  that end in a zero, as long as the Filter Manager's buffers are as long as it says; the name of a
  rename is read from within that buffer.
\<close>

theorem reported_events_well_formed:
  assumes "io_event c op f = Some e" and "io_buffer_ok op"
  shows "4 < ca_pid c \<and> \<not> is_agent_process (ca_pid c) f
    \<and> fe_process_id e = ca_pid c \<and> fe_process_start_key e = ca_start_key c \<and> fe_request_id e = 0
    \<and> event_paths_ok e
    \<and> (\<nexists>d rel s. op = Io_Set_Info (Some d) rel \<and> cd_iopb d = Some s \<and> is_rename_class (sf_file_information_class s)
          \<and> unat (sf_length s) < RENAME_NAME_OFFSET + read_num 16 4 (sf_info_buffer s))"
proof -
  have "RENAME_NAME_OFFSET + read_num 16 4 (sf_info_buffer s) \<le> unat (sf_length s)"
    if "op = Io_Set_Info (Some d) rel" "cd_iopb d = Some s" "is_rename_class (sf_file_information_class s)" for d rel s
    using assms(1) that
    by (auto simp: callback_defs rename_name_length_def Let_def split: if_splits option.splits)
  then show ?thesis
    using io_event_caller [OF assms(1)] io_event_paths_ok [OF assms] unfolding not_le [symmetric] by blast
qed

definition sample_rename_info :: flt_set_file_information where
  "sample_rename_info = \<lparr>sf_length = 24, sf_file_information_class = 10, sf_replace_if_exists = 1,
     sf_info_buffer = replicate 16 0 @ [4, 0, 0, 0, 65, 0, 66, 0]\<rparr>"

definition sample_rename_io :: file_io where
  "sample_rename_io = Io_Set_Info
     (Some \<lparr>cd_iopb = Some sample_rename_info, cd_status = 0, cd_information = 0\<rparr>)
     (Some \<lparr>fr_file_object = Some \<lparr>fo_file_name = Some [67]\<rparr>, fr_internal_information = (0, 77)\<rparr>)"

definition sample_caller :: caller where
  "sample_caller = \<lparr>ca_pid = 500, ca_start_key = 3\<rparr>"

definition sample_rename_event :: galatea_fs_event where
  "sample_rename_event = \<lparr>fe_process_id = 500, fe_process_start_key = 3, fe_request_id = 0,
     fe_event_type = FileModify (Rename \<lparr>rm_flags = 1, rm_new_file_path = fill_path [65, 66]\<rparr>),
     fe_file_path = fill_path [67], fe_file_index = 77\<rparr>"

theorem reported_events_well_formed_witness:
  "io_event sample_caller sample_rename_io sample_connected = Some sample_rename_event
   \<and> event_paths_ok sample_rename_event"
proof -
  have "io_event sample_caller sample_rename_io sample_connected = Some sample_rename_event" by code_simp
  moreover have "io_buffer_ok sample_rename_io" by code_simp
  ultimately show ?thesis using reported_events_well_formed by blast
qed

end
