(* ===== verification/Fs_Pipeline.thy ===== *)
theory Fs_Pipeline
  imports Filter_Callbacks Fs_Telemetry
begin

text \<open>
  The way of a file event from the process that causes it to the agent's cache: the filter's callback,
  the message through the port, the listener.
\<close>

text \<open>
  What the agent does when a process does file I/O: nothing where the callback sends no event or no
  client is connected. \<open>pad\<close> is what the undefined bytes of the event hold.
\<close>

definition file_io_effect ::
  "(string \<Rightarrow> string option) \<Rightarrow> instant \<Rightarrow> u8 list \<Rightarrow> caller \<Rightarrow> file_io \<Rightarrow> filter_state \<Rightarrow> context_cache
     \<Rightarrow> context_cache option" where
  "file_io_effect canon now pad c op f cache =
     (case io_event c op f of
        None \<Rightarrow> Some cache
      | Some e \<Rightarrow>
          (case snd (send_fs_telemetry FLT_SUCCESS pad e f) of
             None \<Rightarrow> Some cache
           | Some msg \<Rightarrow> handle_filter_message canon now msg cache))"

subsection \<open>The message keeps the event\<close>

lemma receive_telemetry_message:
  assumes ok: "fs_event_ok e" and pad: "528 \<le> length pad"
  shows "receive_fs_event (telemetry_message pad e) = Some e"
proof -
  have len: "length (fs_event_bytes pad e) = 1088" using length_fs_event_bytes [OF ok pad] by simp
  have "receive_fs_event (telemetry_message pad e) = read_fs_event (fs_event_bytes pad e)"
    by (simp add: receive_fs_event_def telemetry_message_def default_filter_message_def Let_def len)
  then show ?thesis using read_fs_event_bytes [OF ok pad, of "[]"] by simp
qed

lemma file_io_effect_event:
  assumes e: "io_event c op f = Some e" and buf: "io_buffer_ok op" and pad: "528 \<le> length pad"
    and conn: "FILTER_HANDLE f \<noteq> 0" "CLIENT_PORT f \<noteq> 0"
  shows "file_io_effect canon now pad c op f cache = Some (handle_fs_event canon now e cache)"
proof -
  have "fs_event_ok e" using io_event_paths_ok [OF e buf] by (rule event_paths_ok_fs_event_ok)
  from receive_telemetry_message [OF this pad] show ?thesis
    by (simp add: file_io_effect_def e send_fs_telemetry_def conn handle_filter_message_def)
      (simp add: telemetry_message_def Let_def)
qed

subsection \<open>Properties\<close>

text \<open>
  C9. The bytes the filter copies into its message are read back by the agent as the event they came from,
  whatever the undefined bytes of the structure hold: each file operation of a watched process does to
  the cache exactly what its event says, and reading the message is never undefined.
\<close>

theorem filter_to_agent_roundtrip:
  assumes "io_buffer_ok op" and "528 \<le> length pad" and "reach filter_init filter_step f"
  shows "file_io_effect canon now pad c op f cache =
     Some (case io_event c op f of
             None \<Rightarrow> cache
           | Some e \<Rightarrow> if CLIENT_PORT f \<noteq> 0 then handle_fs_event canon now e cache else cache)"
proof (cases "io_event c op f")
  case None
  then show ?thesis by (simp add: file_io_effect_def)
next
  case (Some e)
  have "CLIENT_PORT f \<noteq> 0 \<Longrightarrow> FILTER_HANDLE f \<noteq> 0"
    using filter.reach_inv [OF assms(3)] by (auto simp: filter_inv_def)
  then show ?thesis
    using file_io_effect_event [OF Some assms(1,2)] Some
    by (cases "CLIENT_PORT f = 0") (auto simp: file_io_effect_def send_fs_telemetry_def)
qed

theorem filter_to_agent_roundtrip_witness:
  "file_io_effect Some 5 (replicate 528 0xAA) sample_caller sample_rename_io sample_connected []
     = Some (handle_fs_event Some 5 sample_rename_event [])"
proof -
  have "io_event sample_caller sample_rename_io sample_connected = Some sample_rename_event" by code_simp
  moreover have "io_buffer_ok sample_rename_io" by code_simp
  ultimately show ?thesis
    using filter_to_agent_roundtrip [OF _ _ sample_connected_reach, of sample_rename_io "replicate 528 0xAA" Some 5
        sample_caller "[]"]
    by (simp add: sample_connected_def)
qed



end
