(* ===== verification/Filter_Layout.thy ===== *)
theory Filter_Layout
  imports Filter_Callbacks
begin

text \<open>
  What the minifilter declares to the Filter Manager: the layouts of the \<open>repr(C)\<close> structures of
  \<open>ffi/flt.rs\<close> with the assertions the code makes of them, the attributes of its port, and the table of
  callbacks that \<open>DriverEntry\<close> registers, through which every operation is routed.
\<close>

subsection \<open>Layouts\<close>

text \<open>
  A structure is the list of its fields with their sizes and alignments; \<open>p\<close> is the size of a pointer. A union is as
  large as its largest variant.
\<close>

type_synonym layout = "(string \<times> nat \<times> nat) list"

abbreviation ptr_field :: "nat \<Rightarrow> nat \<times> nat" where "ptr_field p \<equiv> (p, p)"
abbreviation u8_field :: "nat \<times> nat" where "u8_field \<equiv> (1, 1)"
abbreviation u16_field :: "nat \<times> nat" where "u16_field \<equiv> (2, 2)"

definition size_of :: "layout \<Rightarrow> nat" where "size_of fs = repr_c_size (map snd fs)"
definition align_of :: "layout \<Rightarrow> nat" where "align_of fs = repr_c_align (map snd fs)"

fun offset_from :: "nat \<Rightarrow> layout \<Rightarrow> string \<Rightarrow> nat option" where
  "offset_from off [] n = None"
| "offset_from off ((f, sz, al) # fs) n =
     (if f = n then Some (round_up off al) else offset_from (round_up off al + sz) fs n)"

definition offset_of :: "layout \<Rightarrow> string \<Rightarrow> nat option" where "offset_of = offset_from 0"

definition union_field :: "(nat \<times> nat) list \<Rightarrow> nat \<times> nat" where
  "union_field vs = (round_up (foldr max (map fst vs) 0) (foldr max (map snd vs) 1), foldr max (map snd vs) 1)"

definition struct_field :: "layout \<Rightarrow> nat \<times> nat" where "struct_field fs = (size_of fs, align_of fs)"

lemmas offset_defs = size_of_def align_of_def offset_of_def union_field_def struct_field_def repr_c_size_def
  repr_c_align_def round_up_def

text \<open>Every field starts at a multiple of its alignment, behind the fields before it, and ends inside the structure.\<close>

lemma round_up_ge: "0 < a \<Longrightarrow> n \<le> round_up n a"
proof -
  assume "0 < a"
  then have "(n + a - 1) mod a < a" by simp
  moreover have "n + a - 1 = (n + a - 1) div a * a + (n + a - 1) mod a" by simp
  ultimately show ?thesis unfolding round_up_def by linarith
qed

lemma repr_c_end_ge: "\<forall>f \<in> set fs. 0 < snd f \<Longrightarrow> off \<le> repr_c_end off fs"
proof (induction fs arbitrary: off)
  case (Cons f fs)
  have "off \<le> round_up off (snd f)" using Cons.prems by (simp add: round_up_ge)
  also have "\<dots> \<le> repr_c_end (round_up off (snd f) + fst f) fs" 
    using Cons.IH [of "round_up off (snd f) + fst f"] Cons.prems by simp
  finally show ?case by (cases f) simp
qed simp

lemma offset_from_field:
  assumes "offset_from off fs n = Some k" and "\<forall>f \<in> set fs. 0 < snd (snd f)"
  shows "\<exists>sz al. (n, sz, al) \<in> set fs \<and> al dvd k \<and> off \<le> k \<and> k + sz \<le> repr_c_end off (map snd fs)"
  using assms
proof (induction off fs n rule: offset_from.induct)
  case (2 off f sz al fs n)
  have pos: "\<forall>f \<in> set (map snd fs). 0 < snd f" "0 < al" using 2(3) by auto
  show ?case
  proof (cases "f = n")
    case True
    then have k: "k = round_up off al" using 2(2) by simp
    then have "al dvd k" by (simp add: round_up_def)
    then show ?thesis
      using True k round_up_ge [OF pos(2), of off] repr_c_end_ge [OF pos(1), of "k + sz"]
      by (intro exI [of _ sz] exI [of _ al]) simp
  next
    case False
    then obtain sz' al' where "(n, sz', al') \<in> set fs" "al' dvd k" "round_up off al + sz \<le> k"
        "k + sz' \<le> repr_c_end (round_up off al + sz) (map snd fs)"
      using 2 by auto
    then show ?thesis
      using round_up_ge [OF pos(2), of off] by (intro exI [of _ sz'] exI [of _ al']) simp
  qed
qed simp

lemma offset_of_field:
  assumes "offset_of fs n = Some k" and "\<forall>f \<in> set fs. 0 < snd (snd f)"
  shows "\<exists>sz al. (n, sz, al) \<in> set fs \<and> al dvd k \<and> k + sz \<le> size_of fs"
proof -
  have "0 < foldr max (map snd (map snd fs)) 1" by (induction fs) auto
  then have "repr_c_end 0 (map snd fs) \<le> size_of fs"
    by (simp add: size_of_def repr_c_size_def repr_c_align_def round_up_ge)
  with offset_from_field [OF assms [unfolded offset_of_def]] show ?thesis by (meson le_trans)
qed

subsection \<open>The structures of the Filter Manager\<close>

definition FLT_SET_FILE_INFORMATION_FLAGS_layout :: layout where
  "FLT_SET_FILE_INFORMATION_FLAGS_layout = [(''replace_if_exists'', u8_field), (''_advance_only'', u8_field)]"

definition FLT_SET_FILE_INFORMATION_ARGUMENT_field :: "nat \<Rightarrow> nat \<times> nat" where
  "FLT_SET_FILE_INFORMATION_ARGUMENT_field p =
     union_field [struct_field FLT_SET_FILE_INFORMATION_FLAGS_layout, u32_field, ptr_field p]"

definition FLT_SET_FILE_INFORMATION_layout :: "nat \<Rightarrow> layout" where
  "FLT_SET_FILE_INFORMATION_layout p =
     [(''length'', u32_field)]
     @ (if p = 8 then [(''_padding_before_file_information_class'', u32_field)] else [])
     @ [(''file_information_class'', u32_field)]
     @ (if p = 8 then [(''_padding_after_file_information_class'', u32_field)] else [])
     @ [(''_parent_of_target'', ptr_field p), (''argument'', FLT_SET_FILE_INFORMATION_ARGUMENT_field p),
        (''info_buffer'', ptr_field p)]"

definition FLT_PARAMETERS_field :: "nat \<Rightarrow> nat \<times> nat" where
  "FLT_PARAMETERS_field p = union_field [struct_field (FLT_SET_FILE_INFORMATION_layout p)]"

definition FLT_IO_PARAMETER_BLOCK_layout :: "nat \<Rightarrow> layout" where
  "FLT_IO_PARAMETER_BLOCK_layout p =
     [(''_irp_flags'', u32_field), (''_major_function'', u8_field), (''_minor_function'', u8_field),
      (''_operation_flags'', u8_field), (''_reserved'', u8_field), (''_target_file_object'', ptr_field p),
      (''_target_instance'', ptr_field p), (''parameters'', FLT_PARAMETERS_field p)]"

definition FILE_RENAME_INFORMATION_FLAGS_field :: "nat \<times> nat" where
  "FILE_RENAME_INFORMATION_FLAGS_field = union_field [u8_field, u32_field]"

definition FILE_RENAME_INFORMATION_layout :: "nat \<Rightarrow> layout" where
  "FILE_RENAME_INFORMATION_layout p =
     [(''flags'', FILE_RENAME_INFORMATION_FLAGS_field), (''_root_directory'', ptr_field p),
      (''file_name_length'', u32_field), (''file_name'', u16_field)]"

text \<open>The status block is a pointer-sized union and a pointer-sized number.\<close>

definition FLT_CALLBACK_DATA_layout :: "nat \<Rightarrow> layout" where
  "FLT_CALLBACK_DATA_layout p =
     [(''_flags'', u64_field), (''_thread'', ptr_field p), (''iopb'', ptr_field p), (''io_status'', 2 * p, p)]"

definition FLT_RELATED_OBJECTS_layout :: "nat \<Rightarrow> layout" where
  "FLT_RELATED_OBJECTS_layout p =
     [(''_size'', u16_field), (''_transaction_context'', u16_field), (''_pad'', u32_field), (''_filter'', ptr_field p),
      (''_volume'', ptr_field p), (''instance'', ptr_field p), (''file_object'', ptr_field p)]"

definition OBJECT_ATTRIBUTES_layout :: "nat \<Rightarrow> layout" where
  "OBJECT_ATTRIBUTES_layout p =
     [(''length'', u32_field), (''root_directory'', ptr_field p), (''object_name'', ptr_field p),
      (''attributes'', u32_field), (''security_descriptor'', ptr_field p),
      (''security_quality_of_service'', ptr_field p)]"

definition FLT_OPERATION_REGISTRATION_layout :: "nat \<Rightarrow> layout" where
  "FLT_OPERATION_REGISTRATION_layout p =
     [(''major_function'', u8_field), (''flags'', u32_field), (''pre_operation'', ptr_field p),
      (''post_operation'', ptr_field p), (''reserved1'', ptr_field p)]"

definition FLT_REGISTRATION_layout :: "nat \<Rightarrow> layout" where
  "FLT_REGISTRATION_layout p =
     [(''size'', u16_field), (''version'', u16_field), (''flags'', u32_field), (''context_registration'', ptr_field p),
      (''operation_registration'', ptr_field p), (''filter_unload_callback'', ptr_field p),
      (''instance_setup_callback'', ptr_field p), (''instance_query_teardown_callback'', ptr_field p),
      (''instance_teardown_start_callback'', ptr_field p), (''instance_teardown_complete_callback'', ptr_field p),
      (''generate_file_name_callback'', ptr_field p), (''normalize_name_component_callback'', ptr_field p),
      (''normalize_context_cleanup_callback'', ptr_field p), (''transaction_notification_callback'', ptr_field p),
      (''normalize_name_component_ex_callback'', ptr_field p), (''section_notification_callback'', ptr_field p)]"

definition FILE_INTERNAL_INFORMATION_layout :: layout where
  "FILE_INTERNAL_INFORMATION_layout = [(''index_number'', u64_field)]"

lemmas struct_defs = FLT_SET_FILE_INFORMATION_FLAGS_layout_def FLT_SET_FILE_INFORMATION_ARGUMENT_field_def
  FLT_SET_FILE_INFORMATION_layout_def FLT_PARAMETERS_field_def FLT_IO_PARAMETER_BLOCK_layout_def
  FILE_RENAME_INFORMATION_FLAGS_field_def FILE_RENAME_INFORMATION_layout_def FLT_CALLBACK_DATA_layout_def
  FLT_RELATED_OBJECTS_layout_def OBJECT_ATTRIBUTES_layout_def FLT_OPERATION_REGISTRATION_layout_def
  FLT_REGISTRATION_layout_def FILE_INTERNAL_INFORMATION_layout_def

text \<open>The assertions that the code makes when it is compiled for 64 and for 32 bits.\<close>

definition layout_assertions_64 :: bool where
  "layout_assertions_64 \<longleftrightarrow>
     offset_of (FLT_IO_PARAMETER_BLOCK_layout 8) ''parameters'' = Some 24
     \<and> offset_of (FLT_SET_FILE_INFORMATION_layout 8) ''length'' = Some 0
     \<and> offset_of (FLT_SET_FILE_INFORMATION_layout 8) ''file_information_class'' = Some 8
     \<and> offset_of (FLT_SET_FILE_INFORMATION_layout 8) ''_parent_of_target'' = Some 16
     \<and> offset_of (FLT_SET_FILE_INFORMATION_layout 8) ''argument'' = Some 24
     \<and> offset_of (FLT_SET_FILE_INFORMATION_layout 8) ''info_buffer'' = Some 32
     \<and> size_of (FLT_SET_FILE_INFORMATION_layout 8) = 40
     \<and> offset_of (FILE_RENAME_INFORMATION_layout 8) ''file_name'' = Some 20"

definition layout_assertions_32 :: bool where
  "layout_assertions_32 \<longleftrightarrow>
     offset_of (FLT_IO_PARAMETER_BLOCK_layout 4) ''parameters'' = Some 16
     \<and> offset_of (FLT_SET_FILE_INFORMATION_layout 4) ''length'' = Some 0
     \<and> offset_of (FLT_SET_FILE_INFORMATION_layout 4) ''file_information_class'' = Some 4
     \<and> offset_of (FLT_SET_FILE_INFORMATION_layout 4) ''_parent_of_target'' = Some 8
     \<and> offset_of (FLT_SET_FILE_INFORMATION_layout 4) ''argument'' = Some 12
     \<and> offset_of (FLT_SET_FILE_INFORMATION_layout 4) ''info_buffer'' = Some 16
     \<and> size_of (FLT_SET_FILE_INFORMATION_layout 4) = 20
     \<and> offset_of (FILE_RENAME_INFORMATION_layout 4) ''file_name'' = Some 12"

lemma layout_assertions_hold: "layout_assertions_64" "layout_assertions_32"
  by (simp_all add: layout_assertions_64_def layout_assertions_32_def struct_defs offset_defs)

text \<open>
  The offsets that the callbacks use are those of the structures: the flags, the length and the name of a rename,
  and the status of an operation.
\<close>

lemma rename_offsets:
  "offset_of (FILE_RENAME_INFORMATION_layout 8) ''flags'' = Some 0"
  "offset_of (FILE_RENAME_INFORMATION_layout 8) ''file_name_length'' = Some 16"
  "offset_of (FILE_RENAME_INFORMATION_layout 8) ''file_name'' = Some RENAME_NAME_OFFSET"
  by (simp_all add: struct_defs offset_defs RENAME_NAME_OFFSET_def)

lemma documented_offsets:
  "offset_of (FLT_CALLBACK_DATA_layout 8) ''io_status'' = Some 24"
  "offset_of (FLT_CALLBACK_DATA_layout 8) ''iopb'' = Some 16"
  "offset_of (FLT_RELATED_OBJECTS_layout 8) ''_filter'' = Some 8"
  "offset_of (FLT_RELATED_OBJECTS_layout 8) ''file_object'' = Some 32"
  by (simp_all add: struct_defs offset_defs)

lemma struct_sizes:
  "size_of (FLT_REGISTRATION_layout 8) = 112" "size_of (OBJECT_ATTRIBUTES_layout 8) = 48"
  "size_of (FLT_OPERATION_REGISTRATION_layout 8) = 32" "size_of FILE_INTERNAL_INFORMATION_layout = 8"
  by (simp_all add: struct_defs offset_defs)

subsection \<open>Results of a create\<close>

definition FILE_OPENED :: nat where "FILE_OPENED = 1"
definition FILE_EXISTS :: nat where "FILE_EXISTS = 4"
definition FILE_DOES_NOT_EXIST :: nat where "FILE_DOES_NOT_EXIST = 5"

text \<open>Opening an existing file is never reported, nor is a create that found or missed its file.\<close>

lemma post_create_silent:
  assumes "cd_information d \<in> {FILE_OPENED, FILE_EXISTS, FILE_DOES_NOT_EXIST}"
  shows "snd (post_create c (Some d) flt_objects f) = None"
  using assms
  by (auto simp: post_create_def FILE_OPENED_def FILE_EXISTS_def FILE_DOES_NOT_EXIST_def FILE_CREATED_def
      FILE_SUPERSEDED_def FILE_OVERWRITTEN_def split: option.split)

subsection \<open>Object attributes\<close>

record flt_object_attributes =
  at_length :: u32
  at_root_directory :: u64
  at_object_name :: "u16 list"
  at_attributes :: u32
  at_security_descriptor :: u64
  at_security_quality_of_service :: u64

definition initialize_object_attributes :: "u16 list \<Rightarrow> u32 \<Rightarrow> u64 \<Rightarrow> u64 \<Rightarrow> flt_object_attributes" where
  "initialize_object_attributes object_name attributes root_directory security_descriptor =
     \<lparr>at_length = of_nat (size_of (OBJECT_ATTRIBUTES_layout 8)), at_root_directory = root_directory,
      at_object_name = object_name, at_attributes = attributes, at_security_descriptor = security_descriptor,
      at_security_quality_of_service = 0\<rparr>"

subsection \<open>The callbacks that are registered\<close>

definition IRP_MJ_CREATE :: u8 where "IRP_MJ_CREATE = 0"
definition IRP_MJ_WRITE :: u8 where "IRP_MJ_WRITE = 4"
definition IRP_MJ_SET_INFORMATION :: u8 where "IRP_MJ_SET_INFORMATION = 6"
definition IRP_MJ_OPERATION_END :: u8 where "IRP_MJ_OPERATION_END = 0x80"
definition FLT_REGISTRATION_VERSION :: u16 where "FLT_REGISTRATION_VERSION = 0x0203"

lemmas major_defs = IRP_MJ_CREATE_def IRP_MJ_WRITE_def IRP_MJ_SET_INFORMATION_def IRP_MJ_OPERATION_END_def

datatype pre_callback = Cb_Pre_Create | Cb_Pre_Write | Cb_Pre_Set_Info
datatype post_callback = Cb_Post_Create
datatype unload_callback = Cb_Filter_Unload

record flt_operation_registration =
  or_major_function :: u8
  or_flags :: u32
  or_pre_operation :: "pre_callback option"
  or_post_operation :: "post_callback option"
  or_reserved1 :: u64

record flt_registration =
  rg_size :: u16
  rg_version :: u16
  rg_flags :: u32
  rg_context_registration :: u64
  rg_operation_registration :: "flt_operation_registration list option"
  rg_filter_unload_callback :: "unload_callback option"
  rg_instance_setup_callback :: u64
  rg_instance_query_teardown_callback :: u64
  rg_instance_teardown_start_callback :: u64
  rg_instance_teardown_complete_callback :: u64
  rg_generate_file_name_callback :: u64
  rg_normalize_name_component_callback :: u64
  rg_normalize_context_cleanup_callback :: u64
  rg_transaction_notification_callback :: u64
  rg_normalize_name_component_ex_callback :: u64
  rg_section_notification_callback :: u64

definition filter_operations :: "flt_operation_registration list" where
  "filter_operations =
     [\<lparr>or_major_function = IRP_MJ_CREATE, or_flags = 0, or_pre_operation = Some Cb_Pre_Create,
       or_post_operation = Some Cb_Post_Create, or_reserved1 = 0\<rparr>,
      \<lparr>or_major_function = IRP_MJ_WRITE, or_flags = 0, or_pre_operation = Some Cb_Pre_Write,
       or_post_operation = None, or_reserved1 = 0\<rparr>,
      \<lparr>or_major_function = IRP_MJ_SET_INFORMATION, or_flags = 0, or_pre_operation = Some Cb_Pre_Set_Info,
       or_post_operation = None, or_reserved1 = 0\<rparr>,
      \<lparr>or_major_function = IRP_MJ_OPERATION_END, or_flags = 0, or_pre_operation = None,
       or_post_operation = None, or_reserved1 = 0\<rparr>]"

definition zeroed_registration :: flt_registration where
  "zeroed_registration = \<lparr>rg_size = 0, rg_version = 0, rg_flags = 0, rg_context_registration = 0,
     rg_operation_registration = None, rg_filter_unload_callback = None, rg_instance_setup_callback = 0,
     rg_instance_query_teardown_callback = 0, rg_instance_teardown_start_callback = 0,
     rg_instance_teardown_complete_callback = 0, rg_generate_file_name_callback = 0,
     rg_normalize_name_component_callback = 0, rg_normalize_context_cleanup_callback = 0,
     rg_transaction_notification_callback = 0, rg_normalize_name_component_ex_callback = 0,
     rg_section_notification_callback = 0\<rparr>"

definition filter_registration :: flt_registration where
  "filter_registration = zeroed_registration
     \<lparr>rg_size := of_nat (size_of (FLT_REGISTRATION_layout 8)), rg_version := FLT_REGISTRATION_VERSION,
      rg_filter_unload_callback := Some Cb_Filter_Unload, rg_operation_registration := Some filter_operations\<rparr>"

subsection \<open>Routing\<close>

text \<open>
  What the Filter Manager documents of the table: the entries before the end mark count, and an operation
  belongs to the first of its major function.
\<close>

definition routes_by_table :: "(flt_operation_registration list \<Rightarrow> u8 \<Rightarrow> flt_operation_registration option) \<Rightarrow> bool" where
  "routes_by_table lookup \<longleftrightarrow>
     (\<forall>before r after m. (\<forall>x \<in> set before. or_major_function x \<notin> {m, IRP_MJ_OPERATION_END})
        \<and> or_major_function r \<in> {m, IRP_MJ_OPERATION_END}
        \<longrightarrow> lookup (before @ r # after) m = (if or_major_function r = IRP_MJ_OPERATION_END then None else Some r))"

text \<open>Calling a callback with the operation's data and objects; \<open>None\<close> where it follows a null pointer.\<close>

definition call_pre ::
  "pre_callback \<Rightarrow> caller \<Rightarrow> flt_callback_data option \<Rightarrow> flt_related_objects option \<Rightarrow> filter_state
     \<Rightarrow> (nat \<times> galatea_fs_event option) option" where
  "call_pre cb c data flt_objects f =
     (case cb of
        Cb_Pre_Create \<Rightarrow> Some (pre_create c f, None)
      | Cb_Pre_Write \<Rightarrow> map_option (\<lambda>r. pre_write c r f) flt_objects
      | Cb_Pre_Set_Info \<Rightarrow> Some (pre_set_info c data flt_objects f))"

definition call_post ::
  "post_callback \<Rightarrow> caller \<Rightarrow> flt_callback_data option \<Rightarrow> flt_related_objects option \<Rightarrow> filter_state
     \<Rightarrow> nat \<times> galatea_fs_event option" where
  "call_post cb c data flt_objects f = (case cb of Cb_Post_Create \<Rightarrow> post_create c data flt_objects f)"

fun io_major :: "file_io \<Rightarrow> u8" where
  "io_major (Io_Create _ _) = IRP_MJ_CREATE"
| "io_major (Io_Write _) = IRP_MJ_WRITE"
| "io_major (Io_Set_Info _ _) = IRP_MJ_SET_INFORMATION"

fun io_data :: "file_io \<Rightarrow> flt_callback_data option" where
  "io_data (Io_Create d _) = d"
| "io_data (Io_Write _) = None"
| "io_data (Io_Set_Info d _) = d"

fun io_objects :: "file_io \<Rightarrow> flt_related_objects option" where
  "io_objects (Io_Create _ r) = r"
| "io_objects (Io_Write r) = Some r"
| "io_objects (Io_Set_Info _ r) = r"

definition sent_events :: "galatea_fs_event option \<Rightarrow> galatea_fs_event list" where
  "sent_events e = (case e of None \<Rightarrow> [] | Some x \<Rightarrow> [x])"

text \<open>
  An operation with the entry it belongs to: the events that its callbacks send. The second callback is called where
  the first asks for it; asking without having one is an error (\<open>None\<close>), as is a null pointer.
\<close>

definition run_callbacks ::
  "flt_operation_registration \<Rightarrow> caller \<Rightarrow> file_io \<Rightarrow> filter_state \<Rightarrow> galatea_fs_event list option" where
  "run_callbacks r c op f =
     (case or_pre_operation r of
        None \<Rightarrow> Some []
      | Some pre \<Rightarrow>
          (case call_pre pre c (io_data op) (io_objects op) f of
             None \<Rightarrow> None
           | Some (status, e) \<Rightarrow>
               if status \<noteq> FLT_PREOP_SUCCESS_WITH_CALLBACK then Some (sent_events e)
               else (case or_post_operation r of
                       None \<Rightarrow> None
                     | Some post \<Rightarrow>
                         Some (sent_events e
                           @ sent_events (snd (call_post post c (io_data op) (io_objects op) f))))))"

lemma filter_lookup:
  assumes "routes_by_table lookup"
  shows "lookup filter_operations m =
    (if m = IRP_MJ_CREATE then Some (filter_operations ! 0) else if m = IRP_MJ_WRITE then Some (filter_operations ! 1)
     else if m = IRP_MJ_SET_INFORMATION then Some (filter_operations ! 2) else None)"
proof -
  let ?o = filter_operations
  have o: "?o = [] @ ?o ! 0 # [?o ! 1, ?o ! 2, ?o ! 3]" "?o = [?o ! 0] @ ?o ! 1 # [?o ! 2, ?o ! 3]"
    "?o = [?o ! 0, ?o ! 1] @ ?o ! 2 # [?o ! 3]" "?o = [?o ! 0, ?o ! 1, ?o ! 2] @ ?o ! 3 # []"
    by (simp_all add: filter_operations_def)
  have majors: "or_major_function (?o ! 0) = 0" "or_major_function (?o ! 1) = 4" "or_major_function (?o ! 2) = 6"
    "or_major_function (?o ! 3) = 0x80"
    "or_major_function (?o ! Suc 0) = 4"
    by (simp_all add: filter_operations_def major_defs)
  have find: "lookup (before @ r # after) m =
      (if or_major_function r = 0x80 then None else Some r)"
    if "\<forall>x \<in> set before. or_major_function x \<notin> {m, 0x80}" "or_major_function r \<in> {m, 0x80}" for before r after
    using assms that unfolding routes_by_table_def major_defs by blast
  consider "m = 0" | "m = 4" | "m = 6" | "m \<noteq> 0" "m \<noteq> 4" "m \<noteq> 6" by blast
  then show ?thesis
  proof cases
    case 1
    then show ?thesis by (subst (1) o(1), subst find) (simp_all add: majors major_defs)
  next
    case 2
    then show ?thesis by (subst (1) o(2), subst find) (simp_all add: majors major_defs)
  next
    case 3
    then show ?thesis by (subst (1) o(3), subst find) (simp_all add: majors major_defs)
  next
    case 4
    then show ?thesis by (subst (1) o(4), subst find) (simp_all add: majors major_defs)
  qed
qed

text \<open>
  The table that \<open>DriverEntry\<close> registers routes every operation as the model of the callbacks says: the operations
  of a file that the filter watches send the event of \<open>io_event\<close> or none, a callback that is wanted is there and
  no null pointer is followed, and no other operation is seen.
\<close>

theorem registration_routes:
  assumes "routes_by_table lookup"
  shows "\<exists>table. rg_operation_registration filter_registration = Some table
    \<and> (\<exists>r. lookup table (io_major op) = Some r
         \<and> run_callbacks r c op f = Some (sent_events (io_event c op f)))
    \<and> (\<forall>m. m \<notin> {IRP_MJ_CREATE, IRP_MJ_WRITE, IRP_MJ_SET_INFORMATION} \<longrightarrow> lookup table m = None)"
proof (intro exI [of _ filter_operations] conjI)
  have ne: "FLT_PREOP_SUCCESS_NO_CALLBACK \<noteq> FLT_PREOP_SUCCESS_WITH_CALLBACK" by (simp add: flt_const_defs)
  show "\<exists>r. lookup filter_operations (io_major op) = Some r
      \<and> run_callbacks r c op f = Some (sent_events (io_event c op f))"
  proof (cases op)
    case (Io_Create data r)
    have "run_callbacks (filter_operations ! 0) c op f = Some (sent_events (io_event c op f))"
      by (simp add: Io_Create run_callbacks_def filter_operations_def call_pre_def call_post_def io_event_def
          sent_events_def)
    with Io_Create show ?thesis by (simp add: filter_lookup [OF assms])
  next
    case (Io_Write r)
    have "run_callbacks (filter_operations ! 1) c op f = Some (sent_events (io_event c op f))"
      using ne by (simp add: Io_Write run_callbacks_def filter_operations_def call_pre_def io_event_def
          pre_write_def)
    with Io_Write show ?thesis by (simp add: filter_lookup [OF assms] major_defs)
  next
    case (Io_Set_Info data r)
    have "run_callbacks (filter_operations ! 2) c op f = Some (sent_events (io_event c op f))"
      using ne by (simp add: Io_Set_Info run_callbacks_def filter_operations_def call_pre_def io_event_def
          pre_set_info_def)
    with Io_Set_Info show ?thesis by (simp add: filter_lookup [OF assms] major_defs)
  qed
qed (simp_all add: filter_registration_def filter_lookup [OF assms])

definition table_lookup :: "flt_operation_registration list \<Rightarrow> u8 \<Rightarrow> flt_operation_registration option" where
  "table_lookup ops m = find (\<lambda>r. or_major_function r = m) (takeWhile (\<lambda>r. or_major_function r \<noteq> IRP_MJ_OPERATION_END) ops)"

theorem registration_routes_witness:
  "\<exists>table. rg_operation_registration filter_registration = Some table
    \<and> (\<exists>r. table_lookup table IRP_MJ_SET_INFORMATION = Some r
         \<and> run_callbacks r sample_caller sample_rename_io sample_connected = Some [sample_rename_event])
    \<and> table_lookup table 2 = None"
proof -
  have find: "find P (xs @ ys) = (case find P xs of None \<Rightarrow> find P ys | Some x \<Rightarrow> Some x)" for P xs ys
    by (induction xs) auto
  have none: "(\<forall>x \<in> set xs. \<not> P x) \<Longrightarrow> find P xs = None" for P xs by (induction xs) auto
  have "routes_by_table table_lookup"
    unfolding routes_by_table_def table_lookup_def
    by (auto simp: takeWhile_append find none)
  from registration_routes [OF this, where op = sample_rename_io and c = sample_caller and f = sample_connected]
  obtain table r where "rg_operation_registration filter_registration = Some table"
    "table_lookup table (io_major sample_rename_io) = Some r"
    "run_callbacks r sample_caller sample_rename_io sample_connected
      = Some (sent_events (io_event sample_caller sample_rename_io sample_connected))"
    "table_lookup table 2 = None"
    by (auto simp: major_defs)
  moreover have "io_event sample_caller sample_rename_io sample_connected = Some sample_rename_event" by code_simp
  moreover have "io_major sample_rename_io = IRP_MJ_SET_INFORMATION" by (simp add: sample_rename_io_def)
  ultimately show ?thesis
    by (intro exI [of _ table] conjI exI [of _ r]) (simp_all add: sent_events_def)
qed

end
