(* ===== verification/Ipc_Pipes.thy ===== *)
theory Ipc_Pipes
  imports File_Context Fs_Wire
begin

text \<open>
  The pipes between the agent and the client: \<open>communication/ipc/ipc_server.rs\<close> of the agent and
  \<open>ipc_client.rs\<close> of the client. A pipe holds the bytes that were written and not yet read. The
  client opens it with \<open>CreateFileW\<close>, which reads it as a stream of bytes: a \<open>ReadFile\<close> returns what
  is there, up to the size it asks for. A write is taken whole.
\<close>

subsection \<open>A byte channel\<close>

text \<open>
  How many bytes a read returns besides the first is up to the system: \<open>sched\<close> gives it for the reads
  to come (when it has run out, each read returns one byte). A read of an empty pipe fails when the pipe
  is closed; while it is open the read waits for the next write, so a read that finds nothing is one of a
  closed pipe. The code below takes the two system calls as parameters; this pipe is one instance of them.
\<close>

record pipe_conn =
  pc_bytes :: "u8 list"
  pc_open :: bool
  pc_sched :: "nat list"

definition pipe_write :: "u8 list \<Rightarrow> pipe_conn \<Rightarrow> (nat \<times> pipe_conn) option" where
  "pipe_write data p =
     (if pc_open p then Some (length data, p\<lparr>pc_bytes := pc_bytes p @ data\<rparr>) else None)"

definition next_len :: "pipe_conn \<Rightarrow> nat" where
  "next_len p = (case pc_sched p of [] \<Rightarrow> 1 | k # _ \<Rightarrow> Suc k)"

definition pipe_read :: "nat \<Rightarrow> pipe_conn \<Rightarrow> (u8 list \<times> pipe_conn) option" where
  "pipe_read n p =
     (if pc_bytes p = [] then None
      else
        (let k = min n (next_len p) in
         Some (take k (pc_bytes p), p\<lparr>pc_bytes := drop k (pc_bytes p), pc_sched := drop 1 (pc_sched p)\<rparr>)))"

text \<open>The interface: a write is queued whole, a read takes a non-empty part of what is queued.\<close>

locale byte_channel =
  fixes queued :: "'p \<Rightarrow> u8 list"
    and is_open :: "'p \<Rightarrow> bool"
    and wr :: "u8 list \<Rightarrow> 'p \<Rightarrow> (nat \<times> 'p) option"
    and rd :: "nat \<Rightarrow> 'p \<Rightarrow> (u8 list \<times> 'p) option"
  assumes write_open: "is_open p \<Longrightarrow>
      \<exists>p'. wr data p = Some (length data, p') \<and> queued p' = queued p @ data \<and> is_open p'"
    and read_some: "queued p \<noteq> [] \<Longrightarrow> 0 < n \<Longrightarrow>
      \<exists>k p'. rd n p = Some (take k (queued p), p') \<and> 0 < k \<and> k \<le> n
        \<and> queued p' = drop k (queued p)"
    and read_none: "queued p = [] \<Longrightarrow> rd n p = None"

interpretation pipe: byte_channel pc_bytes pc_open pipe_write pipe_read
proof
  fix p :: pipe_conn and n :: nat
  assume "pc_bytes p \<noteq> []" "0 < n"
  then show "\<exists>k p'. pipe_read n p = Some (take k (pc_bytes p), p') \<and> 0 < k \<and> k \<le> n
      \<and> pc_bytes p' = drop k (pc_bytes p)"
    by (auto simp: pipe_read_def Let_def next_len_def intro!: exI [of _ "min n (next_len p)"] split: list.split)
qed (simp_all add: pipe_write_def pipe_read_def)

subsection \<open>The agent's side\<close>

text \<open>\<open>data.chunks(n)\<close>: pieces of \<open>n\<close>, the last may be shorter; none for no data.\<close>

function chunks :: "nat \<Rightarrow> 'a list \<Rightarrow> 'a list list" where
  "chunks n xs = (if xs = [] \<or> n = 0 then [] else take n xs # chunks n (drop n xs))"
  by pat_completeness auto
termination by (relation "measure (\<lambda>(n, xs). length xs)") auto

declare chunks.simps [simp del]

fun write_chunks :: "(u8 list \<Rightarrow> 'p \<Rightarrow> (nat \<times> 'p) option) \<Rightarrow> u8 list list \<Rightarrow> 'p \<Rightarrow> 'p \<times> bool" where
  "write_chunks wr [] p = (p, True)"
| "write_chunks wr (chunk # cs) p =
     (case wr chunk p of
        None \<Rightarrow> (p, False)
      | Some (bytes_written, p') \<Rightarrow>
          if bytes_written \<noteq> length chunk then (p', False) else write_chunks wr cs p')"

definition write_pipe_bytes ::
  "(u8 list \<Rightarrow> 'p \<Rightarrow> (nat \<times> 'p) option) \<Rightarrow> u8 list \<Rightarrow> 'p \<Rightarrow> 'p \<times> bool" where
  "write_pipe_bytes wr data p = write_chunks wr (chunks PIPE_BUFFER_SIZE data) p"

definition write_command_response ::
  "(u8 list \<Rightarrow> 'p \<Rightarrow> (nat \<times> 'p) option) \<Rightarrow> u8 list \<Rightarrow> 'p \<Rightarrow> 'p \<times> bool" where
  "write_command_response wr data p =
     (case write_pipe_bytes wr (u64_bytes (of_nat (length data))) p of
        (p', True) \<Rightarrow> write_pipe_bytes wr data p'
      | (p', False) \<Rightarrow> (p', False))"

text \<open>
  The library \<open>serde_json\<close>: \<open>from_slice\<close> of a request (an error text otherwise) and \<open>to_string\<close> of a
  response.
\<close>

definition command_response ::
  "(u8 list \<Rightarrow> string + ipc_request) \<Rightarrow> context_cache \<Rightarrow> u8 list \<Rightarrow> ipc_response" where
  "command_response parse_request cache request =
     (if request = [] then IpcError ''empty request''
      else case parse_request request of
        Inr (GetFileContextSnapshot limit) \<Rightarrow> FileContextSnapshot (fsc_snapshot limit cache)
      | Inl e \<Rightarrow> IpcError (''invalid request: '' @ e))"

text \<open>\<open>request\<close> is what \<open>ReadFile\<close> gave, \<open>None\<close> an error.\<close>

definition handle_command_client ::
  "(u8 list \<Rightarrow> 'p \<Rightarrow> (nat \<times> 'p) option) \<Rightarrow> (u8 list \<Rightarrow> string + ipc_request) \<Rightarrow> (ipc_response \<Rightarrow> u8 list option)
     \<Rightarrow> context_cache \<Rightarrow> u8 list option \<Rightarrow> 'p \<Rightarrow> 'p" where
  "handle_command_client wr parse_request print_response cache request p =
     (case request of
        None \<Rightarrow> p
      | Some bytes \<Rightarrow>
          (case print_response (command_response parse_request cache bytes) of
             None \<Rightarrow> p
           | Some json \<Rightarrow> fst (write_command_response wr json p)))"

text \<open>
  One turn of the command server: \<open>ConnectNamedPipe\<close> succeeds (\<open>None\<close>) or gives an error, then the
  client is served, and in every case the pipe is disconnected. An error carries an \<open>HRESULT\<close>.
\<close>

definition ERROR_PIPE_CONNECTED :: u32 where "ERROR_PIPE_CONNECTED = 535"
definition ERROR_BROKEN_PIPE :: u32 where "ERROR_BROKEN_PIPE = 109"
definition ERROR_NO_DATA :: u32 where "ERROR_NO_DATA = 232"

definition win32_error_code :: "u32 \<Rightarrow> u32" where
  "win32_error_code raw = (if raw AND 0xffff0000 = 0x80070000 then raw AND 0x0000ffff else raw)"

definition client_connected :: "u32 option \<Rightarrow> bool" where
  "client_connected connect =
     (case connect of None \<Rightarrow> True | Some e \<Rightarrow> win32_error_code e = ERROR_PIPE_CONNECTED)"

definition run_command_turn ::
  "(u8 list \<Rightarrow> 'p \<Rightarrow> (nat \<times> 'p) option) \<Rightarrow> ('p \<Rightarrow> 'p)
     \<Rightarrow> (u8 list \<Rightarrow> string + ipc_request) \<Rightarrow> (ipc_response \<Rightarrow> u8 list option)
     \<Rightarrow> context_cache \<Rightarrow> u32 option \<Rightarrow> u8 list option \<Rightarrow> 'p \<Rightarrow> 'p" where
  "run_command_turn wr disconnect parse_request print_response cache connect request p =
     disconnect
       (if client_connected connect
        then handle_command_client wr parse_request print_response cache request p else p)"

subsection \<open>The client's side\<close>

datatype request_error =
  Serialize_Failed string | Write_Failed | Read_Failed | Ended_Early | Parse_Failed string | Agent_Error string

function read_command_bytes ::
  "(nat \<Rightarrow> 'p \<Rightarrow> (u8 list \<times> 'p) option) \<Rightarrow> nat \<Rightarrow> u8 list \<Rightarrow> 'p \<Rightarrow> (request_error + u8 list) \<times> 'p" where
  "read_command_bytes rd n out p =
     (if n = 0 then (Inr out, p)
      else case rd n p of
        None \<Rightarrow> (Inl Read_Failed, p)
      | Some (bytes, p') \<Rightarrow>
          if bytes = [] then (Inl Ended_Early, p')
          else read_command_bytes rd (n - length bytes) (out @ bytes) p')"
  by pat_completeness auto
termination by (relation "measure (\<lambda>(rd, n, out, p). n)") auto

declare read_command_bytes.simps [simp del]

definition read_command_response ::
  "(nat \<Rightarrow> 'p \<Rightarrow> (u8 list \<times> 'p) option) \<Rightarrow> 'p \<Rightarrow> (request_error + u8 list) \<times> 'p" where
  "read_command_response rd p =
     (case read_command_bytes rd 8 [] p of
        (Inl e, p') \<Rightarrow> (Inl e, p')
      | (Inr len_bytes, p') \<Rightarrow> read_command_bytes rd (le_nat len_bytes) [] p')"

text \<open>What becomes of the response: the entries, or an error.\<close>

definition snapshot_of_response ::
  "(u8 list \<Rightarrow> string + ipc_response) \<Rightarrow> request_error + u8 list \<Rightarrow> request_error + file_context_snapshot list" where
  "snapshot_of_response parse_response r =
     (case r of
        Inl e \<Rightarrow> Inl e
      | Inr bytes \<Rightarrow>
          (case parse_response bytes of
             Inl e \<Rightarrow> Inl (Parse_Failed e)
           | Inr (FileContextSnapshot entries) \<Rightarrow> Inr entries
           | Inr (IpcError msg) \<Rightarrow> Inl (Agent_Error msg)))"

subsection \<open>Broadcasts\<close>

text \<open>What \<open>WriteFile\<close> to a client gave: \<open>None\<close>, written, or the \<open>HRESULT\<close> of an error.\<close>

definition client_gone :: "u32 option \<Rightarrow> bool" where
  "client_gone r =
     (case r of None \<Rightarrow> False
      | Some e \<Rightarrow> win32_error_code e = ERROR_NO_DATA \<or> win32_error_code e = ERROR_BROKEN_PIPE)"

definition remove_at :: "nat \<Rightarrow> 'a list \<Rightarrow> 'a list" where
  "remove_at i xs = take i xs @ drop (Suc i) xs"

text \<open>The indices of the clients that are gone, and their removal from the last to the first.\<close>

fun gone_indices :: "nat \<Rightarrow> u32 option list \<Rightarrow> nat list" where
  "gone_indices idx [] = []"
| "gone_indices idx (r # rs) = (if client_gone r then idx # gone_indices (Suc idx) rs else gone_indices (Suc idx) rs)"

fun remove_clients :: "nat list \<Rightarrow> 'h list \<Rightarrow> 'h list \<times> 'h list" where
  "remove_clients [] clients = (clients, [])"
| "remove_clients (idx # is) clients =
     (let handle = clients ! idx; (rest, closed) = remove_clients is (remove_at idx clients) in
      (rest, handle # closed))"

definition broadcast_message :: "('h \<Rightarrow> u32 option) \<Rightarrow> u8 list option \<Rightarrow> 'h list \<Rightarrow> 'h list \<times> 'h list" where
  "broadcast_message wr json clients =
     (case json of
        None \<Rightarrow> (clients, [])
      | Some _ \<Rightarrow> remove_clients (rev (gone_indices 0 (map wr clients))) clients)"

text \<open>
  The server's loop: the clients that connected join, then a message is sent to all, or the wait ends
  without one; a closed channel ends the loop and the clients that are left are closed. The result is
  the handles that were closed, in order.
\<close>

datatype 'm ipc_recv = Recv_Message 'm | Recv_Timeout | Recv_Disconnected

fun run_ipc_server ::
  "('h list \<times> u8 list option ipc_recv \<times> ('h \<Rightarrow> u32 option)) list \<Rightarrow> 'h list \<Rightarrow> 'h list \<times> 'h list" where
  "run_ipc_server [] clients = (clients, [])"
| "run_ipc_server ((new_clients, recv, wr) # turns) clients =
     (let clients = clients @ new_clients in
      case recv of
        Recv_Message json \<Rightarrow>
          (let (clients', closed) = broadcast_message wr json clients;
               (end_clients, closed') = run_ipc_server turns clients' in
           (end_clients, closed @ closed'))
      | Recv_Timeout \<Rightarrow> run_ipc_server turns clients
      | Recv_Disconnected \<Rightarrow> ([], clients))"

text \<open>
  The client's reading of events: what each \<open>ReadFile\<close> gave (\<open>None\<close> ends the loop), and whether the
  program still takes messages.
\<close>

fun read_messages :: "(u8 list \<Rightarrow> string + 'm) \<Rightarrow> (u8 list option \<times> bool) list \<Rightarrow> 'm list" where
  "read_messages parse [] = []"
| "read_messages parse ((None, _) # turns) = []"
| "read_messages parse ((Some data, taken) # turns) =
     (if data = [] then read_messages parse turns
      else case parse data of
        Inl e \<Rightarrow> read_messages parse turns
      | Inr message \<Rightarrow> if taken then message # read_messages parse turns else [])"

subsection \<open>Lemmas\<close>

lemma concat_chunks: "0 < n \<Longrightarrow> concat (chunks n xs) = xs"
proof (induction n xs rule: chunks.induct)
  case (1 n xs)
  then show ?case by (subst chunks.simps) auto
qed

context byte_channel
begin

lemma write_chunks_open:
  "is_open p \<Longrightarrow> \<exists>p'. write_chunks wr cs p = (p', True) \<and> queued p' = queued p @ concat cs \<and> is_open p'"
proof (induction cs arbitrary: p)
  case Nil
  then show ?case by simp
next
  case (Cons c cs)
  obtain q where q: "wr c p = Some (length c, q)" "queued q = queued p @ c" "is_open q"
    using write_open [OF Cons.prems] by blast
  from Cons.IH [OF q(3)] show ?case by (auto simp: q)
qed

lemma write_pipe_bytes_open:
  "is_open p \<Longrightarrow> \<exists>p'. write_pipe_bytes wr data p = (p', True) \<and> queued p' = queued p @ data \<and> is_open p'"
  using write_chunks_open [of p "chunks PIPE_BUFFER_SIZE data"]
  by (simp add: write_pipe_bytes_def concat_chunks PIPE_BUFFER_SIZE_def)

lemma write_command_response_open:
  "is_open p \<Longrightarrow> \<exists>p'. write_command_response wr data p = (p', True)
     \<and> queued p' = queued p @ u64_bytes (of_nat (length data)) @ data \<and> is_open p'"
  using write_pipe_bytes_open [of p "u64_bytes (of_nat (length data))"] write_pipe_bytes_open [of _ data]
  by (fastforce simp: write_command_response_def)

text \<open>However the bytes are cut, the reader gets the first \<open>n\<close> of them, or fails for want of bytes.\<close>

lemma read_command_bytes_enough:
  "n \<le> length (queued p) \<Longrightarrow>
     \<exists>p'. read_command_bytes rd n out p = (Inr (out @ take n (queued p)), p') \<and> queued p' = drop n (queued p)"
proof (induction n arbitrary: out p rule: less_induct)
  case (less n)
  show ?case
  proof (cases "n = 0")
    case True
    then show ?thesis by (simp add: read_command_bytes.simps)
  next
    case False
    with less.prems have "queued p \<noteq> []" by auto
    then obtain k q where k: "rd n p = Some (take k (queued p), q)" "0 < k" "k \<le> n" "queued q = drop k (queued p)"
      using read_some [of p n] False by blast
    have eq: "read_command_bytes rd n out p = read_command_bytes rd (n - k) (out @ take k (queued p)) q"
      using k less.prems False by (subst read_command_bytes.simps) (auto simp: min_def)
    have "n - k < n" "n - k \<le> length (queued q)" using k less.prems False by auto
    from less.IH [OF this, of "out @ take k (queued p)"] obtain p' where p':
      "read_command_bytes rd (n - k) (out @ take k (queued p)) q
         = (Inr ((out @ take k (queued p)) @ take (n - k) (queued q)), p')"
      "queued p' = drop (n - k) (queued q)" by blast
    have "take k (queued p) @ take (n - k) (queued q) = take n (queued p)"
      using k by (simp flip: take_add)
    with p' k(3,4) show ?thesis by (auto simp: eq)
  qed
qed

lemma read_command_bytes_short:
  "length (queued p) < n \<Longrightarrow> fst (read_command_bytes rd n out p) = Inl Read_Failed"
proof (induction n arbitrary: out p rule: less_induct)
  case (less n)
  show ?case
  proof (cases "queued p = []")
    case True
    then show ?thesis using less.prems by (subst read_command_bytes.simps) (simp add: read_none)
  next
    case False
    then obtain k q where k: "rd n p = Some (take k (queued p), q)" "0 < k" "k \<le> n" "queued q = drop k (queued p)"
      using read_some [of p n] less.prems by (metis not_less0 not_gr_zero)
    let ?j = "min k (length (queued p))"
    have "read_command_bytes rd n out p = read_command_bytes rd (n - ?j) (out @ take k (queued p)) q"
      using k less.prems False by (subst read_command_bytes.simps) (auto simp: min_def)
    moreover have "n - ?j < n" "length (queued q) < n - ?j" using k less.prems False by (auto simp: min_def)
    ultimately show ?thesis using less.IH by metis
  qed
qed

text \<open>The frame: eight bytes of length and the data. A reader gets the data back, and leaves the rest.\<close>

lemma read_command_response_framed:
  assumes "queued p = u64_bytes (of_nat (length data)) @ data @ rest" and "length data < 2 ^ 64"
  shows "\<exists>p'. read_command_response rd p = (Inr data, p') \<and> queued p' = rest"
proof -
  have len: "length (u64_bytes (of_nat (length data))) = 8" by simp
  then obtain q where q: "read_command_bytes rd 8 [] p = (Inr (u64_bytes (of_nat (length data))), q)"
      "queued q = data @ rest"
    using read_command_bytes_enough [of 8 p "[]"] assms(1) by auto
  have "le_nat (u64_bytes (of_nat (length data))) = length data"
    using assms(2) by (simp add: u64_bytes_def le_nat_le_bytes unat_of_nat)
  moreover obtain p' where "read_command_bytes rd (length data) [] q = (Inr data, p')" "queued p' = rest"
    using read_command_bytes_enough [of "length data" q "[]"] q(2) by auto
  ultimately show ?thesis by (auto simp: read_command_response_def q)
qed

lemma read_command_response_empty:
  "queued p = [] \<Longrightarrow> fst (read_command_response rd p) = Inl Read_Failed"
  using read_command_bytes_short [of p 8 "[]"]
  by (auto simp: read_command_response_def split: prod.splits)

text \<open>A response that was written to an open channel with nothing queued is what the reader gets.\<close>

lemma write_read_response:
  assumes "is_open p" "queued p = []" "length data < 2 ^ 64"
  shows "fst (read_command_response rd (fst (write_command_response wr data p))) = Inr data"
proof -
  obtain q where "write_command_response wr data p = (q, True)"
      "queued q = u64_bytes (of_nat (length data)) @ data @ []"
    using write_command_response_open [OF assms(1), of data] assms(2) by auto
  then show ?thesis using read_command_response_framed [of q data "[]"] assms(3) by auto
qed

end

subsection \<open>Removing the clients that are gone\<close>

lemma gone_indices_Suc: "gone_indices (Suc idx) rs = map Suc (gone_indices idx rs)"
  by (induction rs arbitrary: idx) auto

lemma remove_clients_append:
  "remove_clients (is @ js) cs =
     (let (rest, closed) = remove_clients is cs; (rest', closed') = remove_clients js rest in
      (rest', closed @ closed'))"
  by (induction "is" arbitrary: cs) (auto simp: Let_def split: prod.splits)

lemma remove_clients_Suc:
  "remove_clients (map Suc is) (c # cs) =
     (let (rest, closed) = remove_clients is cs in (c # rest, closed))"
  by (induction "is" arbitrary: cs) (auto simp: remove_at_def Let_def split: prod.splits)

lemma remove_gone:
  "remove_clients (rev (gone_indices 0 (map wr cs))) cs =
     (filter (\<lambda>h. \<not> client_gone (wr h)) cs, rev (filter (\<lambda>h. client_gone (wr h)) cs))"
proof (induction cs)
  case Nil
  then show ?case by simp
next
  case (Cons c cs)
  then show ?case
    by (simp add: gone_indices_Suc remove_clients_append remove_clients_Suc remove_at_def Let_def rev_map)
qed

subsection \<open>Properties\<close>



text \<open>
  The server disconnects the pipe as soon as the answer is written, without waiting until it is read: a
  client that reads after that has lost the answer (\<open>DisconnectNamedPipe\<close> drops what was not read), and its request ends with the error of the read.
\<close>

theorem response_lost_on_disconnect:
  assumes "byte_channel queued is_open wr rd" and "\<And>p. queued (disconnect p) = []"
  shows "snapshot_of_response parse_response (fst (read_command_response rd
     (run_command_turn wr disconnect parse_request print_response cache connect request p))) = Inl Read_Failed"
  using byte_channel.read_command_response_empty [OF assms(1)] assms(2)
  by (simp add: snapshot_of_response_def run_command_turn_def)

text \<open>
  A broadcast removes from the list exactly the clients whose pipe is broken or closing, keeps the others in
  their order (those with another error too), and closes the handles of the removed ones, from the last to
  the first: removal by position does not hit a wrong client.
\<close>

theorem broadcast_keeps_live_clients:
  "broadcast_message wr (Some json) clients =
     (filter (\<lambda>h. \<not> client_gone (wr h)) clients, rev (filter (\<lambda>h. client_gone (wr h)) clients))"
  by (simp add: broadcast_message_def remove_gone)

end
