(* ===== verification/Client_App.thy ===== *)
theory Client_App
  imports Shared_Api Rust_Strings
begin

text \<open>
  The state of the desktop client and its \<open>update\<close> function: \<open>app.rs\<close> and the themes of \<open>theme.rs\<close>.
  The messages of the agent wait in the channel of the client's thread and are taken by the ticks of
  the timer; every other message is a click or an input of the user.
\<close>

subsection \<open>Themes\<close>

datatype app_theme =
    Dark | Light | Dracula | Nord | SolarizedLight | SolarizedDark | GruvboxLight | GruvboxDark
  | CatppuccinLatte | CatppuccinFrappe | CatppuccinMacchiato | CatppuccinMocha
  | TokyoNight | TokyoNightStorm | TokyoNightLight
  | KanagawaWave | KanagawaDragon | KanagawaLotus
  | Moonfly | Nightfly | Oxocarbon | Ferra | DefenderExplorer

fun theme_next :: "app_theme \<Rightarrow> app_theme" where
  "theme_next Dark = Light"
| "theme_next Light = Dracula"
| "theme_next Dracula = Nord"
| "theme_next Nord = SolarizedLight"
| "theme_next SolarizedLight = SolarizedDark"
| "theme_next SolarizedDark = GruvboxLight"
| "theme_next GruvboxLight = GruvboxDark"
| "theme_next GruvboxDark = CatppuccinLatte"
| "theme_next CatppuccinLatte = CatppuccinFrappe"
| "theme_next CatppuccinFrappe = CatppuccinMacchiato"
| "theme_next CatppuccinMacchiato = CatppuccinMocha"
| "theme_next CatppuccinMocha = TokyoNight"
| "theme_next TokyoNight = TokyoNightStorm"
| "theme_next TokyoNightStorm = TokyoNightLight"
| "theme_next TokyoNightLight = KanagawaWave"
| "theme_next KanagawaWave = KanagawaDragon"
| "theme_next KanagawaDragon = KanagawaLotus"
| "theme_next KanagawaLotus = Moonfly"
| "theme_next Moonfly = Nightfly"
| "theme_next Nightfly = Oxocarbon"
| "theme_next Oxocarbon = Ferra"
| "theme_next Ferra = DefenderExplorer"
| "theme_next DefenderExplorer = Dark"

fun theme_name :: "app_theme \<Rightarrow> string" where
  "theme_name Dark = ''Dark''"
| "theme_name Light = ''Light''"
| "theme_name Dracula = ''Dracula''"
| "theme_name Nord = ''Nord''"
| "theme_name SolarizedLight = ''Solarized Light''"
| "theme_name SolarizedDark = ''Solarized Dark''"
| "theme_name GruvboxLight = ''Gruvbox Light''"
| "theme_name GruvboxDark = ''Gruvbox Dark''"
| "theme_name CatppuccinLatte = ''Catppuccin Latte''"
| "theme_name CatppuccinFrappe = ''Catppuccin Frappe''"
| "theme_name CatppuccinMacchiato = ''Catppuccin Macchiato''"
| "theme_name CatppuccinMocha = ''Catppuccin Mocha''"
| "theme_name TokyoNight = ''Tokyo Night''"
| "theme_name TokyoNightStorm = ''Tokyo Night Storm''"
| "theme_name TokyoNightLight = ''Tokyo Night Light''"
| "theme_name KanagawaWave = ''Kanagawa Wave''"
| "theme_name KanagawaDragon = ''Kanagawa Dragon''"
| "theme_name KanagawaLotus = ''Kanagawa Lotus''"
| "theme_name Moonfly = ''Moonfly''"
| "theme_name Nightfly = ''Nightfly''"
| "theme_name Oxocarbon = ''Oxocarbon''"
| "theme_name Ferra = ''Ferra''"
| "theme_name DefenderExplorer = ''Defender Explorer''"

definition default_theme :: app_theme where "default_theme = DefenderExplorer"

subsection \<open>State and messages\<close>

definition MAX_DETECTIONS :: nat where "MAX_DETECTIONS = 1000"
definition FILE_CONTEXT_SNAPSHOT_LIMIT :: nat where "FILE_CONTEXT_SNAPSHOT_LIMIT = 500"

datatype view_mode = Detections | FileContexts

datatype ipc_client_message = Connected | Disconnected | Message ipc_message

text \<open>\<open>gui_inbox\<close> is what the channel of \<open>ipc_client\<close> holds, the oldest message first.\<close>

record galatea_gui =
  gui_inbox :: "ipc_client_message list"
  gui_connected :: bool
  gui_detections :: "detection_event list"
  gui_pending_detections :: "detection_event list"
  gui_selected_detection :: "nat option"
  gui_expanded_events :: "string set"
  gui_filter_text :: string
  gui_current_theme :: app_theme
  gui_paused :: bool
  gui_view_mode :: view_mode
  gui_file_contexts :: "file_context_snapshot list"
  gui_file_context_status :: "string option"
  gui_loading_file_contexts :: bool

definition default_gui :: galatea_gui where
  "default_gui = \<lparr>gui_inbox = [], gui_connected = False, gui_detections = [],
     gui_pending_detections = [], gui_selected_detection = None, gui_expanded_events = {},
     gui_filter_text = [], gui_current_theme = default_theme, gui_paused = False,
     gui_view_mode = Detections, gui_file_contexts = [], gui_file_context_status = None,
     gui_loading_file_contexts = False\<rparr>"

datatype gui_message =
    IpcEvent ipc_client_message
  | FilterChanged string
  | DetectionSelected nat
  | ToggleExpanded string
  | ThemeChanged
  | TogglePause
  | ViewModeChanged view_mode
  | RefreshFileContexts
  | FileContextsLoaded "string + file_context_snapshot list"
  | Tick

text \<open>The task that \<open>update\<close> returns: none, or a snapshot request with a limit.\<close>

datatype gui_task = No_Task | Request_Snapshot nat

subsection \<open>Update\<close>

text \<open>\<open>push_front\<close>, then \<open>pop_back\<close> when the list is too long.\<close>

definition push_detection :: "'a \<Rightarrow> 'a list \<Rightarrow> 'a list" where
  "push_detection d ds =
     (let ds' = d # ds in if MAX_DETECTIONS < length ds' then butlast ds' else ds')"

text \<open>Unpausing: the pending detections are taken from the end and put in front, then the list is cut.\<close>

function drain_pending :: "'a list \<Rightarrow> 'a list \<Rightarrow> 'a list" where
  "drain_pending pending ds =
     (if pending = [] then ds else drain_pending (butlast pending) (last pending # ds))"
  by pat_completeness auto
termination by (relation "measure (length \<circ> fst)") auto

function trim_detections :: "'a list \<Rightarrow> 'a list" where
  "trim_detections ds = (if MAX_DETECTIONS < length ds then trim_detections (butlast ds) else ds)"
  by pat_completeness auto
termination by (relation "measure length") auto

declare drain_pending.simps [simp del] trim_detections.simps [simp del]

definition refresh_file_contexts :: "galatea_gui \<Rightarrow> galatea_gui \<times> gui_task" where
  "refresh_file_contexts g =
     (if gui_loading_file_contexts g then (g, No_Task)
      else (g\<lparr>gui_loading_file_contexts := True,
              gui_file_context_status := Some ''Refreshing file context cache...''\<rparr>,
            Request_Snapshot FILE_CONTEXT_SNAPSHOT_LIMIT))"

fun ipc_event :: "ipc_client_message \<Rightarrow> galatea_gui \<Rightarrow> galatea_gui" where
  "ipc_event Connected g = g\<lparr>gui_connected := True\<rparr>"
| "ipc_event Disconnected g = g\<lparr>gui_connected := False\<rparr>"
| "ipc_event (Message (Detection d)) g =
     (if gui_paused g
      then g\<lparr>gui_pending_detections := push_detection d (gui_pending_detections g)\<rparr>
      else g\<lparr>gui_detections := push_detection d (gui_detections g)\<rparr>)"
| "ipc_event (Message (StatusUpdate _)) g = g"
| "ipc_event (Message (ConfigUpdate _)) g = g"

definition toggle_expanded :: "string \<Rightarrow> galatea_gui \<Rightarrow> galatea_gui" where
  "toggle_expanded event_id g =
     (if event_id \<in> gui_expanded_events g
      then g\<lparr>gui_expanded_events := gui_expanded_events g - {event_id}\<rparr>
      else
        (let g' = g\<lparr>gui_expanded_events := insert event_id (gui_expanded_events g)\<rparr> in
         if gui_view_mode g' = Detections \<and> \<not> gui_paused g' then g'\<lparr>gui_paused := True\<rparr> else g'))"

definition toggle_pause :: "galatea_gui \<Rightarrow> galatea_gui" where
  "toggle_pause g =
     (let g' = g\<lparr>gui_paused := \<not> gui_paused g\<rparr> in
      if \<not> gui_paused g' then
        g'\<lparr>gui_detections := trim_detections (drain_pending (gui_pending_detections g') (gui_detections g')),
           gui_pending_detections := []\<rparr>
      else g')"

fun gui_update :: "gui_message \<Rightarrow> galatea_gui \<Rightarrow> galatea_gui \<times> gui_task" where
  "gui_update (IpcEvent event) g = (ipc_event event g, No_Task)"
| "gui_update (FilterChanged text) g = (g\<lparr>gui_filter_text := text\<rparr>, No_Task)"
| "gui_update (DetectionSelected index) g = (g\<lparr>gui_selected_detection := Some index\<rparr>, No_Task)"
| "gui_update (ToggleExpanded event_id) g = (toggle_expanded event_id g, No_Task)"
| "gui_update ThemeChanged g = (g\<lparr>gui_current_theme := theme_next (gui_current_theme g)\<rparr>, No_Task)"
| "gui_update TogglePause g = (toggle_pause g, No_Task)"
| "gui_update (ViewModeChanged mode) g =
     (let g' = g\<lparr>gui_view_mode := mode, gui_filter_text := []\<rparr> in
      if mode = FileContexts \<and> gui_file_contexts g' = [] then refresh_file_contexts g' else (g', No_Task))"
| "gui_update RefreshFileContexts g = refresh_file_contexts g"
| "gui_update (FileContextsLoaded result) g =
     (let g' = g\<lparr>gui_loading_file_contexts := False\<rparr> in
      case result of
        Inr entries \<Rightarrow>
          (g'\<lparr>gui_file_contexts := entries,
              gui_file_context_status := Some (show_nat (length entries) @ '' cached files'')\<rparr>, No_Task)
      | Inl e \<Rightarrow> (g'\<lparr>gui_file_context_status := Some e\<rparr>, No_Task))"
| "gui_update Tick g =
     (case gui_inbox g of
        [] \<Rightarrow> (g, No_Task)
      | event # rest \<Rightarrow> (ipc_event event (g\<lparr>gui_inbox := rest\<rparr>), No_Task))"

text \<open>
  A run of the client: the thread of \<open>ipc_client\<close> puts a message into the channel, or the runtime hands a
  message to \<open>update\<close>. Only the ticks take messages from the channel, and nothing else makes an
  \<open>IpcEvent\<close>.
\<close>

datatype gui_action = Arrives ipc_client_message | Handles gui_message

fun gui_step :: "gui_action \<Rightarrow> galatea_gui \<Rightarrow> galatea_gui" where
  "gui_step (Arrives m) g = g\<lparr>gui_inbox := gui_inbox g @ [m]\<rparr>"
| "gui_step (Handles m) g = fst (gui_update m g)"

definition gui_run :: "gui_action list \<Rightarrow> galatea_gui \<Rightarrow> galatea_gui" where
  "gui_run steps g = fold gui_step steps g"

subsection \<open>The lists of detections\<close>

lemma push_detection_take: "length ds \<le> MAX_DETECTIONS \<Longrightarrow> push_detection d ds = take MAX_DETECTIONS (d # ds)"
  by (cases "length ds = MAX_DETECTIONS") (auto simp: push_detection_def Let_def butlast_conv_take)

lemma drain_pending_append: "drain_pending pending ds = pending @ ds"
proof (induction pending ds rule: drain_pending.induct)
  case (1 pending ds)
  then show ?case
    by (subst drain_pending.simps) (metis append.assoc append_Cons append_Nil append_butlast_last_id)
qed

lemma trim_detections_take: "trim_detections ds = take MAX_DETECTIONS ds"
proof (induction ds rule: trim_detections.induct)
  case (1 ds)
  then show ?case
    by (subst trim_detections.simps) (auto simp: butlast_conv_take min_def)
qed

lemmas detection_lists = push_detection_take drain_pending_append trim_detections_take

subsection \<open>The feed\<close>

text \<open>
  What a user is owed: the last thousand detections, the newest first. The state shows it as the
  pending detections before the visible ones; pausing and unpausing only move the border.
\<close>

fun detections_in :: "ipc_client_message list \<Rightarrow> detection_event list" where
  "detections_in [] = []"
| "detections_in (Message (Detection d) # ms) = d # detections_in ms"
| "detections_in (_ # ms) = detections_in ms"

fun arrivals :: "gui_action list \<Rightarrow> ipc_client_message list" where
  "arrivals [] = []"
| "arrivals (Arrives m # steps) = m # arrivals steps"
| "arrivals (Handles _ # steps) = arrivals steps"

definition feed :: "galatea_gui \<Rightarrow> detection_event list" where
  "feed g = take MAX_DETECTIONS (gui_pending_detections g @ gui_detections g)"

definition gui_wf :: "galatea_gui \<Rightarrow> bool" where
  "gui_wf g \<longleftrightarrow> (gui_paused g \<or> gui_pending_detections g = [])
     \<and> length (gui_detections g) \<le> MAX_DETECTIONS \<and> length (gui_pending_detections g) \<le> MAX_DETECTIONS"

lemma detections_in_append: "detections_in (ms @ ms') = detections_in ms @ detections_in ms'"
  by (induction ms rule: detections_in.induct) auto

lemma arrivals_append: "arrivals (s @ s') = arrivals s @ arrivals s'"
  by (induction s rule: arrivals.induct) auto

lemma feed_default: "feed default_gui = [] \<and> gui_wf default_gui \<and> gui_inbox default_gui = []"
  by (simp add: feed_def gui_wf_def default_gui_def)

lemma take_take_append: "take n (take n xs @ ys) = take n (xs @ ys)"
  by (cases "length xs \<le> n") simp_all

lemma take_append_take: "take n (xs @ take n ys) = take n (xs @ ys)"
  by (cases "length xs \<le> n") (simp_all add: min_absorb1)

lemma take_push: "take n (take n (x # xs) @ ys) = take n (x # take n (xs @ ys))"
  using take_take_append [of n "x # xs" ys] take_append_take [of n "[x]" "xs @ ys"] by simp

lemma ipc_event_feed:
  assumes "gui_wf g"
  shows "gui_wf (ipc_event m g)" and "gui_inbox (ipc_event m g) = gui_inbox g"
    and "feed (ipc_event m g) = take MAX_DETECTIONS (rev (detections_in [m]) @ feed g)"
proof -
  show "gui_wf (ipc_event m g)" "gui_inbox (ipc_event m g) = gui_inbox g"
    using assms by (cases "(m, g)" rule: ipc_event.cases; auto simp: gui_wf_def push_detection_take)+
  show "feed (ipc_event m g) = take MAX_DETECTIONS (rev (detections_in [m]) @ feed g)"
    using assms
    by (cases "(m, g)" rule: ipc_event.cases)
      (auto simp: gui_wf_def feed_def push_detection_take take_push take_push [of _ _ "[]", unfolded append_Nil]
        simp del: take_append)
qed

text \<open>Every message but an event of the channel leaves the feed and the channel alone.\<close>

lemma gui_update_feed:
  assumes "gui_wf g" and "\<And>e. m \<noteq> IpcEvent e" and "m \<noteq> Tick"
  shows "gui_wf (fst (gui_update m g)) \<and> gui_inbox (fst (gui_update m g)) = gui_inbox g
     \<and> feed (fst (gui_update m g)) = feed g"
  using assms
  by (cases "(m, g)" rule: gui_update.cases)
    (auto simp: gui_wf_def feed_def toggle_pause_def toggle_expanded_def refresh_file_contexts_def
      detection_lists Let_def split: sum.splits)

lemma gui_step_feed:
  assumes "gui_wf g" and "\<And>e. a \<noteq> Handles (IpcEvent e)"
    and "arr = taken @ gui_inbox g" and "feed g = take MAX_DETECTIONS (rev (detections_in taken))"
  shows "gui_wf (gui_step a g) \<and> (\<exists>taken'. arr @ arrivals [a] = taken' @ gui_inbox (gui_step a g)
     \<and> feed (gui_step a g) = take MAX_DETECTIONS (rev (detections_in taken')))"
proof (cases a)
  case (Arrives m)
  then show ?thesis using assms by (auto simp: gui_wf_def feed_def)
next
  case (Handles m)
  show ?thesis
  proof (cases "m = Tick")
    case False
    then show ?thesis using gui_update_feed [OF assms(1), of m] assms Handles by auto
  next
    case tick: True
    show ?thesis
    proof (cases "gui_inbox g")
      case Nil
      then show ?thesis using assms Handles tick by auto
    next
      case (Cons e rest)
      let ?g = "g\<lparr>gui_inbox := rest\<rparr>"
      have "gui_wf ?g" "feed ?g = feed g" using assms(1) by (simp_all add: gui_wf_def feed_def)
      moreover from this have "feed (ipc_event e ?g) = take MAX_DETECTIONS (rev (detections_in (taken @ [e])))"
        using ipc_event_feed(3) [of ?g e] assms(4)
        by (simp add: detections_in_append take_append_take del: take_append)
      ultimately show ?thesis using ipc_event_feed(1,2) [of ?g e] assms Handles tick Cons
        by (intro conjI exI [of _ "taken @ [e]"]) simp_all
    qed
  qed
qed

lemma gui_run_feed:
  assumes "\<And>e. Handles (IpcEvent e) \<notin> set steps"
  shows "gui_wf (gui_run steps default_gui) \<and> (\<exists>taken. arrivals steps = taken @ gui_inbox (gui_run steps default_gui)
     \<and> feed (gui_run steps default_gui) = take MAX_DETECTIONS (rev (detections_in taken)))"
  using assms
proof (induction steps rule: rev_induct)
  case Nil
  then show ?case using feed_default by (simp add: gui_run_def)
next
  case (snoc a steps)
  then obtain taken where "gui_wf (gui_run steps default_gui)"
      "arrivals steps = taken @ gui_inbox (gui_run steps default_gui)"
      "feed (gui_run steps default_gui) = take MAX_DETECTIONS (rev (detections_in taken))" by auto
  moreover have "\<And>e. a \<noteq> Handles (IpcEvent e)" using snoc.prems by auto
  ultimately show ?case using gui_step_feed [of "gui_run steps default_gui" a "arrivals steps" taken]
    by (auto simp: gui_run_def arrivals_append)
qed

subsection \<open>Themes\<close>

text \<open>The themes form one cycle of 23, so every theme is reached from every other.\<close>

lemma theme_cycle: "(theme_next ^^ 23) t = t"
  by (cases t) (simp_all add: eval_nat_numeral)

lemma theme_reached: "\<exists>n. (theme_next ^^ n) default_theme = t"
proof -
  have "t \<in> set (map (\<lambda>n. (theme_next ^^ n) default_theme) [0..<23])"
    by (cases t) (simp_all add: upt_rec default_theme_def numeral_eq_Suc)
  then show ?thesis by auto
qed

lemma inj_theme_next: "inj theme_next"
proof (rule inj_on_inverseI)
  fix t :: app_theme
  show "(theme_next ^^ 22) (theme_next t) = t"
    using theme_cycle [of t] by (simp add: funpow_swap1 eval_nat_numeral)
qed

subsection \<open>Properties\<close>

text \<open>
  C38. Pausing loses nothing: whatever the user clicks and whenever the client is paused (by the button or
  by opening an event), the pending detections before the visible ones are the last thousand detections
  that were taken from the channel, the newest first; what was taken is the part of the arrivals that is
  no longer in the channel. Unpaused, nothing is pending, so the user sees all of it, and no list
  exceeds a thousand.
\<close>

theorem pause_is_transparent:
  assumes "\<And>e. Handles (IpcEvent e) \<notin> set steps"
  shows "let g = gui_run steps default_gui in \<exists>taken. arrivals steps = taken @ gui_inbox g
     \<and> take MAX_DETECTIONS (gui_pending_detections g @ gui_detections g)
         = take MAX_DETECTIONS (rev (detections_in taken))
     \<and> (gui_paused g \<or> gui_pending_detections g = [])
     \<and> length (gui_detections g) \<le> MAX_DETECTIONS \<and> length (gui_pending_detections g) \<le> MAX_DETECTIONS"
  using gui_run_feed [OF assms(1)] by (auto simp: feed_def gui_wf_def Let_def)

theorem pause_is_transparent_witness:
  "let d = \<lparr>de_event_id = ''a'', de_timestamp = 0,
        de_process_info = \<lparr>pi_pid = 4, pi_name = ''p'', pi_path = ''C'', pi_parent_pid = None,
          pi_command_line = None, pi_creation_time = None\<rparr>,
        de_detection = \<lparr>dd_threat_score = 90, dd_md5_hash = None, dd_signature_match = None,
          dd_authenticode = None, dd_heuristics = None, dd_ml_prediction = None\<rparr>,
        de_verdict = Blocked\<rparr>;
       e = d\<lparr>de_event_id := ''b''\<rparr>;
       g = gui_run [Arrives (Message (Detection d)), Handles Tick, Handles (ToggleExpanded ''a''),
         Arrives (Message (Detection e)), Handles Tick, Arrives Disconnected, Handles TogglePause] default_gui in
   gui_inbox g = [Disconnected] \<and> gui_detections g = [e, d] \<and> \<not> gui_paused g
   \<and> (\<exists>taken. [Message (Detection d), Message (Detection e), Disconnected] = taken @ gui_inbox g
       \<and> take MAX_DETECTIONS (gui_pending_detections g @ gui_detections g)
           = take MAX_DETECTIONS (rev (detections_in taken))
       \<and> (gui_paused g \<or> gui_pending_detections g = [])
       \<and> length (gui_detections g) \<le> MAX_DETECTIONS \<and> length (gui_pending_detections g) \<le> MAX_DETECTIONS)"
proof -
  have run: "let g = gui_run [Arrives (Message (Detection d)), Handles Tick, Handles (ToggleExpanded ''a''),
      Arrives (Message (Detection e)), Handles Tick, Arrives Disconnected, Handles TogglePause] default_gui in
    gui_inbox g = [Disconnected] \<and> gui_detections g = [e, d] \<and> \<not> gui_paused g" for d e
    by (simp add: gui_run_def default_gui_def toggle_expanded_def toggle_pause_def push_detection_def
        detection_lists Let_def MAX_DETECTIONS_def)
  show ?thesis
    using run pause_is_transparent [of "[Arrives (Message (Detection d)), Handles Tick,
        Handles (ToggleExpanded ''a''), Arrives (Message (Detection e)), Handles Tick, Arrives Disconnected,
        Handles TogglePause]" for d e]
    by (simp only: Let_def arrivals.simps list.set) blast
qed

subsection \<open>An open event stays in its place\<close>

lemma paused_step:
  assumes "gui_paused g" "a \<noteq> Handles TogglePause"
  shows "gui_paused (gui_step a g) \<and> gui_detections (gui_step a g) = gui_detections g"
proof -
  have "gui_paused (ipc_event e g') = gui_paused g' \<and> gui_detections (ipc_event e g') = gui_detections g'"
    if "gui_paused g'" for e g'
    using that by (cases "(e, g')" rule: ipc_event.cases) auto
  with assms show ?thesis
    by (cases "(a, g)" rule: gui_step.cases; cases "(case a of Handles m \<Rightarrow> m | _ \<Rightarrow> Tick, g)" rule: gui_update.cases)
      (auto simp: toggle_expanded_def refresh_file_contexts_def Let_def split: sum.splits list.splits)
qed

lemma paused_run:
  assumes "gui_paused g" "Handles TogglePause \<notin> set steps"
  shows "gui_paused (gui_run steps g) \<and> gui_detections (gui_run steps g) = gui_detections g"
  using assms
proof (induction steps arbitrary: g)
  case Nil
  then show ?case by (simp add: gui_run_def)
next
  case (Cons a steps)
  then show ?case using paused_step [of g a] Cons.IH [of "gui_step a g"] by (auto simp: gui_run_def)
qed

text \<open>
  The event a user has opened does not move away: after an event was opened in the list of detections,
  the list does not change, whatever arrives and whatever else is clicked, until the user resumes.
\<close>

theorem opened_event_stays:
  assumes "gui_view_mode g = Detections" and "event_id \<notin> gui_expanded_events g"
    and "Handles TogglePause \<notin> set steps"
  shows "gui_detections (gui_run (Handles (ToggleExpanded event_id) # steps) g) = gui_detections g"
proof -
  let ?g = "gui_step (Handles (ToggleExpanded event_id)) g"
  have "gui_paused ?g" "gui_detections ?g = gui_detections g"
    using assms(1,2) by (simp_all add: toggle_expanded_def Let_def)
  then show ?thesis using paused_run [of ?g steps] assms(3) by (simp add: gui_run_def)
qed

theorem opened_event_stays_witness:
  "gui_detections (gui_run [Handles (ToggleExpanded ''a''), Arrives Connected, Handles Tick, Handles ThemeChanged]
     default_gui) = gui_detections default_gui"
  by (rule opened_event_stays) (simp_all add: default_gui_def)

end
