(* ===== verification/Ipc_Service.thy ===== *)
theory Ipc_Service
  imports Ipc_Pipes Client_App
begin

text \<open>
  How the pipes are opened, served and left: the pipe instances and the accepting loop of
  \<open>ipc_server.rs\<close>, and the connecting, reading and requesting side of \<open>ipc_client.rs\<close>, up to what the user of
  the client sees.
\<close>

subsection \<open>Pipe instances of the agent\<close>

definition PIPE_ACCESS_OUTBOUND :: u32 where "PIPE_ACCESS_OUTBOUND = 2"
definition PIPE_ACCESS_DUPLEX :: u32 where "PIPE_ACCESS_DUPLEX = 3"
definition PIPE_TYPE_MESSAGE :: u32 where "PIPE_TYPE_MESSAGE = 4"
definition PIPE_READMODE_MESSAGE :: u32 where "PIPE_READMODE_MESSAGE = 2"
definition PIPE_WAIT :: u32 where "PIPE_WAIT = 0"
definition PIPE_UNLIMITED_INSTANCES :: u32 where "PIPE_UNLIMITED_INSTANCES = 255"

text \<open>What \<open>CreateNamedPipeW\<close> is asked for.\<close>

record pipe_spec =
  sp_name :: string
  sp_access :: u32
  sp_mode :: u32
  sp_instances :: u32
  sp_buffer :: nat
  sp_sddl :: string

definition event_pipe_spec :: pipe_spec where
  "event_pipe_spec = \<lparr>sp_name = PIPE_NAME, sp_access = PIPE_ACCESS_OUTBOUND,
     sp_mode = PIPE_TYPE_MESSAGE OR PIPE_READMODE_MESSAGE OR PIPE_WAIT,
     sp_instances = PIPE_UNLIMITED_INSTANCES, sp_buffer = PIPE_BUFFER_SIZE,
     sp_sddl = ''D:P(A;;GA;;;SY)(A;;GA;;;BA)(A;;GR;;;IU)''\<rparr>"

definition command_pipe_spec :: pipe_spec where
  "command_pipe_spec = \<lparr>sp_name = COMMAND_PIPE_NAME, sp_access = PIPE_ACCESS_DUPLEX,
     sp_mode = PIPE_TYPE_MESSAGE OR PIPE_READMODE_MESSAGE OR PIPE_WAIT,
     sp_instances = PIPE_UNLIMITED_INSTANCES, sp_buffer = PIPE_BUFFER_SIZE,
     sp_sddl = ''D:P(A;;GA;;;SY)(A;;GA;;;BA)(A;;GRGW;;;IU)''\<rparr>"

text \<open>
  Making an instance allocates a security descriptor and frees it again. \<open>converts\<close> says whether the
  descriptor could be built, \<open>made\<close> is the handle of the new instance, if it is valid.
\<close>

datatype pipe_effect = Descriptor_Allocated string | Pipe_Created pipe_spec nat | Descriptor_Freed

definition create_instance :: "pipe_spec \<Rightarrow> bool \<Rightarrow> nat option \<Rightarrow> pipe_effect list \<times> nat option" where
  "create_instance spec converts made =
     (if \<not> converts then ([], None)
      else ([Descriptor_Allocated (sp_sddl spec)]
              @ (case made of None \<Rightarrow> [] | Some handle \<Rightarrow> [Pipe_Created spec handle]) @ [Descriptor_Freed], made))"

definition create_pipe_instance :: "bool \<Rightarrow> nat option \<Rightarrow> pipe_effect list \<times> nat option" where
  "create_pipe_instance = create_instance event_pipe_spec"

definition create_command_pipe_instance :: "bool \<Rightarrow> nat option \<Rightarrow> pipe_effect list \<times> nat option" where
  "create_command_pipe_instance = create_instance command_pipe_spec"

subsection \<open>Accepting clients\<close>

text \<open>
  A turn of the loop: the instance that was made, what \<open>ConnectNamedPipe\<close> gave (\<open>None\<close>, success), and
  whether the main loop still takes clients. The flag of the result says that the loop has ended.
\<close>

datatype accept_effect = Sent_Client nat | Closed_Pipe nat | Slept

fun accept_clients_loop :: "(nat option \<times> u32 option \<times> bool) list \<Rightarrow> accept_effect list \<times> bool" where
  "accept_clients_loop [] = ([], False)"
| "accept_clients_loop ((instance, connect, taken) # turns) =
     (case instance of
        None \<Rightarrow> apfst ((#) Slept) (accept_clients_loop turns)
      | Some pipe_handle \<Rightarrow>
          if client_connected connect then
            (if taken then apfst ((#) (Sent_Client pipe_handle)) (accept_clients_loop turns)
             else ([Closed_Pipe pipe_handle], True))
          else apfst (\<lambda>es. Closed_Pipe pipe_handle # Slept # es) (accept_clients_loop turns))"

subsection \<open>Connecting\<close>

definition ERROR_PIPE_BUSY :: u32 where "ERROR_PIPE_BUSY = 231"

text \<open>
  \<open>opens\<close> is \<open>CreateFileW\<close> on the pipe's name, \<open>waits\<close> is \<open>WaitNamedPipeW\<close>; both work on the state of the
  system. Opening again after a wait has no bound, so the function may not return: \<open>None\<close>.
\<close>

partial_function (option) connect_pipe ::
  "('w \<Rightarrow> 'w \<times> (u32 + nat)) \<Rightarrow> ('w \<Rightarrow> 'w \<times> bool) \<Rightarrow> 'w \<Rightarrow> ('w \<times> nat option) option" where
  "connect_pipe opens waits w =
     (let (w1, r) = opens w in
      case r of
        Inr handle \<Rightarrow> Some (w1, Some handle)
      | Inl e \<Rightarrow>
          if win32_error_code e = ERROR_PIPE_BUSY then
            (let (w2, available) = waits w1 in
             if available then connect_pipe opens waits w2 else Some (w2, None))
          else Some (w1, None))"

text \<open>The two pipes: the names and the access that is asked for.\<close>

definition FILE_GENERIC_READ :: u32 where "FILE_GENERIC_READ = 0x120089"
definition FILE_GENERIC_WRITE :: u32 where "FILE_GENERIC_WRITE = 0x120116"

definition connect_to_pipe ::
  "(string \<Rightarrow> u32 \<Rightarrow> 'w \<Rightarrow> 'w \<times> (u32 + nat)) \<Rightarrow> (string \<Rightarrow> 'w \<Rightarrow> 'w \<times> bool) \<Rightarrow> 'w \<Rightarrow> ('w \<times> nat option) option" where
  "connect_to_pipe create_file wait_named_pipe =
     connect_pipe (create_file PIPE_NAME FILE_GENERIC_READ) (wait_named_pipe PIPE_NAME)"

definition connect_to_command_pipe ::
  "(string \<Rightarrow> u32 \<Rightarrow> 'w \<Rightarrow> 'w \<times> (u32 + nat)) \<Rightarrow> (string \<Rightarrow> 'w \<Rightarrow> 'w \<times> bool) \<Rightarrow> 'w \<Rightarrow> ('w \<times> nat option) option" where
  "connect_to_command_pipe create_file wait_named_pipe =
     connect_pipe (create_file COMMAND_PIPE_NAME (FILE_GENERIC_READ OR FILE_GENERIC_WRITE))
       (wait_named_pipe COMMAND_PIPE_NAME)"

subsection \<open>The event thread of the client\<close>

text \<open>How the reads of a session end: with an error of the pipe, because nobody takes the messages, or not yet.\<close>

datatype session_end = Still_Reading | Pipe_Ended | Channel_Closed

fun read_messages_end :: "(u8 list \<Rightarrow> string + 'm) \<Rightarrow> (u8 list option \<times> bool) list \<Rightarrow> session_end" where
  "read_messages_end parse [] = Still_Reading"
| "read_messages_end parse ((None, _) # turns) = Pipe_Ended"
| "read_messages_end parse ((Some data, taken) # turns) =
     (if data = [] then read_messages_end parse turns
      else case parse data of
        Inl e \<Rightarrow> read_messages_end parse turns
      | Inr message \<Rightarrow> if taken then read_messages_end parse turns else Channel_Closed)"

text \<open>
  The messages that arrive at the program. A turn is a failed attempt to connect (\<open>None\<close>; it sleeps) or the
  reads of a session. Once the program has dropped its end of the channel nothing arrives any more.
\<close>

fun run_ipc_client :: "(u8 list \<Rightarrow> string + ipc_message) \<Rightarrow> (u8 list option \<times> bool) list option list \<Rightarrow> ipc_client_message list" where
  "run_ipc_client parse [] = []"
| "run_ipc_client parse (None # turns) = run_ipc_client parse turns"
| "run_ipc_client parse (Some reads # turns) =
     Connected # map Message (read_messages parse reads)
       @ (case read_messages_end parse reads of
            Pipe_Ended \<Rightarrow> Disconnected # run_ipc_client parse turns
          | Still_Reading \<Rightarrow> []
          | Channel_Closed \<Rightarrow> [])"

subsection \<open>Requesting a snapshot\<close>

text \<open>The first write of the request is not checked for its length.\<close>

definition request_file_context_snapshot_inner ::
  "(u8 list \<Rightarrow> 'p \<Rightarrow> (nat \<times> 'p) option) \<Rightarrow> (nat \<Rightarrow> 'p \<Rightarrow> (u8 list \<times> 'p) option)
     \<Rightarrow> (ipc_request \<Rightarrow> string + u8 list) \<Rightarrow> (u8 list \<Rightarrow> string + ipc_response)
     \<Rightarrow> nat \<Rightarrow> 'p \<Rightarrow> (request_error + file_context_snapshot list) \<times> 'p" where
  "request_file_context_snapshot_inner wr rd print_request parse_response limit p =
     (case print_request (GetFileContextSnapshot limit) of
        Inl e \<Rightarrow> (Inl (Serialize_Failed e), p)
      | Inr request_json \<Rightarrow>
          (case wr request_json p of
             None \<Rightarrow> (Inl Write_Failed, p)
           | Some (bytes_written, p1) \<Rightarrow>
               (let (r, p2) = read_command_response rd p1 in (snapshot_of_response parse_response r, p2))))"

datatype snapshot_error = Not_Connected | Request_Failed request_error

text \<open>\<open>opened\<close> is the pipe that \<open>connect_to_command_pipe\<close> opened; the last component says how often a handle was closed.\<close>

definition request_file_context_snapshot ::
  "('p \<Rightarrow> (request_error + file_context_snapshot list) \<times> 'p) \<Rightarrow> 'p option
     \<Rightarrow> (snapshot_error + file_context_snapshot list) \<times> nat" where
  "request_file_context_snapshot inner opened =
     (case opened of
        None \<Rightarrow> (Inl Not_Connected, 0)
      | Some pipe_handle \<Rightarrow> (map_sum Request_Failed id (fst (inner pipe_handle)), 1))"

subsection \<open>Lemmas\<close>

text \<open>The state in which the pipe is opened again, if it is.\<close>

definition retry_state :: "('w \<Rightarrow> 'w \<times> (u32 + nat)) \<Rightarrow> ('w \<Rightarrow> 'w \<times> bool) \<Rightarrow> 'w \<Rightarrow> 'w option" where
  "retry_state opens waits w =
     (case snd (opens w) of
        Inr _ \<Rightarrow> None
      | Inl e \<Rightarrow> if win32_error_code e = ERROR_PIPE_BUSY \<and> snd (waits (fst (opens w)))
                then Some (fst (waits (fst (opens w)))) else None)"

text \<open>The state of the attempt after \<open>n\<close> retries, \<open>None\<close> when there are fewer.\<close>

fun attempt :: "('w \<Rightarrow> 'w \<times> (u32 + nat)) \<Rightarrow> ('w \<Rightarrow> 'w \<times> bool) \<Rightarrow> nat \<Rightarrow> 'w \<Rightarrow> 'w option" where
  "attempt opens waits 0 w = Some w"
| "attempt opens waits (Suc n) w =
     (case retry_state opens waits w of None \<Rightarrow> None | Some w' \<Rightarrow> attempt opens waits n w')"

lemma connect_pipe_retry:
  "retry_state opens waits w = Some w' \<Longrightarrow> connect_pipe opens waits w = connect_pipe opens waits w'"
  by (subst connect_pipe.simps) (auto simp: retry_state_def Let_def case_prod_beta split: sum.splits if_splits)

lemma connect_pipe_last:
  "retry_state opens waits w = None \<Longrightarrow> \<exists>r. connect_pipe opens waits w = Some r"
  by (subst connect_pipe.simps) (auto simp: retry_state_def Let_def case_prod_beta split: sum.splits if_splits)

lemma connect_pipe_enough:
  "attempt opens waits n w = None \<Longrightarrow> \<exists>r. connect_pipe opens waits w = Some r"
proof (induction n arbitrary: w)
  case (Suc n)
  show ?case
  proof (cases "retry_state opens waits w")
    case None
    then show ?thesis by (rule connect_pipe_last)
  next
    case (Some w')
    with Suc.prems Suc.IH [of w'] show ?thesis by (simp add: connect_pipe_retry [OF Some])
  qed
qed simp

lemma connect_pipe_returned:
  assumes "connect_pipe opens waits w = Some r"
  shows "\<exists>n. attempt opens waits n w = None"
proof (rule connect_pipe.raw_induct [where P = "\<lambda>opens waits w r. \<exists>n. attempt opens waits n w = None", OF _ assms])
  fix f :: "('w \<Rightarrow> 'w \<times> (u32 + nat)) \<Rightarrow> ('w \<Rightarrow> 'w \<times> bool) \<Rightarrow> 'w \<Rightarrow> ('w \<times> nat option) option"
    and opens :: "'w \<Rightarrow> 'w \<times> (u32 + nat)" and waits w r
  assume IH: "\<And>opens waits w r. f opens waits w = Some r \<Longrightarrow> \<exists>n. attempt opens waits n w = None"
    and eq: "(let (w1, r) = opens w in
      case r of
        Inr handle \<Rightarrow> Some (w1, Some handle)
      | Inl e \<Rightarrow>
          if win32_error_code e = ERROR_PIPE_BUSY then
            (let (w2, available) = waits w1 in
             if available then f opens waits w2 else Some (w2, None))
          else Some (w1, None)) = Some r"
  show "\<exists>n. attempt opens waits n w = None"
  proof (cases "retry_state opens waits w")
    case None
    then show ?thesis by (intro exI [of _ 1]) simp
  next
    case (Some w')
    then have "f opens waits w' = Some r"
      using eq by (auto simp: retry_state_def Let_def case_prod_beta split: sum.splits if_splits)
    from IH [OF this] obtain n where "attempt opens waits n w' = None" ..
    with Some show ?thesis by (intro exI [of _ "Suc n"]) simp
  qed
qed

subsection \<open>Every instance has one owner\<close>

text \<open>The instances of the turns until the loop ends, and where they went.\<close>

definition made_instances :: "(nat option \<times> u32 option \<times> bool) list \<Rightarrow> nat list" where
  "made_instances turns = List.map_filter fst turns"

fun sent_clients :: "accept_effect list \<Rightarrow> nat list" where
  "sent_clients [] = []"
| "sent_clients (Sent_Client h # es) = h # sent_clients es"
| "sent_clients (_ # es) = sent_clients es"

fun closed_pipes :: "accept_effect list \<Rightarrow> nat list" where
  "closed_pipes [] = []"
| "closed_pipes (Closed_Pipe h # es) = h # closed_pipes es"
| "closed_pipes (_ # es) = closed_pipes es"

lemma accepted_instances:
  "\<forall>t \<in> set turns. snd (snd t) \<Longrightarrow>
     mset (made_instances turns) = mset (sent_clients (fst (accept_clients_loop turns)))
       + mset (closed_pipes (fst (accept_clients_loop turns)))"
proof (induction turns)
  case Nil
  then show ?case by (simp add: made_instances_def map_filter_simps)
next
  case (Cons turn turns)
  obtain inst con taken where turn: "turn = (inst, con, taken)" by (cases turn) auto
  have taken using Cons.prems by (simp add: turn)
  moreover have "mset (made_instances turns) = mset (sent_clients (fst (accept_clients_loop turns)))
       + mset (closed_pipes (fst (accept_clients_loop turns)))"
    by (rule Cons.IH) (use Cons.prems in auto)
  ultimately show ?case
    by (simp add: turn made_instances_def map_filter_simps apfst_def map_prod_def case_prod_beta split: option.split)
qed

lemma broadcast_conserves:
  "mset (fst (broadcast_message wr json clients)) + mset (snd (broadcast_message wr json clients)) = mset clients"
  by (simp add: broadcast_message_def remove_gone mset_filter multiset_partition [symmetric] split: option.split)

lemma server_conserves:
  "\<forall>t \<in> set turns. fst (snd t) \<noteq> Recv_Disconnected \<Longrightarrow>
     mset (fst (run_ipc_server turns clients)) + mset (snd (run_ipc_server turns clients))
       = mset clients + mset (concat (map fst turns))"
proof (induction turns arbitrary: clients)
  case Nil
  then show ?case by simp
next
  case (Cons turn turns)
  obtain new recv wr where turn: "turn = (new, recv, wr)" by (cases turn) auto
  have IH: "mset (fst (run_ipc_server turns cs)) + mset (snd (run_ipc_server turns cs))
       = mset cs + mset (concat (map fst turns))" for cs
    by (rule Cons.IH) (use Cons.prems in auto)
  show ?case
  proof (cases recv)
    case (Recv_Message json)
    let ?b = "broadcast_message wr json (clients @ new)"
    have "mset (fst (run_ipc_server (turn # turns) clients)) + mset (snd (run_ipc_server (turn # turns) clients))
        = mset (snd ?b) + (mset (fst (run_ipc_server turns (fst ?b))) + mset (snd (run_ipc_server turns (fst ?b))))"
      by (simp add: turn Recv_Message Let_def case_prod_beta)
    also have "\<dots> = mset (snd ?b) + mset (fst ?b) + mset (concat (map fst turns))" by (simp add: IH)
    also have "mset (snd ?b) + mset (fst ?b) = mset (clients @ new)"
      using broadcast_conserves [of wr json "clients @ new"] by (simp add: add.commute)
    finally show ?thesis by (simp add: turn)
  next
    case Recv_Timeout
    then show ?thesis by (simp add: turn IH)
  next
    case Recv_Disconnected
    then show ?thesis using Cons.prems turn by auto
  qed
qed



subsection \<open>Connecting ends or not\<close>

lemma connect_pipe_iff:
  "(\<exists>r. connect_pipe opens waits w = Some r) \<longleftrightarrow> (\<exists>n. attempt opens waits n w = None)"
  by (metis connect_pipe_enough connect_pipe_returned)

text \<open>
  C34. Connecting to the agent returns exactly when one of its attempts is not answered by a busy pipe whose
  wait succeeds; nothing else bounds the attempts, each of which is a recursive call. What it returns then
  is a pipe that was opened, or nothing.
\<close>

theorem connect_returns_iff:
  "((\<exists>r. connect_to_pipe create_file wait_named_pipe w = Some r) \<longleftrightarrow>
      (\<exists>n. attempt (create_file PIPE_NAME FILE_GENERIC_READ) (wait_named_pipe PIPE_NAME) n w = None))
   \<and> ((\<exists>r. connect_to_command_pipe create_file wait_named_pipe w = Some r) \<longleftrightarrow>
      (\<exists>n. attempt (create_file COMMAND_PIPE_NAME (FILE_GENERIC_READ OR FILE_GENERIC_WRITE))
             (wait_named_pipe COMMAND_PIPE_NAME) n w = None))"
  by (simp only: connect_to_pipe_def connect_to_command_pipe_def connect_pipe_iff)

text \<open>A pipe that is always busy and always about to be free: the client never returns.\<close>

lemma connect_forever:
  "connect_pipe (\<lambda>w. (w, Inl ERROR_PIPE_BUSY)) (\<lambda>w. (w, True)) w = None"
proof -
  let ?opens = "\<lambda>w. (w, Inl ERROR_PIPE_BUSY)" and ?waits = "\<lambda>w. (w, True)"
  have "retry_state ?opens ?waits w = Some w" for w :: 'a
    by (simp add: retry_state_def ERROR_PIPE_BUSY_def win32_error_code_def)
  then have "attempt ?opens ?waits n w = Some w" for n and w :: 'a by (induction n) simp_all
  then show ?thesis using connect_pipe_returned [of ?opens ?waits w] by (metis not_None_eq)
qed

subsection \<open>What the user sees\<close>

text \<open>The connection after the messages, and whether a session is open after the turns.\<close>

fun status_after :: "bool \<Rightarrow> ipc_client_message list \<Rightarrow> bool" where
  "status_after b [] = b"
| "status_after b (Connected # ms) = status_after True ms"
| "status_after b (Disconnected # ms) = status_after False ms"
| "status_after b (Message _ # ms) = status_after b ms"

fun session_open :: "(u8 list \<Rightarrow> string + ipc_message) \<Rightarrow> (u8 list option \<times> bool) list option list \<Rightarrow> bool" where
  "session_open parse [] = False"
| "session_open parse (None # turns) = session_open parse turns"
| "session_open parse (Some reads # turns) =
     (if read_messages_end parse reads = Pipe_Ended then session_open parse turns else True)"

lemma status_after_append: "status_after b (ms @ ms') = status_after (status_after b ms) ms'"
  by (induction b ms rule: status_after.induct) simp_all

lemma status_after_messages: "status_after b (map Message ms) = b"
  by (induction ms) simp_all

lemma status_after_run: "status_after False (run_ipc_client parse turns) = session_open parse turns"
proof (induction parse turns rule: run_ipc_client.induct)
  case (3 parse reads turns)
  show ?case
  proof (cases "read_messages_end parse reads = Pipe_Ended")
    case True
    then show ?thesis using 3 by (simp add: status_after_append status_after_messages)
  next
    case False
    then show ?thesis
      by (cases "read_messages_end parse reads") (simp_all add: status_after_append status_after_messages)
  qed
qed simp_all

lemma ipc_event_connected: "gui_connected (ipc_event m g) = status_after (gui_connected g) [m]"
  by (cases "(m, g)" rule: ipc_event.cases) simp_all

lemma gui_update_other:
  assumes "\<And>e. m \<noteq> IpcEvent e" and "m \<noteq> Tick"
  shows "gui_connected (fst (gui_update m g)) = gui_connected g \<and> gui_inbox (fst (gui_update m g)) = gui_inbox g"
  using assms
  by (cases "(m, g)" rule: gui_update.cases)
    (auto simp: toggle_pause_def toggle_expanded_def refresh_file_contexts_def Let_def split: sum.splits)

lemma ipc_event_inbox: "gui_inbox (ipc_event m g) = gui_inbox g"
  by (cases "(m, g)" rule: ipc_event.cases) simp_all

definition ticks :: "gui_action list \<Rightarrow> nat" where
  "ticks steps = length (filter (\<lambda>a. a = Handles Tick) steps)"

lemma ticks_Cons: "ticks (a # steps) = ticks [a] + ticks steps"
  by (simp add: ticks_def)

lemma status_after_Cons: "status_after b (m # ms) = status_after (status_after b [m]) ms"
  using status_after_append [of b "[m]" ms] by simp

text \<open>A step takes the oldest message out, if it is a tick; what was taken decides the indicator.\<close>

lemma gui_step_taken:
  assumes "\<And>e. a \<noteq> Handles (IpcEvent e)"
  shows "\<exists>taken. gui_inbox g @ arrivals [a] = taken @ gui_inbox (gui_step a g)
     \<and> gui_connected (gui_step a g) = status_after (gui_connected g) taken
     \<and> length taken = min (ticks [a]) (length (gui_inbox g))"
proof (cases a)
  case (Arrives m)
  then show ?thesis by (simp add: ticks_def)
next
  case (Handles m)
  show ?thesis
  proof (cases "m = Tick")
    case False
    then have "\<And>e. m \<noteq> IpcEvent e" using assms Handles by auto
    from gui_update_other [OF this False] Handles False show ?thesis by (simp add: ticks_def)
  next
    case True
    show ?thesis
    proof (cases "gui_inbox g")
      case Nil
      with Handles True show ?thesis by (simp add: ticks_def)
    next
      case (Cons e rest)
      with Handles True show ?thesis
        by (intro exI [of _ "[e]"]) (simp add: ticks_def ipc_event_inbox ipc_event_connected)
    qed
  qed
qed

lemma arrivals_Cons: "arrivals (a # steps) = arrivals [a] @ arrivals steps"
  using arrivals_append [of "[a]" steps] by simp

lemma gui_run_taken:
  assumes "\<And>e. Handles (IpcEvent e) \<notin> set steps"
  shows "\<exists>taken. gui_inbox g @ arrivals steps = taken @ gui_inbox (gui_run steps g)
     \<and> gui_connected (gui_run steps g) = status_after (gui_connected g) taken
     \<and> min (ticks steps) (length (gui_inbox g)) \<le> length taken"
  using assms
proof (induction steps arbitrary: g)
  case Nil
  then show ?case by (simp add: gui_run_def ticks_def)
next
  case (Cons a steps)
  obtain t1 where t1: "gui_inbox g @ arrivals [a] = t1 @ gui_inbox (gui_step a g)"
    "gui_connected (gui_step a g) = status_after (gui_connected g) t1"
    "length t1 = min (ticks [a]) (length (gui_inbox g))"
    using gui_step_taken [of a g] Cons.prems by auto
  obtain t2 where t2: "gui_inbox (gui_step a g) @ arrivals steps = t2 @ gui_inbox (gui_run steps (gui_step a g))"
    "gui_connected (gui_run steps (gui_step a g)) = status_after (gui_connected (gui_step a g)) t2"
    "min (ticks steps) (length (gui_inbox (gui_step a g))) \<le> length t2"
    using Cons.IH [of "gui_step a g"] Cons.prems by auto
  have run: "gui_run (a # steps) g = gui_run steps (gui_step a g)" by (simp add: gui_run_def)
  have "length (gui_inbox g) \<le> length t1 + length (gui_inbox (gui_step a g))"
    using arg_cong [OF t1(1), of length] by simp
  then have "min (ticks (a # steps)) (length (gui_inbox g)) \<le> length (t1 @ t2)"
    using t1(3) t2(3) ticks_Cons [of a steps] by simp
  moreover have "gui_inbox g @ arrivals (a # steps) = (t1 @ t2) @ gui_inbox (gui_run (a # steps) g)"
    using t1(1) t2(1) by (metis append.assoc arrivals_Cons run)
  ultimately show ?case
    using t1(2) t2(2) by (intro exI [of _ "t1 @ t2"]) (simp add: run status_after_append)
qed


definition sample_detection :: detection_event where
  "sample_detection = \<lparr>de_event_id = ''a'', de_timestamp = 0,
     de_process_info = \<lparr>pi_pid = 4, pi_name = ''p'', pi_path = ''C'', pi_parent_pid = None,
       pi_command_line = None, pi_creation_time = None\<rparr>,
     de_detection = \<lparr>dd_threat_score = 90, dd_md5_hash = None, dd_signature_match = None,
       dd_authenticode = None, dd_heuristics = None, dd_ml_prediction = None\<rparr>,
     de_verdict = Blocked\<rparr>"

text \<open>One session that ended, a failed attempt, and one that is open.\<close>

definition sample_turns :: "(u8 list option \<times> bool) list option list" where
  "sample_turns = [Some [(Some [1], True), (None, True)], None, Some [(Some [1], True)]]"


subsection \<open>The snapshot request as a whole\<close>

text \<open>
  A request that could open the pipe closes its handle once, whatever fails on the way; one that could not
  has none. An answer of the agent is passed on, its error text too.
\<close>

lemma request_closes_handle:
  "snd (request_file_context_snapshot inner opened) = (if opened = None then 0 else 1)"
  by (simp add: request_file_context_snapshot_def split: option.split)

lemma request_of_answer:
  assumes "print_request (GetFileContextSnapshot limit) = Inr json" and "wr json p = Some (n, p1)"
    and "read_command_response rd p1 = (Inr bytes, p2)" and "parse_response bytes = Inr answer"
  shows "fst (request_file_context_snapshot
      (request_file_context_snapshot_inner wr rd print_request parse_response limit) (Some p)) =
    (case answer of
       FileContextSnapshot entries \<Rightarrow> Inr entries
     | IpcError text \<Rightarrow> Inl (Request_Failed (Agent_Error text)))"
  using assms
  by (simp add: request_file_context_snapshot_def request_file_context_snapshot_inner_def snapshot_of_response_def
      Let_def split: ipc_response.split)

end
