(* ===== verification/Client_View.thy ===== *)
theory Client_View
  imports Client_App
begin

text \<open>
  What the client shows: \<open>ui/header.rs\<close>, \<open>ui/detection_list.rs\<close> and \<open>ui/file_context_list.rs\<close>. The widgets are
  kept as the texts they show, in their order, with the message that a click sends; sizes, spacing and
  styles are left out, the colours that carry a verdict are kept. Local time and the printing of a real
  number with two digits are parameters: \<open>hms\<close> and \<open>ymd_hms\<close> format a time, \<open>two_digits\<close> a number.
\<close>

subsection \<open>Texts\<close>

definition yes_no :: "bool \<Rightarrow> string" where "yes_no b = (if b then ''Yes'' else ''No'')"

text \<open>The triangles of an open and a closed row, in UTF-8.\<close>

definition row_arrow :: "bool \<Rightarrow> string" where
  "row_arrow expanded =
     (if expanded then map char_of [226::nat, 150, 188] else map char_of [226::nat, 150, 182])"

datatype rgb = RGB real real real

datatype detail_line = Heading string | Detail string string | Details "detail_line list"

subsection \<open>Detections\<close>

definition verdict_color :: "detection_event \<Rightarrow> rgb" where
  "verdict_color d =
     (case de_verdict d of
        Blocked \<Rightarrow> RGB 0.9 0.2 0.2
      | Allowed \<Rightarrow> if i32_lt 50 (dd_threat_score (de_detection d)) then RGB 0.9 0.7 0.0 else RGB 0.2 0.8 0.2
      | SystemAllowed \<Rightarrow> RGB 0.5 0.6 0.7)"

definition verdict_text :: "verdict \<Rightarrow> string" where
  "verdict_text v = (case v of Blocked \<Rightarrow> ''BLOCKED'' | Allowed \<Rightarrow> ''ALLOWED'' | SystemAllowed \<Rightarrow> ''SYSTEM'')"

definition detection_matches :: "string \<Rightarrow> detection_event \<Rightarrow> bool" where
  "detection_matches flt d =
     (if flt = [] then True
      else
        (let filter_lower = to_lowercase flt in
         str_contains (to_lowercase (pi_name (de_process_info d))) filter_lower
         \<or> str_contains (show_nat (unat (pi_pid (de_process_info d)))) filter_lower))"

fun filtered_from :: "nat \<Rightarrow> string \<Rightarrow> detection_event list \<Rightarrow> (nat \<times> detection_event) list" where
  "filtered_from i flt [] = []"
| "filtered_from i flt (d # ds) =
     (if detection_matches flt d then (i, d) # filtered_from (Suc i) flt ds else filtered_from (Suc i) flt ds)"

definition option_details :: "('a \<Rightarrow> detail_line list) \<Rightarrow> 'a option \<Rightarrow> detail_line list" where
  "option_details f x = (case x of None \<Rightarrow> [] | Some a \<Rightarrow> f a)"

definition signature_details :: "signature_match \<Rightarrow> detail_line list" where
  "signature_details sig =
     [Heading ''Signature Match'', Detail ''Hash'' (sm_hash sig),
      Detail ''Score'' (show_int (sint (sm_verdict_score sig))), Detail ''Metadata'' (sm_metadata sig)]"

definition authenticode_details :: "authenticode_info \<Rightarrow> detail_line list" where
  "authenticode_details auth =
     [Heading ''Authenticode Information'', Detail ''Signed'' (yes_no (ai_is_signed auth)),
      Detail ''Trusted'' (yes_no (ai_is_trusted auth)), Detail ''Revoked'' (yes_no (ai_is_revoked auth))]
     @ option_details (\<lambda>signer. [Detail ''Signer'' signer]) (ai_signer auth)
     @ [Detail ''Score Modifier'' (show_int (sint (ai_score_modifier auth)))]"

definition heuristic_details :: "heuristic_results \<Rightarrow> detail_line list" where
  "heuristic_details heur =
     [Heading ''Heuristic Analysis'', Detail ''Packed'' (yes_no (hr_is_packed heur))]
     @ option_details (\<lambda>packer. [Detail ''Packer'' packer]) (hr_packer_name heur)
     @ [Detail ''RWX Sections'' (yes_no (hr_has_rwx_sections heur)),
        Detail ''High Entropy'' (yes_no (hr_high_entropy heur))]
     @ option_details (\<lambda>imphash. [Detail ''ImpHash'' imphash]) (hr_imphash heur)
     @ [Detail ''Score Modifier'' (show_int (sint (hr_score_modifier heur)))]"

definition ml_details :: "(real \<Rightarrow> string) \<Rightarrow> ml_prediction \<Rightarrow> detail_line list" where
  "ml_details two_digits ml =
     [Heading ''ML Prediction'',
      Detail ''Malicious Probability'' (two_digits (mp_malicious_probability ml * 100) @ ''%''),
      Detail ''Score Modifier'' (show_int (sint (mp_score_modifier ml)))]"

definition detection_details_lines ::
  "(instant \<Rightarrow> string) \<Rightarrow> (real \<Rightarrow> string) \<Rightarrow> detection_event \<Rightarrow> detail_line list" where
  "detection_details_lines ymd_hms two_digits d =
     (let p = de_process_info d; det = de_detection d in
      [Heading ''Process Information'', Detail ''Path'' (pi_path p)]
      @ option_details (\<lambda>cmd. [Detail ''Command Line'' cmd]) (pi_command_line p)
      @ option_details (\<lambda>parent. [Detail ''Parent PID'' (show_nat (unat parent))]) (pi_parent_pid p)
      @ option_details (\<lambda>time. [Detail ''Created'' (ymd_hms time)]) (pi_creation_time p)
      @ option_details (\<lambda>md5. [Heading ''Hash Information'', Detail ''MD5'' md5]) (dd_md5_hash det)
      @ option_details signature_details (dd_signature_match det)
      @ option_details authenticode_details (dd_authenticode det)
      @ option_details heuristic_details (dd_heuristics det)
      @ option_details (ml_details two_digits) (dd_ml_prediction det))"

text \<open>A row: its cells, the colour of the verdict, what a click sends, and the details when it is open.\<close>

record list_row =
  lr_cells :: "string list"
  lr_color :: rgb
  lr_selected :: bool
  lr_click :: gui_message
  lr_details :: "detail_line list"

datatype list_view = Notice string | Listing "string list" "list_row list"

definition detection_row ::
  "(instant \<Rightarrow> string) \<Rightarrow> (instant \<Rightarrow> string) \<Rightarrow> (real \<Rightarrow> string)
     \<Rightarrow> detection_event \<Rightarrow> bool \<Rightarrow> bool \<Rightarrow> list_row" where
  "detection_row hms ymd_hms two_digits d selected expanded =
     \<lparr>lr_cells = [hms (de_timestamp d), pi_name (de_process_info d),
        ''PID: '' @ show_nat (unat (pi_pid (de_process_info d))),
        ''Score: '' @ show_int (sint (dd_threat_score (de_detection d))),
        verdict_text (de_verdict d), row_arrow expanded],
      lr_color = verdict_color d, lr_selected = selected, lr_click = ToggleExpanded (de_event_id d),
      lr_details = (if expanded then detection_details_lines ymd_hms two_digits d else [])\<rparr>"

definition detection_list_view ::
  "(instant \<Rightarrow> string) \<Rightarrow> (instant \<Rightarrow> string) \<Rightarrow> (real \<Rightarrow> string)
     \<Rightarrow> detection_event list \<Rightarrow> string \<Rightarrow> nat option \<Rightarrow> string set \<Rightarrow> list_view" where
  "detection_list_view hms ymd_hms two_digits ds flt selected expanded =
     (let filtered = filtered_from 0 flt ds in
      if filtered = [] then
        Notice (if ds = [] then ''No detections yet. Waiting for events from agent...''
                else ''No detections match the filter.'')
      else Listing []
        (map (\<lambda>(original_idx, d). detection_row hms ymd_hms two_digits d
                (selected = Some original_idx) (de_event_id d \<in> expanded)) filtered))"

subsection \<open>File contexts\<close>

definition file_verdict_label :: "file_verdict_snapshot \<Rightarrow> string" where
  "file_verdict_label v = (case v of VsBenign \<Rightarrow> ''Benign'' | VsSuspicious \<Rightarrow> ''Suspicious'' | VsMalicious \<Rightarrow> ''Malicious'')"

definition file_verdict_color :: "file_verdict_snapshot \<Rightarrow> rgb" where
  "file_verdict_color v =
     (case v of VsBenign \<Rightarrow> RGB 0.2 0.8 0.2 | VsSuspicious \<Rightarrow> RGB 0.9 0.7 0.0 | VsMalicious \<Rightarrow> RGB 0.9 0.2 0.2)"

fun flag_label :: "file_flag_snapshot \<Rightarrow> string" where
  "flag_label SnapFileWriteSuccess = ''FileWriteSuccess''"
| "flag_label SnapWhiteListed = ''WhiteListed''"
| "flag_label SnapBlackListed = ''BlackListed''"
| "flag_label SnapStaticScanMalicious = ''StaticScanMalicious''"
| "flag_label SnapStaticScanSuspicious = ''StaticScanSuspicious''"
| "flag_label SnapStaticScanBeneign = ''StaticScanBeneign''"
| "flag_label SnapInAutoStartLocation = ''InAutoStartLocation''"
| "flag_label SnapInTempLocation = ''InTempLocation''"
| "flag_label SnapRenamedToExecutable = ''RenamedToExecutable''"
| "flag_label SnapFileCreateSuccess = ''FileCreated''"

definition format_flags :: "file_flag_snapshot list \<Rightarrow> string" where
  "format_flags flags = (if flags = [] then ''-'' else join_str '', '' (map flag_label flags))"

definition format_key :: "file_context_key_snapshot \<Rightarrow> string" where
  "format_key key =
     (case key of KeyFileIndex file_index \<Rightarrow> ''file-index:'' @ show_hex (unat file_index) | KeyPath path \<Rightarrow> path)"

definition expanded_key :: "file_context_snapshot \<Rightarrow> string" where
  "expanded_key c = ''file-context:'' @ format_key (fcs_key c)"

definition display_path :: "file_context_snapshot \<Rightarrow> string" where
  "display_path c = (case fcs_normalized_file_path c of Some path \<Rightarrow> path | None \<Rightarrow> format_key (fcs_key c))"

definition format_optional_u64 :: "u64 option \<Rightarrow> string" where
  "format_optional_u64 x = (case x of Some w \<Rightarrow> show_hex (unat w) | None \<Rightarrow> ''-'')"

definition format_optional_time :: "(instant \<Rightarrow> string) \<Rightarrow> instant option \<Rightarrow> string" where
  "format_optional_time ymd_hms time = (case time of Some t \<Rightarrow> ymd_hms t | None \<Rightarrow> ''-'')"

definition file_context_matches :: "file_context_snapshot \<Rightarrow> string \<Rightarrow> bool" where
  "file_context_matches c flt =
     (if flt = [] then True
      else
        (let filter_lower = to_lowercase flt;
             path = to_lowercase (display_path c);
             key = to_lowercase (format_key (fcs_key c));
             writer = to_lowercase (case fcs_last_write_process c of Some p \<Rightarrow> p | None \<Rightarrow> []);
             verdict = (case fcs_last_scan_summary c of
                          Some summary \<Rightarrow> to_lowercase (file_verdict_label (fss_verdict summary)) | None \<Rightarrow> []);
             flags = to_lowercase (format_flags (fcs_matching_flags c)) in
         str_contains path filter_lower \<or> str_contains key filter_lower \<or> str_contains writer filter_lower
         \<or> str_contains verdict filter_lower \<or> str_contains flags filter_lower))"

definition scan_summary_details :: "(instant \<Rightarrow> string) \<Rightarrow> file_scan_summary_snapshot \<Rightarrow> detail_line list" where
  "scan_summary_details ymd_hms summary =
     [Details [Heading ''Latest Static Scan'',
        Detail ''Verdict'' (file_verdict_label (fss_verdict summary)),
        Detail ''Threat Score'' (show_int (sint (fss_threat_score summary))),
        Detail ''File Size'' (show_nat (unat (fss_file_size summary))),
        Detail ''Modified'' (ymd_hms (fss_mod_time summary)),
        Detail ''Scan File Index'' (format_optional_u64 (fss_file_index summary))]]"

definition context_details :: "(instant \<Rightarrow> string) \<Rightarrow> file_context_snapshot \<Rightarrow> detail_line list" where
  "context_details ymd_hms c =
     [Heading ''File Context'', Detail ''Cache Key'' (format_key (fcs_key c)),
      Detail ''Path'' (display_path c), Detail ''File Index'' (format_optional_u64 (fcs_file_index c)),
      Detail ''Flags'' (format_flags (fcs_matching_flags c))]
     @ option_details (\<lambda>process. [Detail ''Last Writer'' process]) (fcs_last_write_process c)
     @ [Detail ''Last Write'' (format_optional_time ymd_hms (fcs_last_write_time c)),
        Detail ''Last Rename'' (format_optional_time ymd_hms (fcs_last_rename_time c))]
     @ option_details (\<lambda>original_name. [Detail ''Original Name'' original_name]) (fcs_original_name c)
     @ option_details (scan_summary_details ymd_hms) (fcs_last_scan_summary c)"

definition file_context_row :: "(instant \<Rightarrow> string) \<Rightarrow> file_context_snapshot \<Rightarrow> bool \<Rightarrow> string \<Rightarrow> list_row" where
  "file_context_row ymd_hms c expanded key =
     \<lparr>lr_cells = [format_optional_time ymd_hms (fcs_last_write_time c), display_path c,
        format_optional_u64 (fcs_file_index c),
        (case fcs_last_scan_summary c of
           Some summary \<Rightarrow> file_verdict_label (fss_verdict summary) | None \<Rightarrow> ''Unscanned''),
        format_flags (fcs_matching_flags c), [], row_arrow expanded],
      lr_color = (case fcs_last_scan_summary c of
           Some summary \<Rightarrow> file_verdict_color (fss_verdict summary) | None \<Rightarrow> RGB 0.5 0.6 0.7),
      lr_selected = False, lr_click = ToggleExpanded key,
      lr_details = (if expanded then context_details ymd_hms c else [])\<rparr>"

definition header_cells :: "string option \<Rightarrow> string list" where
  "header_cells status = [''Last write'', ''Path'', ''File index'', ''Verdict'', ''Flags'',
     (case status of Some s \<Rightarrow> s | None \<Rightarrow> []), []]"

definition file_context_list_view ::
  "(instant \<Rightarrow> string) \<Rightarrow> file_context_snapshot list \<Rightarrow> string \<Rightarrow> bool \<Rightarrow> string option \<Rightarrow> string set
     \<Rightarrow> list_view" where
  "file_context_list_view ymd_hms file_contexts flt loading status expanded =
     (if loading \<and> file_contexts = [] then Notice ''Refreshing file context cache...''
      else
        (let filtered = filter (\<lambda>c. file_context_matches c flt) file_contexts in
         if filtered = [] then
           Notice (if file_contexts = [] then
                     (case status of Some s \<Rightarrow> s | None \<Rightarrow> ''No file contexts cached yet.'')
                   else ''No file contexts match the filter.'')
         else Listing (header_cells status)
           (map (\<lambda>c. file_context_row ymd_hms c (expanded_key c \<in> expanded) (expanded_key c)) filtered)))"

subsection \<open>The window\<close>

record header_view =
  hv_status_text :: string
  hv_refresh_label :: string
  hv_filter_placeholder :: string
  hv_filter :: string
  hv_pause_label :: string
  hv_theme_label :: string
  hv_active_tab :: view_mode

definition view_header :: "bool \<Rightarrow> nat \<Rightarrow> nat \<Rightarrow> string \<Rightarrow> app_theme \<Rightarrow> bool \<Rightarrow> nat \<Rightarrow> view_mode \<Rightarrow> bool \<Rightarrow> header_view" where
  "view_header online detection_count file_context_count flt theme paused pending_count mode loading =
     \<lparr>hv_status_text =
        (if online
         then ''Connected | '' @ show_nat detection_count @ '' detections | '' @ show_nat file_context_count @ '' files''
         else ''Disconnected - waiting for agent...''),
      hv_refresh_label = (if loading then ''Refreshing'' else ''Refresh''),
      hv_filter_placeholder =
        (case mode of Detections \<Rightarrow> ''Filter by process name or PID...''
         | FileContexts \<Rightarrow> ''Filter by path, file index, process, or verdict...''),
      hv_filter = flt,
      hv_pause_label =
        (if paused then (if 0 < pending_count then '' Paused ('' @ show_nat pending_count @ '')'' else '' Paused'')
         else '' Live''),
      hv_theme_label = ''Theme: '' @ theme_name theme,
      hv_active_tab = mode\<rparr>"

definition gui_view ::
  "(instant \<Rightarrow> string) \<Rightarrow> (instant \<Rightarrow> string) \<Rightarrow> (real \<Rightarrow> string) \<Rightarrow> galatea_gui \<Rightarrow> header_view \<times> list_view" where
  "gui_view hms ymd_hms two_digits g =
     (view_header (gui_connected g) (length (gui_detections g)) (length (gui_file_contexts g)) (gui_filter_text g)
        (gui_current_theme g) (gui_paused g) (length (gui_pending_detections g)) (gui_view_mode g)
        (gui_loading_file_contexts g),
      case gui_view_mode g of
        Detections \<Rightarrow> detection_list_view hms ymd_hms two_digits (gui_detections g) (gui_filter_text g)
          (gui_selected_detection g) (gui_expanded_events g)
      | FileContexts \<Rightarrow> file_context_list_view ymd_hms (gui_file_contexts g) (gui_filter_text g)
          (gui_loading_file_contexts g) (gui_file_context_status g) (gui_expanded_events g))"

subsection \<open>Lemmas\<close>

text \<open>The filter shows the matching detections in their order, each with its place in the list.\<close>

lemma filtered_from_enumerate:
  "filtered_from i flt ds = filter (\<lambda>(_, d). detection_matches flt d) (enumerate i ds)"
  by (induction ds arbitrary: i) auto

lemma filtered_from_nth: "(k, d) \<in> set (filtered_from 0 flt ds) \<Longrightarrow> k < length ds \<and> ds ! k = d"
  by (auto simp: filtered_from_enumerate in_set_enumerate_eq)

lemma filtered_from_empty: "filtered_from i [] ds = enumerate i ds"
  by (simp add: filtered_from_enumerate detection_matches_def)

lemma map_snd_filtered: "map snd (filtered_from i flt ds) = filter (detection_matches flt) ds"
  by (induction ds arbitrary: i) auto

text \<open>Hexadecimal digits can be read back, so file indices have different keys.\<close>

definition digit_value :: "char \<Rightarrow> nat" where
  "digit_value c = (if byte_of c < 58 then byte_of c - 48 else byte_of c - 87)"

definition digits_value :: "nat \<Rightarrow> string \<Rightarrow> nat" where
  "digits_value base s = foldl (\<lambda>n c. n * base + digit_value c) 0 s"

lemma digit_value_char: "d < 16 \<Longrightarrow> digit_value (digit_char d) = d"
  by (auto simp: digit_value_def digit_char_def)

lemma digits_value_nat_digits: "1 < base \<Longrightarrow> base \<le> 16 \<Longrightarrow> digits_value base (nat_digits base n) = n"
proof (induction base n rule: nat_digits.induct)
  case (1 base n)
  show ?case
  proof (cases "n < base")
    case True
    then show ?thesis using "1.prems" by (subst nat_digits.simps) (simp add: digits_value_def digit_value_char)
  next
    case False
    then have "digits_value base (nat_digits base (n div base)) = n div base" using 1 by auto
    moreover have "n mod base < 16" using "1.prems" by (meson less_le_trans mod_less_divisor zero_less_one less_trans)
    ultimately show ?thesis using False "1.prems"
      by (subst nat_digits.simps) (simp add: digits_value_def digit_value_char)
  qed
qed

lemma nat_digits_inject: "1 < base \<Longrightarrow> base \<le> 16 \<Longrightarrow> nat_digits base m = nat_digits base n \<longleftrightarrow> m = n"
  by (metis digits_value_nat_digits)

lemma show_hex_inject: "show_hex m = show_hex n \<longleftrightarrow> m = n"
  by (simp add: show_hex_def nat_digits_inject)

lemma show_nat_inject: "show_nat m = show_nat n \<longleftrightarrow> m = n"
  by (simp add: show_nat_def nat_digits_inject)

lemma expanded_key_index_inject:
  assumes "fcs_key a = KeyFileIndex i" "fcs_key b = KeyFileIndex j"
  shows "expanded_key a = expanded_key b \<longleftrightarrow> i = j"
  using assms by (simp add: expanded_key_def format_key_def show_hex_inject word_unat_eq_iff)

end
