(* ===== verification/Client_Style.thy ===== *)
theory Client_Style
  imports Client_View
begin

text \<open>
  The colours of the desktop client: the themes as the toolkit knows them (\<open>theme.rs\<close>) and the styles of the
  buttons, rows and details that \<open>ui/\<close> computes from the colours of a theme. A style is what the code sets; the
  rest is the toolkit's default. The colours of the toolkit's own themes are parameters.
\<close>

subsection \<open>Colours and themes\<close>

record color =
  co_r :: real
  co_g :: real
  co_b :: real
  co_a :: real

definition from_rgb :: "real \<Rightarrow> real \<Rightarrow> real \<Rightarrow> color" where
  "from_rgb r g b = \<lparr>co_r = r, co_g = g, co_b = b, co_a = 1\<rparr>"

definition from_rgba :: "real \<Rightarrow> real \<Rightarrow> real \<Rightarrow> real \<Rightarrow> color" where
  "from_rgba r g b a = \<lparr>co_r = r, co_g = g, co_b = b, co_a = a\<rparr>"

definition BLACK :: color where "BLACK = from_rgb 0 0 0"
definition TRANSPARENT :: color where "TRANSPARENT = from_rgba 0 0 0 0"

record palette =
  pa_background :: color
  pa_text :: color
  pa_primary :: color
  pa_success :: color
  pa_danger :: color
  pa_warning :: color

definition defender_explorer_palette :: palette where
  "defender_explorer_palette =
     \<lparr>pa_background = from_rgb 0.04 0.04 0.04, pa_text = from_rgb 0.95 0.95 0.95, pa_primary = from_rgb 1.0 0.58 0.0,
      pa_success = from_rgb 0.2 0.8 0.2, pa_danger = from_rgb 0.9 0.2 0.2, pa_warning = from_rgb 0.9 0.7 0.0\<rparr>"

text \<open>A theme of the toolkit: one of its own, or one with a name and a palette.\<close>

datatype iced_theme =
    Th_Dark | Th_Light | Th_Dracula | Th_Nord | Th_SolarizedLight | Th_SolarizedDark | Th_GruvboxLight | Th_GruvboxDark
  | Th_CatppuccinLatte | Th_CatppuccinFrappe | Th_CatppuccinMacchiato | Th_CatppuccinMocha
  | Th_TokyoNight | Th_TokyoNightStorm | Th_TokyoNightLight
  | Th_KanagawaWave | Th_KanagawaDragon | Th_KanagawaLotus
  | Th_Moonfly | Th_Nightfly | Th_Oxocarbon | Th_Ferra | Th_Custom string palette

fun to_iced_theme :: "app_theme \<Rightarrow> iced_theme" where
  "to_iced_theme Dark = Th_Dark"
| "to_iced_theme Light = Th_Light"
| "to_iced_theme Dracula = Th_Dracula"
| "to_iced_theme Nord = Th_Nord"
| "to_iced_theme SolarizedLight = Th_SolarizedLight"
| "to_iced_theme SolarizedDark = Th_SolarizedDark"
| "to_iced_theme GruvboxLight = Th_GruvboxLight"
| "to_iced_theme GruvboxDark = Th_GruvboxDark"
| "to_iced_theme CatppuccinLatte = Th_CatppuccinLatte"
| "to_iced_theme CatppuccinFrappe = Th_CatppuccinFrappe"
| "to_iced_theme CatppuccinMacchiato = Th_CatppuccinMacchiato"
| "to_iced_theme CatppuccinMocha = Th_CatppuccinMocha"
| "to_iced_theme TokyoNight = Th_TokyoNight"
| "to_iced_theme TokyoNightStorm = Th_TokyoNightStorm"
| "to_iced_theme TokyoNightLight = Th_TokyoNightLight"
| "to_iced_theme KanagawaWave = Th_KanagawaWave"
| "to_iced_theme KanagawaDragon = Th_KanagawaDragon"
| "to_iced_theme KanagawaLotus = Th_KanagawaLotus"
| "to_iced_theme Moonfly = Th_Moonfly"
| "to_iced_theme Nightfly = Th_Nightfly"
| "to_iced_theme Oxocarbon = Th_Oxocarbon"
| "to_iced_theme Ferra = Th_Ferra"
| "to_iced_theme DefenderExplorer = Th_Custom ''Defender Explorer'' defender_explorer_palette"

definition gui_theme :: "galatea_gui \<Rightarrow> iced_theme" where
  "gui_theme g = to_iced_theme (gui_current_theme g)"

text \<open>No two themes of the client look the same to the toolkit.\<close>

lemma to_iced_theme_inj: "to_iced_theme a = to_iced_theme b \<longleftrightarrow> a = b"
  by (cases a; cases b) simp_all

subsection \<open>Styles\<close>

text \<open>The colours of a theme that the code asks for.\<close>

record theme_colors =
  tc_text :: color
  tc_primary :: color
  tc_background_base :: color
  tc_background_weak :: color
  tc_background_strong :: color
  tc_secondary_base :: color

datatype button_status = Active | Hovered | Pressed | Disabled

text \<open>A border without a colour has that of the default.\<close>

record button_style =
  bs_background :: color
  bs_text_color :: color
  bs_border :: "(color \<times> real) option"
  bs_radius :: real

definition lighter :: "real \<Rightarrow> color \<Rightarrow> color" where
  "lighter d c = c\<lparr>co_r := min (co_r c + d) 1, co_g := min (co_g c + d) 1, co_b := min (co_b c + d) 1\<rparr>"

definition hovered_color :: "button_status \<Rightarrow> color \<Rightarrow> color" where
  "hovered_color status base_color = (if status = Hovered then lighter 0.05 base_color else base_color)"

definition row_style :: "theme_colors \<Rightarrow> color \<Rightarrow> button_style" where
  "row_style theme color =
     \<lparr>bs_background = color, bs_text_color = tc_text theme, bs_border = Some (tc_background_strong theme, 1),
      bs_radius = 0\<rparr>"

definition detection_row_style :: "bool \<Rightarrow> theme_colors \<Rightarrow> button_status \<Rightarrow> button_style" where
  "detection_row_style selected theme status =
     (let base_color = (if selected then lighter 0.1 (tc_background_base theme) else tc_background_base theme) in
      row_style theme (hovered_color status base_color))"

definition context_row_style :: "theme_colors \<Rightarrow> button_status \<Rightarrow> button_style" where
  "context_row_style theme status = row_style theme (hovered_color status (tc_background_base theme))"

text \<open>The buttons of the header: those of the views, the refresh, the pause and the theme.\<close>

definition header_button :: "theme_colors \<Rightarrow> bool \<Rightarrow> button_style" where
  "header_button theme marked =
     \<lparr>bs_background = (if marked then tc_primary theme else tc_secondary_base theme),
      bs_text_color = (if marked then BLACK else tc_text theme), bs_border = None, bs_radius = 6\<rparr>"

definition tab_button_style :: "theme_colors \<Rightarrow> bool \<Rightarrow> button_style" where
  "tab_button_style theme active = header_button theme active"

definition refresh_button_style :: "theme_colors \<Rightarrow> button_style" where
  "refresh_button_style theme = header_button theme False"

definition pause_button_style :: "theme_colors \<Rightarrow> bool \<Rightarrow> button_style" where
  "pause_button_style theme paused = header_button theme paused"

definition theme_button_style :: "theme_colors \<Rightarrow> button_style" where
  "theme_button_style theme = header_button theme True"

text \<open>Containers: a background and a border with its colour, width and radius.\<close>

record container_style =
  cs_background :: color
  cs_border :: "(color \<times> real \<times> real) option"

definition header_row_style :: "theme_colors \<Rightarrow> container_style" where
  "header_row_style theme = \<lparr>cs_background = tc_background_strong theme, cs_border = None\<rparr>"

definition separator_style :: "theme_colors \<Rightarrow> container_style" where
  "separator_style theme = \<lparr>cs_background = tc_primary theme, cs_border = None\<rparr>"

definition details_style :: "theme_colors \<Rightarrow> container_style" where
  "details_style theme =
     \<lparr>cs_background = tc_background_weak theme, cs_border = Some (tc_background_strong theme, 1, 0)\<rparr>"

text \<open>A row of the details: the label with its width and colour, the value in a field of its own.\<close>

record detail_cells =
  dr_label :: string
  dr_label_color :: color
  dr_label_width :: real
  dr_value :: string
  dr_value_color :: color
  dr_selection_color :: color
  dr_field_background :: color
  dr_container :: container_style

definition detail_row :: "theme_colors \<Rightarrow> string \<Rightarrow> string \<Rightarrow> detail_cells" where
  "detail_row theme label value =
     \<lparr>dr_label = label @ '': '', dr_label_color = from_rgb 0.6 0.6 0.6, dr_label_width = 150, dr_value = value,
      dr_value_color = from_rgb 0.95 0.95 0.95, dr_selection_color = from_rgba 0.3 0.5 0.8 0.5,
      dr_field_background = TRANSPARENT,
      dr_container = \<lparr>cs_background = tc_background_base theme, cs_border = Some (tc_background_strong theme, 0.5, 2)\<rparr>\<rparr>"

text \<open>The list of files has its own copies of the two, with the same text.\<close>

definition context_details_style :: "theme_colors \<Rightarrow> container_style" where
  "context_details_style = details_style"

definition context_detail_row :: "theme_colors \<Rightarrow> string \<Rightarrow> string \<Rightarrow> detail_cells" where
  "context_detail_row = detail_row"

subsection \<open>What the styles keep\<close>

text \<open>A colour is one of the screen when its channels are between 0 and 1.\<close>

definition color_ok :: "color \<Rightarrow> bool" where
  "color_ok c \<longleftrightarrow> (\<forall>x \<in> {co_r c, co_g c, co_b c, co_a c}. 0 \<le> x \<and> x \<le> 1)"

definition darker_eq :: "color \<Rightarrow> color \<Rightarrow> bool" where
  "darker_eq c d \<longleftrightarrow> co_r c \<le> co_r d \<and> co_g c \<le> co_g d \<and> co_b c \<le> co_b d \<and> co_a c = co_a d"

lemma lighter_ok: "0 \<le> d \<Longrightarrow> color_ok c \<Longrightarrow> color_ok (lighter d c) \<and> darker_eq c (lighter d c)"
  by (auto simp: color_ok_def darker_eq_def lighter_def)

text \<open>
  Rows of a theme whose background is a colour of the screen are drawn in colours of the screen; the pointer and the selection never
  make one darker, and only on a background that is white already are they not seen.
\<close>

lemma detection_row_visible:
  assumes "color_ok (tc_background_base theme)"
  shows "color_ok (bs_background (detection_row_style selected theme status))"
    and "darker_eq (bs_background (detection_row_style False theme Active)) (bs_background (detection_row_style selected theme status))"
    and "bs_background (detection_row_style True theme Active) = bs_background (detection_row_style False theme Active)
      \<longleftrightarrow> tc_background_base theme = from_rgba 1 1 1 (co_a (tc_background_base theme))"
proof -
  let ?b = "tc_background_base theme"
  have l: "color_ok (lighter 0.1 ?b)" "color_ok (lighter 0.05 ?b)" "color_ok (lighter 0.05 (lighter 0.1 ?b))"
    "darker_eq ?b (lighter 0.1 ?b)" "darker_eq ?b (lighter 0.05 ?b)"
    "darker_eq (lighter 0.1 ?b) (lighter 0.05 (lighter 0.1 ?b))"
    using lighter_ok [of "0.1" "?b"] lighter_ok [of "0.05" "?b"] lighter_ok [of "0.05" "lighter 0.1 ?b"] assms by simp_all
  show "color_ok (bs_background (detection_row_style selected theme status))"
    using assms l by (simp add: detection_row_style_def row_style_def hovered_color_def Let_def)
  show "darker_eq (bs_background (detection_row_style False theme Active)) (bs_background (detection_row_style selected theme status))"
    using l by (auto simp: detection_row_style_def row_style_def hovered_color_def Let_def darker_eq_def)
  have "x \<le> 1 \<Longrightarrow> min (x + 0.1) 1 = x \<longleftrightarrow> x = 1" for x :: real by (auto simp: min_def)
  then show "bs_background (detection_row_style True theme Active) = bs_background (detection_row_style False theme Active)
      \<longleftrightarrow> ?b = from_rgba 1 1 1 (co_a ?b)"
    using assms
    by (cases "?b") (simp add: detection_row_style_def row_style_def hovered_color_def lighter_def from_rgba_def color_ok_def)
qed

text \<open>The marked tab is the one of the view that is shown, in the colours of the theme.\<close>

lemma one_tab_marked:
  assumes "tc_primary theme \<noteq> tc_secondary_base theme"
  shows "bs_background (tab_button_style theme (mode = m)) = tc_primary theme \<longleftrightarrow> mode = m"
  using assms by (simp add: tab_button_style_def header_button_def)

lemma defender_explorer_ok:
  "color_ok (pa_background defender_explorer_palette)" "color_ok (pa_text defender_explorer_palette)"
  "color_ok (pa_primary defender_explorer_palette)" "color_ok (pa_success defender_explorer_palette)"
  "color_ok (pa_danger defender_explorer_palette)" "color_ok (pa_warning defender_explorer_palette)"
  by (simp_all add: defender_explorer_palette_def from_rgb_def color_ok_def)

subsection \<open>The program\<close>

text \<open>
  The program starts with the default state and no task, and handles what its events and its timer bring; the timer
  brings a tick every 100 milliseconds.
\<close>

definition TICK_INTERVAL_MS :: nat where "TICK_INTERVAL_MS = 100"

definition subscription :: "nat \<Rightarrow> (nat \<times> gui_message) list" where
  "subscription ms = map (\<lambda>k. (TICK_INTERVAL_MS * Suc k, Tick)) [0..<ms div TICK_INTERVAL_MS]"

definition client_main :: "gui_action list \<Rightarrow> galatea_gui" where
  "client_main steps = gui_run steps default_gui"

lemma subscription_ticks:
  "length (subscription ms) = ms div 100" "e \<in> set (subscription ms) \<Longrightarrow> fst e \<le> ms \<and> snd e = Tick"
proof -
  show "length (subscription ms) = ms div 100" by (simp add: subscription_def TICK_INTERVAL_MS_def)
  assume "e \<in> set (subscription ms)"
  then obtain k where "k < ms div 100" "e = (100 * Suc k, Tick)" by (auto simp: subscription_def TICK_INTERVAL_MS_def)
  then show "fst e \<le> ms \<and> snd e = Tick" using div_times_less_eq_dividend [of ms 100] by simp
qed

end
