(* ===== verification/Babel_Api.thy ===== *)
theory Babel_Api
  imports Shared_Api Rust_Strings
begin

text \<open>
  The interface between agents and server: the crate \<open>babel-api-definition\<close>, its payloads
  (\<open>lib.rs\<close>) and the wrapper that keeps secrets out of logs (\<open>secrets/mod.rs\<close>). A UUID is its
  canonical text.
\<close>

subsection \<open>Secrets\<close>

text \<open>The \<open>Debug\<close> output of a secret shows its type; \<open>expose_secret\<close> is the only way to its value.\<close>

datatype 'a secret = Secret (expose_secret: 'a)

definition debug_secret :: "string \<Rightarrow> 'a secret \<Rightarrow> string" where
  "debug_secret type_name s = ''[REDACTED: '' @ type_name @ '']''"

definition redact_secret :: "(string \<Rightarrow> 'o) \<Rightarrow> string \<Rightarrow> 'a secret \<Rightarrow> 'o" where
  "redact_secret collect_str type_name s = collect_str (debug_secret type_name s)"

definition serialize_exposed :: "('a \<Rightarrow> 'o) \<Rightarrow> 'a secret \<Rightarrow> 'o" where
  "serialize_exposed serialize s = serialize (expose_secret s)"

definition secret_of_option :: "'a secret option \<Rightarrow> 'a option secret" where
  "secret_of_option o' = Secret (map_option expose_secret o')"

definition secret_of_result :: "'e + 'a secret \<Rightarrow> ('e + 'a) secret" where
  "secret_of_result r = Secret (map_sum id expose_secret r)"

definition secret_of_list :: "'a secret list \<Rightarrow> 'a list secret" where
  "secret_of_list xs = Secret (map expose_secret xs)"

definition secret_of_result_error :: "'e secret + 'a \<Rightarrow> ('e + 'a) secret" where
  "secret_of_result_error r = Secret (map_sum expose_secret id r)"

definition secret_of_result_both :: "'e secret + 'a secret \<Rightarrow> ('e + 'a) secret" where
  "secret_of_result_both r = Secret (map_sum expose_secret expose_secret r)"

text \<open>Making a secret of a value, of one that converts, and of one that may not.\<close>

definition secret_from :: "('u \<Rightarrow> 'a) \<Rightarrow> 'u \<Rightarrow> 'a secret" where
  "secret_from into secret = Secret (into secret)"

definition secret_try_from :: "('u \<Rightarrow> 'e + 'a) \<Rightarrow> 'u \<Rightarrow> 'e secret + 'a secret" where
  "secret_try_from try_into secret = map_sum Secret Secret (try_into secret)"

definition deserialize_secret :: "('d \<Rightarrow> 'e + 'a) \<Rightarrow> 'd \<Rightarrow> 'e + 'a secret" where
  "deserialize_secret deserialize d = map_sum id Secret (deserialize d)"

text \<open>\<open>expose_via\<close>: of a secret and of an optional one, which is serialized as the option of its value.\<close>

definition expose_via :: "('a secret \<Rightarrow> 'a) \<Rightarrow> 'a secret \<Rightarrow> 'a" where
  "expose_via expose s = expose s"

definition expose_via_option :: "('a secret \<Rightarrow> 'a) \<Rightarrow> 'a secret option \<Rightarrow> 'a option" where
  "expose_via_option expose s = map_option expose s"

definition serialize_exposed_option :: "('a option \<Rightarrow> 'o) \<Rightarrow> 'a secret option \<Rightarrow> 'o" where
  "serialize_exposed_option serialize s = serialize (expose_via_option expose_secret s)"

lemmas secret_defs = secret_of_option_def secret_of_result_def secret_of_list_def secret_of_result_error_def
  secret_of_result_both_def secret_from_def secret_try_from_def deserialize_secret_def serialize_exposed_def
  serialize_exposed_option_def expose_via_option_def expose_via_def

text \<open>A payload that is written with its secret exposed is read back with the same secret.\<close>

lemma secret_roundtrip:
  assumes "\<And>a. deserialize (serialize a) = Inr a"
  shows "deserialize_secret deserialize (serialize_exposed serialize s) = Inr s"
  using assms by (cases s) (simp add: secret_defs)

text \<open>
  Converting keeps every part a secret: a conversion that fails has its error behind the wrapper, too, and joining
  the two sides again gives the outcome of the conversion and nothing else.
\<close>

lemma try_from_joined: "secret_of_result_both (secret_try_from try_into u) = Secret (try_into u)"
  by (cases "try_into u") (simp_all add: secret_defs)

lemma secret_of_list_map: "secret_of_list (map (secret_from into) us) = Secret (map into us)"
  by (simp add: secret_defs comp_def)

subsection \<open>Payloads\<close>

record agent_authentication = au_psk :: string

record agent_host_info =
  hi_hostname :: string
  hi_os_version :: string
  hi_agent_version :: string
  hi_ip_address :: "string option"

record agent_registration =
  reg_uuid :: string
  reg_host_info :: agent_host_info
  reg_auth :: "agent_authentication secret"

record agent_heartbeat =
  hb_uuid :: string
  hb_auth :: "agent_authentication secret"

datatype telemetry_verdict = TvAllowed | TvBlocked

record process_telemetry_event =
  pe_event_id :: string
  pe_occurred_at :: instant
  pe_process_id :: u64
  pe_parent_process_id :: "u64 option"
  pe_image_path :: string
  pe_command_line :: "string option"
  pe_md5_hash :: "string option"
  pe_threat_score :: "i32 option"
  pe_verdict :: telemetry_verdict

datatype telemetry_event = Process process_telemetry_event

definition event_id :: "telemetry_event \<Rightarrow> string" where
  "event_id e = (case e of Process p \<Rightarrow> pe_event_id p)"

definition occurred_at :: "telemetry_event \<Rightarrow> instant" where
  "occurred_at e = (case e of Process p \<Rightarrow> pe_occurred_at p)"

definition event_type :: "telemetry_event \<Rightarrow> string" where
  "event_type e = (case e of Process _ \<Rightarrow> ''process'')"

definition default_telemetry_schema_version :: u16 where
  "default_telemetry_schema_version = 1"

record agent_telemetry =
  at_uuid :: string
  at_auth :: "agent_authentication secret"
  at_schema_version :: u16
  at_events :: "telemetry_event list"

record agent_command_ack =
  ack_uuid :: string
  ack_auth :: "agent_authentication secret"
  ack_command_id :: string
  ack_success :: bool
  ack_message :: "string option"

text \<open>A secret never reaches a log: the debug output does not depend on it.\<close>

lemma debug_secret_redacts: "debug_secret n s = debug_secret n t"
  by (simp add: debug_secret_def)

end
