(* ===== verification/Server_Db.thy ===== *)
theory Server_Db
  imports Babel_Api "HOL-Library.Char_ord" "HOL-Library.List_Lexorder" "HOL-Library.Option_ord"
begin

text \<open>
  The server's database: the schema and the queries of \<open>db/mod.rs\<close>, \<open>db/agent_db.rs\<close>,
  \<open>db/commands_db.rs\<close> and \<open>db/telemetry_db.rs\<close>. A table is the list of its rows in the order of
  their insertion, with its primary key first; each query is the SQL text of the source written
  out on those lists. Every operation takes \<open>io\<close>, the error of the connection pool or of the
  statement, if there is one; a failed statement changes nothing.
\<close>

subsection \<open>Tables\<close>

record agent_row =
  ar_agent_id :: string
  ar_hostname :: string
  ar_os_version :: string
  ar_agent_version :: string
  ar_ip_address :: string
  ar_last_heartbeat_at :: "string option"
  ar_registered_at :: string
  ar_status :: string

record command_row =
  cr_command_id :: string
  cr_agent_id :: string
  cr_command_type :: string
  cr_payload_json :: "string option"
  cr_status :: string
  cr_created_at :: string
  cr_delivered_at :: "string option"
  cr_acked_at :: "string option"

record telemetry_row =
  tr_event_id :: string
  tr_agent_id :: string
  tr_event_type :: string
  tr_occurred_at :: string
  tr_ingested_at :: string
  tr_payload_json :: string

text \<open>
  \<open>db_config\<close> is the row of \<open>server_config\<close> with \<open>id = 1\<close>. Whether SQLite enforces the foreign keys
  of the schema depends on how it was built; \<open>db_foreign_keys\<close> says so.
\<close>

record server_db =
  db_agents :: "agent_row list"
  db_commands :: "command_row list"
  db_telemetry :: "telemetry_row list"
  db_config :: "string option"
  db_foreign_keys :: bool

definition empty_db :: "bool \<Rightarrow> server_db" where
  "empty_db fk = \<lparr>db_agents = [], db_commands = [], db_telemetry = [], db_config = None, db_foreign_keys = fk\<rparr>"

type_synonym io_error = "string option"

subsection \<open>Agents\<close>

datatype agent_status = Online | Stale | Offline

definition agent_status_str :: "agent_status \<Rightarrow> string" where
  "agent_status_str s = (case s of Online \<Rightarrow> ''online'' | Stale \<Rightarrow> ''stale'' | Offline \<Rightarrow> ''offline'')"

definition agent_status_of :: "string \<Rightarrow> string + agent_status" where
  "agent_status_of v =
     (let l = to_lowercase v in
      if l = ''online'' then Inr Online else if l = ''stale'' then Inr Stale
      else if l = ''offline'' then Inr Offline else Inl (''Unknown status: '' @ v))"

lemma agent_status_roundtrip [simp]: "agent_status_of (agent_status_str s) = Inr s"
  by (induction s; code_simp)

record agent_info =
  ai_agent_id :: string
  ai_hostname :: string
  ai_os_version :: string
  ai_agent_version :: string
  ai_ip_address :: string
  ai_last_heartbeat_at :: "string option"
  ai_registered_at :: string
  ai_status :: agent_status

definition row_to_agent :: "agent_row \<Rightarrow> string + agent_info" where
  "row_to_agent r =
     (case agent_status_of (ar_status r) of
        Inl e \<Rightarrow> Inl e
      | Inr status \<Rightarrow> Inr
          \<lparr>ai_agent_id = ar_agent_id r, ai_hostname = ar_hostname r, ai_os_version = ar_os_version r,
           ai_agent_version = ar_agent_version r, ai_ip_address = ar_ip_address r,
           ai_last_heartbeat_at = ar_last_heartbeat_at r, ai_registered_at = ar_registered_at r,
           ai_status = status\<rparr>)"

definition register_agent ::
  "io_error \<Rightarrow> string \<Rightarrow> agent_registration \<Rightarrow> server_db \<Rightarrow> server_db \<times> (string + unit)" where
  "register_agent io now registration db =
     (case io of
        Some e \<Rightarrow> (db, Inl e)
      | None \<Rightarrow>
          if reg_uuid registration \<in> ar_agent_id ` set (db_agents db)
          then (db, Inl ''UNIQUE constraint failed: agents.agent_id'')
          else
            (db\<lparr>db_agents := db_agents db @
               [\<lparr>ar_agent_id = reg_uuid registration,
                 ar_hostname = hi_hostname (reg_host_info registration),
                 ar_os_version = hi_os_version (reg_host_info registration),
                 ar_agent_version = hi_agent_version (reg_host_info registration),
                 ar_ip_address =
                   (case hi_ip_address (reg_host_info registration) of Some ip \<Rightarrow> ip | None \<Rightarrow> []),
                 ar_last_heartbeat_at = Some now, ar_registered_at = now,
                 ar_status = agent_status_str Online\<rparr>]\<rparr>, Inr ()))"

text \<open>The rows of a query are collected: the first row that does not convert is the error of the query.\<close>

fun collect_rows :: "('r \<Rightarrow> string + 'a) \<Rightarrow> 'r list \<Rightarrow> string + 'a list" where
  "collect_rows f [] = Inr []"
| "collect_rows f (r # rs) =
     (case f r of
        Inl e \<Rightarrow> Inl e
      | Inr a \<Rightarrow> (case collect_rows f rs of Inl e \<Rightarrow> Inl e | Inr as \<Rightarrow> Inr (a # as)))"

definition get_all_agents :: "io_error \<Rightarrow> server_db \<Rightarrow> string + agent_info list" where
  "get_all_agents io db = (case io of Some e \<Rightarrow> Inl e | None \<Rightarrow> collect_rows row_to_agent (db_agents db))"

definition get_agent_by_id :: "io_error \<Rightarrow> string \<Rightarrow> server_db \<Rightarrow> string + agent_info option" where
  "get_agent_by_id io agent_id db =
     (case io of
        Some e \<Rightarrow> Inl e
      | None \<Rightarrow>
          (case find (\<lambda>r. ar_agent_id r = agent_id) (db_agents db) of
             None \<Rightarrow> Inr None
           | Some r \<Rightarrow> (case row_to_agent r of Inl e \<Rightarrow> Inl e | Inr a \<Rightarrow> Inr (Some a))))"

definition update_heartbeat ::
  "io_error \<Rightarrow> string \<Rightarrow> string \<Rightarrow> server_db \<Rightarrow> server_db \<times> (string + unit)" where
  "update_heartbeat io now agent_id db =
     (case io of
        Some e \<Rightarrow> (db, Inl e)
      | None \<Rightarrow>
          (db\<lparr>db_agents := map (\<lambda>r. if ar_agent_id r = agent_id
                 then r\<lparr>ar_last_heartbeat_at := Some now, ar_status := agent_status_str Online\<rparr> else r)
                 (db_agents db)\<rparr>, Inr ()))"

text \<open>
  \<open>datetime\<close> is SQLite's function: the time a text stands for, to the second, or NULL. A comparison
  with NULL is not true.
\<close>

definition last_seen :: "(string \<Rightarrow> int option) \<Rightarrow> agent_row \<Rightarrow> int option" where
  "last_seen datetime r =
     (case Option.bind (ar_last_heartbeat_at r) datetime of
        Some t \<Rightarrow> Some t
      | None \<Rightarrow> datetime (ar_registered_at r))"

definition is_silent :: "(string \<Rightarrow> int option) \<Rightarrow> string \<Rightarrow> agent_row \<Rightarrow> bool" where
  "is_silent datetime cutoff r =
     (case (last_seen datetime r, datetime cutoff) of (Some t, Some c) \<Rightarrow> t < c | _ \<Rightarrow> False)"

text \<open>\<open>cutoff\<close> is the text of the current time less the timeout.\<close>

definition mark_stale_agents_offline ::
  "io_error \<Rightarrow> (string \<Rightarrow> int option) \<Rightarrow> string \<Rightarrow> server_db \<Rightarrow> server_db \<times> (string + nat)" where
  "mark_stale_agents_offline io datetime cutoff db =
     (case io of
        Some e \<Rightarrow> (db, Inl e)
      | None \<Rightarrow>
          (let hit = (\<lambda>r. ar_status r = ''online'' \<and> is_silent datetime cutoff r) in
           (db\<lparr>db_agents := map (\<lambda>r. if hit r then r\<lparr>ar_status := ''offline''\<rparr> else r) (db_agents db)\<rparr>,
            Inr (length (filter hit (db_agents db))))))"

subsection \<open>Commands\<close>

datatype cmd_status = Pending | Delivered | Completed

definition cmd_status_str :: "cmd_status \<Rightarrow> string" where
  "cmd_status_str s = (case s of Pending \<Rightarrow> ''pending'' | Delivered \<Rightarrow> ''delivered'' | Completed \<Rightarrow> ''completed'')"

definition cmd_status_of :: "string \<Rightarrow> string + cmd_status" where
  "cmd_status_of v =
     (let l = to_lowercase v in
      if l = ''pending'' then Inr Pending else if l = ''delivered'' then Inr Delivered
      else if l = ''completed'' then Inr Completed else Inl (''Unknown status: '' @ v))"

lemma cmd_status_roundtrip [simp]: "cmd_status_of (cmd_status_str s) = Inr s"
  by (induction s; code_simp)

text \<open>A status is behind another when a command comes to it later.\<close>

fun cmd_status_rank :: "cmd_status \<Rightarrow> nat" where
  "cmd_status_rank Pending = 0"
| "cmd_status_rank Delivered = 1"
| "cmd_status_rank Completed = 2"

lemma cmd_status_rank_inj: "cmd_status_rank a = cmd_status_rank b \<Longrightarrow> a = b"
  by (cases a; cases b) simp_all

instantiation cmd_status :: linorder
begin

definition less_eq_cmd_status :: "cmd_status \<Rightarrow> cmd_status \<Rightarrow> bool" where
  "less_eq_cmd_status a b \<longleftrightarrow> cmd_status_rank a \<le> cmd_status_rank b"

definition less_cmd_status :: "cmd_status \<Rightarrow> cmd_status \<Rightarrow> bool" where
  "less_cmd_status a b \<longleftrightarrow> cmd_status_rank a < cmd_status_rank b"

instance
  by standard (auto simp: less_eq_cmd_status_def less_cmd_status_def intro: cmd_status_rank_inj)

end

lemma cmd_status_le [simp]: "Pending \<le> s" "s \<le> Completed" "Delivered \<le> s \<longleftrightarrow> s \<noteq> Pending" for s :: cmd_status
  by (cases s; simp add: less_eq_cmd_status_def)+

record pending_command =
  pc_command_id :: string
  pc_command_type :: string
  pc_payload_json :: "string option"

definition get_pending_commands :: "io_error \<Rightarrow> string \<Rightarrow> server_db \<Rightarrow> string + pending_command list" where
  "get_pending_commands io agent_id db =
     (case io of
        Some e \<Rightarrow> Inl e
      | None \<Rightarrow> Inr
          (map (\<lambda>r. \<lparr>pc_command_id = cr_command_id r, pc_command_type = cr_command_type r,
                     pc_payload_json = cr_payload_json r\<rparr>)
             (sort_key cr_created_at
                (filter (\<lambda>r. cr_agent_id r = agent_id \<and> cr_status r = cmd_status_str Pending)
                   (db_commands db)))))"

definition mark_command_delivered ::
  "io_error \<Rightarrow> string \<Rightarrow> string \<Rightarrow> server_db \<Rightarrow> server_db \<times> (string + unit)" where
  "mark_command_delivered io now command_id db =
     (case io of
        Some e \<Rightarrow> (db, Inl e)
      | None \<Rightarrow>
          (db\<lparr>db_commands := map (\<lambda>r. if cr_command_id r = command_id
                 then r\<lparr>cr_status := cmd_status_str Delivered, cr_delivered_at := Some now\<rparr> else r)
                 (db_commands db)\<rparr>, Inr ()))"

definition complete_command ::
  "io_error \<Rightarrow> string \<Rightarrow> string \<Rightarrow> server_db \<Rightarrow> server_db \<times> (string + unit)" where
  "complete_command io now command_id db =
     (case io of
        Some e \<Rightarrow> (db, Inl e)
      | None \<Rightarrow>
          (db\<lparr>db_commands := map (\<lambda>r. if cr_command_id r = command_id
                 then r\<lparr>cr_status := cmd_status_str Completed, cr_acked_at := Some now\<rparr> else r)
                 (db_commands db)\<rparr>, Inr ()))"

subsection \<open>Telemetry\<close>

record telemetry_list_item =
  tl_event_id :: string
  tl_agent_id :: string
  tl_agent_hostname :: "string option"
  tl_event_type :: string
  tl_occurred_at :: string
  tl_payload_json :: string

text \<open>
  \<open>INSERT OR IGNORE\<close>: a row whose key is taken is skipped; a broken foreign key is an error all the
  same. \<open>event_json\<close> is \<open>serde_json::to_string\<close>, \<open>rfc3339\<close> the text of a time, \<open>now\<close> that of each
  insertion. An error leaves the transaction without a commit, which rolls it back.
\<close>

definition telemetry_row_of ::
  "(instant \<Rightarrow> string) \<Rightarrow> string \<Rightarrow> string \<Rightarrow> telemetry_event \<Rightarrow> string \<Rightarrow> telemetry_row" where
  "telemetry_row_of rfc3339 now agent_id e payload_json =
     \<lparr>tr_event_id = event_id e, tr_agent_id = agent_id, tr_event_type = event_type e,
      tr_occurred_at = rfc3339 (occurred_at e), tr_ingested_at = now, tr_payload_json = payload_json\<rparr>"

definition insert_or_ignore :: "telemetry_row \<Rightarrow> server_db \<Rightarrow> string + (server_db \<times> nat)" where
  "insert_or_ignore row db =
     (if tr_event_id row \<in> tr_event_id ` set (db_telemetry db) then Inr (db, 0)
      else if db_foreign_keys db \<and> tr_agent_id row \<notin> ar_agent_id ` set (db_agents db)
      then Inl ''FOREIGN KEY constraint failed''
      else Inr (db\<lparr>db_telemetry := db_telemetry db @ [row]\<rparr>, 1))"

fun insert_events_tx ::
  "(telemetry_event \<Rightarrow> string + string) \<Rightarrow> (instant \<Rightarrow> string) \<Rightarrow> string \<Rightarrow> string
     \<Rightarrow> telemetry_event list \<Rightarrow> server_db \<Rightarrow> string + (server_db \<times> nat)" where
  "insert_events_tx event_json rfc3339 now agent_id [] db = Inr (db, 0)"
| "insert_events_tx event_json rfc3339 now agent_id (e # es) db =
     (case event_json e of
        Inl err \<Rightarrow> Inl err
      | Inr payload_json \<Rightarrow>
          (case insert_or_ignore (telemetry_row_of rfc3339 now agent_id e payload_json) db of
             Inl err \<Rightarrow> Inl err
           | Inr (db', rows) \<Rightarrow>
               (case insert_events_tx event_json rfc3339 now agent_id es db' of
                  Inl err \<Rightarrow> Inl err
                | Inr (db'', inserted) \<Rightarrow> Inr (db'', rows + inserted))))"

definition insert_events ::
  "io_error \<Rightarrow> (telemetry_event \<Rightarrow> string + string) \<Rightarrow> (instant \<Rightarrow> string) \<Rightarrow> string \<Rightarrow> string
     \<Rightarrow> telemetry_event list \<Rightarrow> server_db \<Rightarrow> server_db \<times> (string + nat)" where
  "insert_events io event_json rfc3339 now agent_id events db =
     (case io of
        Some e \<Rightarrow> (db, Inl e)
      | None \<Rightarrow>
          (case insert_events_tx event_json rfc3339 now agent_id events db of
             Inl e \<Rightarrow> (db, Inl e)
           | Inr (db', inserted) \<Rightarrow> (db', Inr inserted)))"

text \<open>\<open>LEFT JOIN agents\<close>, then \<open>ORDER BY datetime(occurred_at) DESC\<close> (NULL last) and \<open>LIMIT\<close>.\<close>

definition telemetry_item :: "server_db \<Rightarrow> telemetry_row \<Rightarrow> telemetry_list_item" where
  "telemetry_item db r =
     \<lparr>tl_event_id = tr_event_id r, tl_agent_id = tr_agent_id r,
      tl_agent_hostname = map_option ar_hostname (find (\<lambda>a. ar_agent_id a = tr_agent_id r) (db_agents db)),
      tl_event_type = tr_event_type r, tl_occurred_at = tr_occurred_at r,
      tl_payload_json = tr_payload_json r\<rparr>"

definition newest_first :: "(string \<Rightarrow> int option) \<Rightarrow> telemetry_row list \<Rightarrow> telemetry_row list" where
  "newest_first datetime rows = rev (sort_key (\<lambda>r. datetime (tr_occurred_at r)) (rev rows))"

definition get_recent_events ::
  "io_error \<Rightarrow> (string \<Rightarrow> int option) \<Rightarrow> nat \<Rightarrow> server_db \<Rightarrow> string + telemetry_list_item list" where
  "get_recent_events io datetime limit db =
     (case io of
        Some e \<Rightarrow> Inl e
      | None \<Rightarrow> Inr (map (telemetry_item db) (take limit (newest_first datetime (db_telemetry db)))))"

definition get_recent_events_for_agent ::
  "io_error \<Rightarrow> (string \<Rightarrow> int option) \<Rightarrow> string \<Rightarrow> nat \<Rightarrow> server_db \<Rightarrow> string + telemetry_list_item list" where
  "get_recent_events_for_agent io datetime agent_id limit db =
     (case io of
        Some e \<Rightarrow> Inl e
      | None \<Rightarrow> Inr (map (telemetry_item db)
          (take limit (newest_first datetime (filter (\<lambda>r. tr_agent_id r = agent_id) (db_telemetry db))))))"

subsection \<open>Configuration\<close>

definition fetch_persisted_config :: "io_error \<Rightarrow> server_db \<Rightarrow> string option" where
  "fetch_persisted_config io db = (case io of Some _ \<Rightarrow> None | None \<Rightarrow> db_config db)"

definition persist_config :: "io_error \<Rightarrow> string \<Rightarrow> server_db \<Rightarrow> server_db \<times> (string + unit)" where
  "persist_config io registration_secret db =
     (case io of
        Some e \<Rightarrow> (db, Inl e)
      | None \<Rightarrow> (db\<lparr>db_config := Some registration_secret\<rparr>, Inr ()))"

end
