(* ===== verification/Server_Routes.thy ===== *)
theory Server_Routes
  imports Server_Db
begin

text \<open>
  The server's API: \<open>config.rs\<close>, \<open>state.rs\<close>, \<open>routes/api.rs\<close> and the parts of \<open>main.rs\<close> that are not the
  set-up of the web server. A handler takes the environment, the request and the state and gives the
  new state and the response.
\<close>

subsection \<open>Configuration\<close>

definition SERVER_PORT :: u16 where "SERVER_PORT = 80"
definition SERVER_INTERFACE :: "u8 list" where "SERVER_INTERFACE = [0, 0, 0, 0]"
definition AGENT_PSK_server :: string where "AGENT_PSK_server = ''galatea_secret''"
definition HEARTBEAT_INTERVAL :: int where "HEARTBEAT_INTERVAL = 30 * 10 ^ 9"
definition AGENT_OFFLINE_TIMEOUT :: int where "AGENT_OFFLINE_TIMEOUT = 30 * 3 * 10 ^ 9"

subsection \<open>The application context\<close>

text \<open>
  \<open>ss_context\<close> is the secret of the global context once it is set, \<open>ss_startup\<close> the startup configuration:
  whether the database path is valid UTF-8, and the port.
\<close>

record startup_config =
  su_db_path :: "string option"
  su_port :: u16

record server_state =
  ss_db :: server_db
  ss_context :: "string option"
  ss_startup :: "startup_config option"

text \<open>
  What the outside gives a request: the time, the error of each database access of the request, whether
  the database opens, a generated passphrase, and the functions of the libraries: the text of a time,
  SQLite's \<open>datetime\<close>, the printing of an event and the parsing of a payload.
\<close>

datatype json = JNull | JString string | JNat nat | JOther string | JArray "json list" | JObject "(string \<times> json) list"

record server_env =
  se_now :: instant
  se_io :: "nat \<Rightarrow> io_error"
  se_open :: io_error
  se_passphrase :: string
  se_rfc3339 :: "instant \<Rightarrow> string"
  se_datetime :: "string \<Rightarrow> int option"
  se_event_json :: "telemetry_event \<Rightarrow> string + string"
  se_parse_json :: "string \<Rightarrow> json option"

definition now_text :: "server_env \<Rightarrow> string" where "now_text env = se_rfc3339 env (se_now env)"

text \<open>The words are \<open>list\<close>, \<open>index i\<close> the random index of the word \<open>i\<close>.\<close>

fun passphrase_words :: "string list \<Rightarrow> (nat \<Rightarrow> nat) \<Rightarrow> nat \<Rightarrow> nat \<Rightarrow> string \<Rightarrow> string" where
  "passphrase_words list index i 0 passphrase = passphrase"
| "passphrase_words list index i (Suc k) passphrase =
     passphrase_words list index (Suc i) k
       ((if 0 < i then passphrase @ ''-'' else passphrase) @ list ! index i)"

definition generate_passphrase :: "string list \<Rightarrow> (nat \<Rightarrow> nat) \<Rightarrow> nat \<Rightarrow> string" where
  "generate_passphrase lines index len =
     (if len = 0 then []
      else
        (let list = filter (\<lambda>line. line \<noteq> []) lines in
         if list = [] then [] else passphrase_words list index 0 len []))"

definition load_or_init :: "io_error \<Rightarrow> io_error \<Rightarrow> string \<Rightarrow> server_db \<Rightarrow> server_db \<times> string" where
  "load_or_init io_fetch io_persist passphrase db =
     (case fetch_persisted_config io_fetch db of
        Some config \<Rightarrow> (db, config)
      | None \<Rightarrow> (fst (persist_config io_persist passphrase db), passphrase))"

definition ensure_global :: "server_env \<Rightarrow> server_state \<Rightarrow> server_state \<times> (string + string)" where
  "ensure_global env s =
     (case ss_context s of
        Some context \<Rightarrow> (s, Inr context)
      | None \<Rightarrow>
          (case ss_startup s of
             None \<Rightarrow> (s, Inl ''Startup config has not been initialized'')
           | Some startup \<Rightarrow>
               (case su_db_path startup of
                  None \<Rightarrow> (s, Inl ''Startup DB path is not valid UTF-8'')
                | Some _ \<Rightarrow>
                    (case se_open env of
                       Some e \<Rightarrow> (s, Inl (''Failed to initialize DB pool: '' @ e))
                     | None \<Rightarrow>
                         (let (db, context) = load_or_init (se_io env 0) (se_io env 1) (se_passphrase env) (ss_db s) in
                          (s\<lparr>ss_db := db, ss_context := Some context\<rparr>, Inr context))))))"

definition set_global :: "string \<Rightarrow> server_state \<Rightarrow> server_state \<times> (string + unit)" where
  "set_global context s =
     (case ss_context s of
        Some _ \<Rightarrow> (s, Inl ''Global AppContext is already initialized'')
      | None \<Rightarrow> (s\<lparr>ss_context := Some context\<rparr>, Inr ()))"

definition set_startup_config :: "startup_config \<Rightarrow> server_state \<Rightarrow> server_state \<times> (string + unit)" where
  "set_startup_config startup s =
     (case ss_startup s of
        Some _ \<Rightarrow> (s, Inl ''Startup config is already initialized'')
      | None \<Rightarrow> (s\<lparr>ss_startup := Some startup\<rparr>, Inr ()))"

subsection \<open>Responses\<close>

definition OK :: nat where "OK = 200"
definition CREATED :: nat where "CREATED = 201"
definition UNAUTHORIZED :: nat where "UNAUTHORIZED = 401"
definition INTERNAL_SERVER_ERROR :: nat where "INTERNAL_SERVER_ERROR = 500"
definition SERVICE_UNAVAILABLE :: nat where "SERVICE_UNAVAILABLE = 503"

type_synonym response = "nat \<times> json"

definition error_body :: "string \<Rightarrow> json" where
  "error_body e = JObject [(''error'', JString e)]"

definition service_unavailable :: "string \<Rightarrow> response" where
  "service_unavailable msg =
     (SERVICE_UNAVAILABLE, JObject [(''error'', JString ''Service unavailable''), (''details'', JString msg)])"

definition validate_psk :: "agent_authentication \<Rightarrow> bool" where
  "validate_psk auth \<longleftrightarrow> au_psk auth = AGENT_PSK_server"

text \<open>\<open>context_or_503\<close>, then the handler with the context.\<close>

definition with_context :: "server_env \<Rightarrow> (server_state \<Rightarrow> server_state \<times> response) \<Rightarrow> server_state \<Rightarrow> server_state \<times> response" where
  "with_context env handler s =
     (case ensure_global env s of
        (s', Inl msg) \<Rightarrow> (s', service_unavailable msg)
      | (s', Inr _) \<Rightarrow> handler s')"

subsection \<open>Handlers\<close>

text \<open>The accesses of a handler to the database are numbered from 2 on.\<close>

definition handle_register :: "server_env \<Rightarrow> agent_registration \<Rightarrow> server_state \<Rightarrow> server_state \<times> response" where
  "handle_register env registration = with_context env (\<lambda>s.
     if \<not> validate_psk (expose_secret (reg_auth registration)) then (s, UNAUTHORIZED, error_body ''Invalid PSK'')
     else
       case register_agent (se_io env 2) (now_text env) registration (ss_db s) of
         (db, Inl e) \<Rightarrow>
           (s\<lparr>ss_db := db\<rparr>, INTERNAL_SERVER_ERROR, error_body (''Failed to register agent: '' @ e))
       | (db, Inr _) \<Rightarrow>
           (s\<lparr>ss_db := db\<rparr>, CREATED, JObject [(''agent_id'', JString (reg_uuid registration))]))"

fun mark_all_delivered :: "server_env \<Rightarrow> nat \<Rightarrow> pending_command list \<Rightarrow> server_db \<Rightarrow> server_db" where
  "mark_all_delivered env k [] db = db"
| "mark_all_delivered env k (cmd # cmds) db =
     mark_all_delivered env (Suc k) cmds
       (fst (mark_command_delivered (se_io env k) (now_text env) (pc_command_id cmd) db))"

definition command_json :: "(string \<Rightarrow> json option) \<Rightarrow> pending_command \<Rightarrow> json" where
  "command_json parse_json c = JObject
     [(''command_id'', JString (pc_command_id c)), (''command_type'', JString (pc_command_type c)),
      (''payload'', case Option.bind (pc_payload_json c) parse_json of Some v \<Rightarrow> v | None \<Rightarrow> JNull)]"

definition heartbeat_body :: "server_env \<Rightarrow> pending_command list \<Rightarrow> json" where
  "heartbeat_body env commands = JObject
     [(''server_time'', JString (now_text env)),
      (''pending_commands'', JArray (map (command_json (se_parse_json env)) commands))]"

definition handle_heartbeat ::
  "server_env \<Rightarrow> string \<Rightarrow> agent_heartbeat \<Rightarrow> server_state \<Rightarrow> server_state \<times> response" where
  "handle_heartbeat env path_id body = with_context env (\<lambda>s.
     if \<not> validate_psk (expose_secret (hb_auth body)) then (s, UNAUTHORIZED, error_body ''Invalid PSK'')
     else
       let agent_id = hb_uuid body in
       if path_id \<noteq> agent_id then (s, UNAUTHORIZED, error_body ''Invalid Json-Body'')
       else
         case update_heartbeat (se_io env 2) (now_text env) agent_id (ss_db s) of
           (db, Inl e) \<Rightarrow>
             (s\<lparr>ss_db := db\<rparr>, INTERNAL_SERVER_ERROR, error_body (''Failed to update heartbeat: '' @ e))
         | (db, Inr _) \<Rightarrow>
             (case get_pending_commands (se_io env 3) agent_id db of
                Inl e \<Rightarrow>
                  (s\<lparr>ss_db := db\<rparr>, INTERNAL_SERVER_ERROR,
                   error_body (''Failed to get pending commands: '' @ e))
              | Inr commands \<Rightarrow>
                  (s\<lparr>ss_db := mark_all_delivered env 4 commands db\<rparr>, OK, heartbeat_body env commands)))"

definition handle_telemetry ::
  "server_env \<Rightarrow> string \<Rightarrow> agent_telemetry \<Rightarrow> server_state \<Rightarrow> server_state \<times> response" where
  "handle_telemetry env path_id body = with_context env (\<lambda>s.
     if \<not> validate_psk (expose_secret (at_auth body)) then (s, UNAUTHORIZED, error_body ''Invalid PSK'')
     else
       let agent_id = at_uuid body in
       if path_id \<noteq> agent_id then (s, UNAUTHORIZED, error_body ''Invalid Json-Body'')
       else
         case insert_events (se_io env 2) (se_event_json env) (se_rfc3339 env) (now_text env) agent_id
                (at_events body) (ss_db s) of
           (db, Inl e) \<Rightarrow>
             (s\<lparr>ss_db := db\<rparr>, INTERNAL_SERVER_ERROR, error_body (''Failed to store telemetry events: '' @ e))
         | (db, Inr accepted) \<Rightarrow>
             (s\<lparr>ss_db := db\<rparr>, OK,
              JObject [(''accepted'', JNat accepted), (''rejected'', JNat (length (at_events body) - accepted))]))"

definition handle_command_ack ::
  "server_env \<Rightarrow> string \<Rightarrow> string \<Rightarrow> agent_command_ack \<Rightarrow> server_state \<Rightarrow> server_state \<times> response" where
  "handle_command_ack env path_id path_cmd_id body = with_context env (\<lambda>s.
     if \<not> validate_psk (expose_secret (ack_auth body)) then (s, UNAUTHORIZED, error_body ''Invalid PSK'')
     else
       let agent_id = ack_uuid body; body_cmd_id = ack_command_id body in
       if path_id \<noteq> agent_id \<or> path_cmd_id \<noteq> body_cmd_id then (s, UNAUTHORIZED, error_body ''Invalid Json-Body'')
       else
         case complete_command (se_io env 2) (now_text env) path_cmd_id (ss_db s) of
           (db, Inl e) \<Rightarrow>
             (s\<lparr>ss_db := db\<rparr>, INTERNAL_SERVER_ERROR, error_body (''Failed to register agent: '' @ e))
         | (db, Inr _) \<Rightarrow> (s\<lparr>ss_db := db\<rparr>, OK, JString []))"

text \<open>A tick of the monitor of silent agents.\<close>

definition stale_agent_tick :: "server_env \<Rightarrow> server_state \<Rightarrow> server_state" where
  "stale_agent_tick env s =
     (case ensure_global env s of
        (s', Inl _) \<Rightarrow> s'
      | (s', Inr _) \<Rightarrow>
          s'\<lparr>ss_db := fst (mark_stale_agents_offline (se_io env 2) (se_datetime env)
                 (se_rfc3339 env (se_now env - AGENT_OFFLINE_TIMEOUT)) (ss_db s'))\<rparr>)"

subsection \<open>Requests\<close>

datatype api_request =
    Register agent_registration
  | Heartbeat string agent_heartbeat
  | Telemetry string agent_telemetry
  | CommandAck string string agent_command_ack

fun handle_request :: "server_env \<Rightarrow> api_request \<Rightarrow> server_state \<Rightarrow> server_state \<times> response" where
  "handle_request env (Register registration) = handle_register env registration"
| "handle_request env (Heartbeat path_id body) = handle_heartbeat env path_id body"
| "handle_request env (Telemetry path_id body) = handle_telemetry env path_id body"
| "handle_request env (CommandAck path_id cmd_id body) = handle_command_ack env path_id cmd_id body"

text \<open>The routes of \<open>main\<close>: the method, the segments of the path, and where they lead.\<close>

datatype http_method = GET | POST

datatype endpoint =
    Dashboard_Page
  | Agent_Page string
  | Events_Page
  | Register_Api
  | Heartbeat_Api string
  | Telemetry_Api string
  | Ack_Api string string
  | Static_File "string list"

fun route :: "http_method \<Rightarrow> string list \<Rightarrow> endpoint option" where
  "route method [] = (if method = GET then Some Dashboard_Page else None)"
| "route method [a] = (if method = GET \<and> a = ''events'' then Some Events_Page
     else if a = ''static'' \<and> method = GET then Some (Static_File []) else None)"
| "route method [a, b] =
     (if a = ''static'' then (if method = GET then Some (Static_File [b]) else None)
      else if a = ''agents'' \<and> method = GET then Some (Agent_Page b) else None)"
| "route method (a # b # c # rest) =
     (if a = ''static'' then (if method = GET then Some (Static_File (b # c # rest)) else None)
      else if a = ''api'' \<and> b = ''v1'' \<and> c = ''agents'' \<and> method = POST then
        (case rest of
           [d] \<Rightarrow> if d = ''register'' then Some Register_Api else None
         | [d, e] \<Rightarrow>
             if e = ''heartbeat'' then Some (Heartbeat_Api d)
             else if e = ''telemetry'' then Some (Telemetry_Api d) else None
         | [d, e, f, g] \<Rightarrow> if e = ''commands'' \<and> g = ''ack'' then Some (Ack_Api d f) else None
         | _ \<Rightarrow> None)
      else None)"

text \<open>The wait before the server is bound again, after so many failures.\<close>

fun backoff_secs :: "nat \<Rightarrow> nat" where
  "backoff_secs 0 = 1"
| "backoff_secs (Suc n) = min (backoff_secs n * 2) 30"

subsection \<open>Runs\<close>

text \<open>Requests one after the other, each in its own environment.\<close>

fun server_run :: "(server_env \<times> api_request) list \<Rightarrow> server_state \<Rightarrow> server_state \<times> response list" where
  "server_run [] s = (s, [])"
| "server_run ((env, req) # reqs) s =
     (let (s', r) = handle_request env req s; (s'', rs) = server_run reqs s' in (s'', r # rs))"

text \<open>A request is authorized when it carries the key and its path agrees with its body.\<close>

fun authorized :: "api_request \<Rightarrow> bool" where
  "authorized (Register registration) = validate_psk (expose_secret (reg_auth registration))"
| "authorized (Heartbeat path_id body) =
     (validate_psk (expose_secret (hb_auth body)) \<and> path_id = hb_uuid body)"
| "authorized (Telemetry path_id body) =
     (validate_psk (expose_secret (at_auth body)) \<and> path_id = at_uuid body)"
| "authorized (CommandAck path_id cmd_id body) =
     (validate_psk (expose_secret (ack_auth body)) \<and> path_id = ack_uuid body \<and> cmd_id = ack_command_id body)"

lemmas handler_defs = handle_register_def handle_heartbeat_def handle_telemetry_def handle_command_ack_def
lemmas status_defs = OK_def CREATED_def UNAUTHORIZED_def INTERNAL_SERVER_ERROR_def SERVICE_UNAVAILABLE_def

lemma with_context_ready: "ss_context s = Some c \<Longrightarrow> with_context env h s = h s"
  by (simp add: with_context_def ensure_global_def)

text \<open>The handlers with a context: the new database and the answer, each from the database operation.\<close>

lemma register_ready:
  "ss_context s = Some c \<Longrightarrow> authorized (Register reg) \<Longrightarrow>
   handle_register env reg s =
     (let (db, r) = register_agent (se_io env 2) (now_text env) reg (ss_db s) in
      (s\<lparr>ss_db := db\<rparr>,
       case r of Inl e \<Rightarrow> (INTERNAL_SERVER_ERROR, error_body (''Failed to register agent: '' @ e))
       | Inr _ \<Rightarrow> (CREATED, JObject [(''agent_id'', JString (reg_uuid reg))])))"
  by (simp add: handle_register_def with_context_ready split: prod.split sum.split)

lemma heartbeat_ready:
  "ss_context s = Some c \<Longrightarrow> authorized (Heartbeat path_id body) \<Longrightarrow>
   handle_heartbeat env path_id body s =
     (let (db, r) = update_heartbeat (se_io env 2) (now_text env) path_id (ss_db s);
          cmds = get_pending_commands (se_io env 3) path_id db in
      (s\<lparr>ss_db := (case (r, cmds) of (Inr _, Inr commands) \<Rightarrow> mark_all_delivered env 4 commands db | _ \<Rightarrow> db)\<rparr>,
       case (r, cmds) of
         (Inl e, _) \<Rightarrow> (INTERNAL_SERVER_ERROR, error_body (''Failed to update heartbeat: '' @ e))
       | (_, Inl e) \<Rightarrow> (INTERNAL_SERVER_ERROR, error_body (''Failed to get pending commands: '' @ e))
       | (_, Inr commands) \<Rightarrow> (OK, heartbeat_body env commands)))"
  by (simp add: handle_heartbeat_def with_context_ready Let_def split: prod.split sum.split)

lemma telemetry_ready:
  "ss_context s = Some c \<Longrightarrow> authorized (Telemetry path_id body) \<Longrightarrow>
   handle_telemetry env path_id body s =
     (let (db, r) = insert_events (se_io env 2) (se_event_json env) (se_rfc3339 env) (now_text env) path_id
                (at_events body) (ss_db s) in
      (s\<lparr>ss_db := db\<rparr>,
       case r of Inl e \<Rightarrow> (INTERNAL_SERVER_ERROR, error_body (''Failed to store telemetry events: '' @ e))
       | Inr accepted \<Rightarrow> (OK,
           JObject [(''accepted'', JNat accepted), (''rejected'', JNat (length (at_events body) - accepted))])))"
  by (simp add: handle_telemetry_def with_context_ready Let_def split: prod.split sum.split)

lemma ack_ready:
  "ss_context s = Some c \<Longrightarrow> authorized (CommandAck path_id cmd_id body) \<Longrightarrow>
   handle_command_ack env path_id cmd_id body s =
     (let (db, r) = complete_command (se_io env 2) (now_text env) cmd_id (ss_db s) in
      (s\<lparr>ss_db := db\<rparr>,
       case r of Inl e \<Rightarrow> (INTERNAL_SERVER_ERROR, error_body (''Failed to register agent: '' @ e))
       | Inr _ \<Rightarrow> (OK, JString [])))"
  by (simp add: handle_command_ack_def with_context_ready Let_def split: prod.split sum.split)

lemmas handlers_ready = register_ready heartbeat_ready telemetry_ready ack_ready

lemma unauthorized_rejected:
  "ss_context s = Some c \<Longrightarrow> \<not> authorized req \<Longrightarrow>
     fst (handle_request env req s) = s \<and> fst (snd (handle_request env req s)) = UNAUTHORIZED"
  by (cases req) (auto simp: handler_defs with_context_ready Let_def)

lemma authorized_request:
  assumes "ss_context s = Some c" "authorized req"
  obtains db st body where "handle_request env req s = (s\<lparr>ss_db := db\<rparr>, st, body)" "st \<noteq> UNAUTHORIZED"
proof (cases req)
  case (Register reg)
  then show thesis using that [of "fst (register_agent (se_io env 2) (now_text env) reg (ss_db s))"] assms
    by (cases "snd (register_agent (se_io env 2) (now_text env) reg (ss_db s))")
      (simp_all add: register_ready split_def Let_def status_defs del: authorized.simps)
next
  case (Heartbeat path_id body)
  let ?u = "update_heartbeat (se_io env 2) (now_text env) path_id (ss_db s)"
  let ?p = "get_pending_commands (se_io env 3) path_id (fst ?u)"
  show thesis using that assms unfolding Heartbeat
    by (cases "snd ?u"; cases ?p) (simp_all add: heartbeat_ready split_def Let_def status_defs del: authorized.simps)
next
  case (Telemetry path_id body)
  let ?i = "insert_events (se_io env 2) (se_event_json env) (se_rfc3339 env) (now_text env) path_id
      (at_events body) (ss_db s)"
  show thesis using that assms unfolding Telemetry
    by (cases "snd ?i") (simp_all add: telemetry_ready split_def Let_def status_defs del: authorized.simps)
next
  case (CommandAck path_id cmd_id body)
  show thesis using that assms unfolding CommandAck
    by (cases "snd (complete_command (se_io env 2) (now_text env) cmd_id (ss_db s))")
      (simp_all add: ack_ready split_def Let_def status_defs del: authorized.simps)
qed

lemma authorized_not_rejected:
  assumes "ss_context s = Some c" "authorized req"
  shows "fst (snd (handle_request env req s)) \<noteq> UNAUTHORIZED"
  by (rule authorized_request [OF assms, where env = env]) simp

lemma handle_request_context:
  assumes "ss_context s = Some c"
  shows "ss_context (fst (handle_request env req s)) = Some c"
proof (cases "authorized req")
  case True
  show ?thesis by (rule authorized_request [OF assms True, where env = env]) (simp add: assms)
next
  case False
  then show ?thesis using unauthorized_rejected [OF assms] assms by simp
qed

lemma server_run_Cons_fst:
  "fst (server_run ((env, req) # reqs) s) = fst (server_run reqs (fst (handle_request env req s)))"
  by (simp add: Let_def split: prod.splits)

lemma server_run_Cons_snd:
  "snd (server_run ((env, req) # reqs) s) =
     snd (handle_request env req s) # snd (server_run reqs (fst (handle_request env req s)))"
  by (simp add: Let_def split: prod.splits)

lemmas server_run_Cons = server_run_Cons_fst server_run_Cons_snd

declare server_run.simps(2) [simp del]

lemma server_run_context: "ss_context s = Some c \<Longrightarrow> ss_context (fst (server_run reqs s)) = Some c"
proof (induction reqs arbitrary: s)
  case Nil
  then show ?case by simp
next
  case (Cons r reqs)
  then show ?case using handle_request_context by (cases r) (simp add: server_run_Cons)
qed

text \<open>
  C11. Access control: requests without the key, and those whose path does not agree with their body, do
  nothing. The state after any sequence of requests is the state after its authorized ones alone, and a
  request is answered 401 exactly when it is not authorized.
\<close>

theorem auth_required:
  assumes "ss_context s = Some c"
  shows "fst (server_run reqs s) = fst (server_run (filter (\<lambda>(env, req). authorized req) reqs) s)
     \<and> map (\<lambda>r. fst r = UNAUTHORIZED) (snd (server_run reqs s)) = map (\<lambda>(env, req). \<not> authorized req) reqs"
  using assms
proof (induction reqs arbitrary: s)
  case Nil
  then show ?case by simp
next
  case (Cons r reqs)
  obtain env req where [simp]: "r = (env, req)" by (cases r)
  show ?case
    using Cons.IH [OF handle_request_context [OF Cons.prems, of env req]] unauthorized_rejected [OF Cons.prems, of req env]
      authorized_not_rejected [OF Cons.prems, of req env]
    by (cases "authorized req") (simp_all add: server_run_Cons del: handle_request.simps authorized.simps)
qed

subsection \<open>Commands\<close>

text \<open>The commands that wait, and those that a response hands out.\<close>

definition pending_ids :: "server_db \<Rightarrow> string set" where
  "pending_ids db = cr_command_id ` set (filter (\<lambda>r. cr_status r = cmd_status_str Pending) (db_commands db))"

fun command_id_of :: "json \<Rightarrow> string list" where
  "command_id_of (JObject ((k, JString i) # _)) = (if k = ''command_id'' then [i] else [])"
| "command_id_of _ = []"

fun commands_in :: "response \<Rightarrow> string list" where
  "commands_in (_, JObject [_, (k, JArray cs)]) =
     (if k = ''pending_commands'' then concat (map command_id_of cs) else [])"
| "commands_in _ = []"

definition row_status :: "command_row \<Rightarrow> cmd_status" where
  "row_status r = (if cr_status r = cmd_status_str Completed then Completed
     else if cr_status r = cmd_status_str Delivered then Delivered else Pending)"

lemma cmd_status_str_inject [simp]: "cmd_status_str a = cmd_status_str b \<longleftrightarrow> a = b"
  by (cases a; cases b) (simp_all add: cmd_status_str_def)

lemma commands_in_heartbeat [simp]: "commands_in (st, heartbeat_body env cmds) = map pc_command_id cmds"
  by (induction cmds) (auto simp: heartbeat_body_def command_json_def)

lemma commands_in_error [simp]: "commands_in (st, error_body e) = []"
  by (simp add: error_body_def)

lemma pending_update:
  assumes "\<And>r. cr_command_id (f r) = cr_command_id r" "\<And>r. cr_status (f r) \<noteq> cmd_status_str Pending"
  shows "cr_command_id ` set (filter (\<lambda>r. cr_status r = cmd_status_str Pending)
      (map (\<lambda>r. if cr_command_id r = cid then f r else r) rows))
    = cr_command_id ` set (filter (\<lambda>r. cr_status r = cmd_status_str Pending) rows) - {cid}"
  using assms by (induction rows) auto

lemma pending_mark: "pending_ids (fst (mark_command_delivered io now cid db)) =
    (if io = None then pending_ids db - {cid} else pending_ids db)"
  by (cases io) (simp_all add: mark_command_delivered_def pending_ids_def pending_update del: set_filter set_map)

lemma pending_complete: "pending_ids (fst (complete_command io now cid db)) =
    (if io = None then pending_ids db - {cid} else pending_ids db)"
  by (cases io) (simp_all add: complete_command_def pending_ids_def pending_update del: set_filter set_map)

lemma pending_mark_all:
  "(\<And>k. se_io env k = None) \<Longrightarrow>
     pending_ids (mark_all_delivered env k cmds db) = pending_ids db - pc_command_id ` set cmds"
  by (induction env k cmds db rule: mark_all_delivered.induct) (auto simp: pending_mark)

lemma pending_mark_all_subset: "pending_ids (mark_all_delivered env k cmds db) \<subseteq> pending_ids db"
  by (induction env k cmds db rule: mark_all_delivered.induct) (auto simp: pending_mark split: if_splits)

lemma commands_same_pending: "db_commands db = db_commands db' \<Longrightarrow> pending_ids db = pending_ids db'"
  by (simp add: pending_ids_def)

lemma db_commands_frame [simp]:
  "db_commands (fst (register_agent io now reg db)) = db_commands db"
  "db_commands (fst (update_heartbeat io now aid db)) = db_commands db"
  "db_commands (fst (mark_stale_agents_offline io dt c db)) = db_commands db"
  "db_commands (fst (persist_config io p db)) = db_commands db"
  by (simp_all add: register_agent_def update_heartbeat_def mark_stale_agents_offline_def persist_config_def Let_def
      split: option.splits)

lemma insert_or_ignore_frame:
  "insert_or_ignore row db = Inr (db', n) \<Longrightarrow>
     db_commands db' = db_commands db \<and> db_agents db' = db_agents db \<and> db_foreign_keys db' = db_foreign_keys db"
  by (auto simp: insert_or_ignore_def split: if_splits)

lemma insert_events_tx_frame:
  "insert_events_tx ej rf now aid es db = Inr (db', n) \<Longrightarrow>
     db_commands db' = db_commands db \<and> db_agents db' = db_agents db \<and> db_foreign_keys db' = db_foreign_keys db"
proof (induction es arbitrary: db db' n)
  case Nil
  then show ?case by simp
next
  case (Cons e es)
  then obtain payload d rows m where ins: "ej e = Inr payload"
      "insert_or_ignore (telemetry_row_of rf now aid e payload) db = Inr (d, rows)"
      "insert_events_tx ej rf now aid es d = Inr (db', m)"
    by (auto split: sum.splits prod.splits)
  show ?case using Cons.IH [OF ins(3)] insert_or_ignore_frame [OF ins(2)] by simp
qed

lemma insert_events_frame [simp]:
  "db_commands (fst (insert_events io ej rf now aid es db)) = db_commands db"
  "db_agents (fst (insert_events io ej rf now aid es db)) = db_agents db"
  by (auto simp: insert_events_def split: option.splits sum.splits dest: insert_events_tx_frame)

end
