(* ===== verification/Server_Lifecycle.thy ===== *)
theory Server_Lifecycle
  imports Server_Routes
begin

text \<open>
  What the server keeps over any sequence of requests: commands are handed out once and only move
  forward, telemetry that is sent again is not stored again, and an agent is offline when it has been
  silent for the timeout.
\<close>

subsection \<open>Commands move forward\<close>

text \<open>A row of \<open>commands\<close> after a request: only the status and its times change, and the status never goes back.\<close>

definition command_progress :: "command_row \<Rightarrow> command_row \<Rightarrow> bool" where
  "command_progress r r' \<longleftrightarrow> cr_command_id r' = cr_command_id r \<and> cr_agent_id r' = cr_agent_id r
     \<and> cr_command_type r' = cr_command_type r \<and> cr_payload_json r' = cr_payload_json r
     \<and> cr_created_at r' = cr_created_at r \<and> row_status r \<le> row_status r'"

abbreviation commands_progress :: "server_db \<Rightarrow> server_db \<Rightarrow> bool" where
  "commands_progress db db' \<equiv> list_all2 command_progress (db_commands db) (db_commands db')"

lemma command_progress_refl [simp]: "command_progress r r"
  by (simp add: command_progress_def)

lemma command_progress_trans: "command_progress a b \<Longrightarrow> command_progress b c \<Longrightarrow> command_progress a c"
  by (auto simp: command_progress_def)

lemma commands_progress_refl: "commands_progress db db"
  by (simp add: list.rel_refl)

lemma commands_progress_trans: "commands_progress a b \<Longrightarrow> commands_progress b c \<Longrightarrow> commands_progress a c"
  by (rule list_all2_trans [OF command_progress_trans])

lemma commands_progress_ids:
  "list_all2 command_progress rows rows' \<Longrightarrow> map cr_command_id rows' = map cr_command_id rows"
  by (induction rule: list_all2_induct) (auto simp: command_progress_def)

lemma progress_map:
  "(\<And>r. r \<in> set rows \<Longrightarrow> command_progress r (f r)) \<Longrightarrow> list_all2 command_progress rows (map f rows)"
  by (induction rows) auto

lemma row_status_updated [simp]:
  "row_status (r\<lparr>cr_status := cmd_status_str Completed, cr_acked_at := t\<rparr>) = Completed"
  "row_status (r\<lparr>cr_status := cmd_status_str Delivered, cr_delivered_at := t\<rparr>) = Delivered"
  "cr_status r = cmd_status_str Pending \<Longrightarrow> row_status r = Pending"
  by (simp_all add: row_status_def)

lemma complete_progress: "commands_progress db (fst (complete_command io now cid db))"
  by (cases io) (auto simp: complete_command_def command_progress_def commands_progress_refl intro!: progress_map)

text \<open>Marking moves forward the commands that wait; with distinct keys it is only applied to those.\<close>

lemma pending_row:
  assumes "distinct (map cr_command_id rows)" "r \<in> set rows"
    and "cr_command_id r \<in> cr_command_id ` set (filter (\<lambda>r. cr_status r = cmd_status_str Pending) rows)"
  shows "cr_status r = cmd_status_str Pending"
  using assms by (auto simp: distinct_map dest: inj_onD)

lemma mark_progress:
  assumes "distinct (map cr_command_id (db_commands db))" "cid \<in> pending_ids db"
  shows "commands_progress db (fst (mark_command_delivered io now cid db))"
proof (cases io)
  case None
  have "command_progress r (if cr_command_id r = cid
      then r\<lparr>cr_status := cmd_status_str Delivered, cr_delivered_at := Some now\<rparr> else r)"
    if "r \<in> set (db_commands db)" for r
    using pending_row [OF assms(1) that] assms(2) by (auto simp: command_progress_def pending_ids_def)
  then show ?thesis using None by (auto simp: mark_command_delivered_def intro!: progress_map)
next
  case (Some e)
  then show ?thesis by (simp add: mark_command_delivered_def commands_progress_refl)
qed

lemma mark_all_progress:
  assumes "distinct (map cr_command_id (db_commands db))" "distinct (map pc_command_id cmds)"
    and "pc_command_id ` set cmds \<subseteq> pending_ids db"
  shows "commands_progress db (mark_all_delivered env k cmds db)"
  using assms
proof (induction cmds arbitrary: db k)
  case Nil
  then show ?case by (simp add: commands_progress_refl)
next
  case (Cons cmd cmds)
  let ?db = "fst (mark_command_delivered (se_io env k) (now_text env) (pc_command_id cmd) db)"
  have step: "commands_progress db ?db" using Cons.prems by (intro mark_progress) auto
  moreover have "pc_command_id ` set cmds \<subseteq> pending_ids ?db"
  proof -
    have "pc_command_id cmd \<notin> pc_command_id ` set cmds" "pc_command_id ` set cmds \<subseteq> pending_ids db"
      using Cons.prems(2,3) by auto
    then show ?thesis by (simp add: pending_mark subset_Diff_insert)
  qed
  moreover have "distinct (map cr_command_id (db_commands ?db))"
    using commands_progress_ids [OF step] Cons.prems(1) by simp
  ultimately have "commands_progress ?db (mark_all_delivered env (Suc k) cmds ?db)"
    using Cons.IH Cons.prems by simp
  with step show ?case by (simp add: commands_progress_trans)
qed

lemma pending_commands_ids:
  assumes "get_pending_commands io aid db = Inr cmds" "distinct (map cr_command_id (db_commands db))"
  shows "distinct (map pc_command_id cmds)"
    and "pc_command_id ` set cmds = cr_command_id ` {r \<in> set (db_commands db). cr_agent_id r = aid
      \<and> cr_status r = cmd_status_str Pending}"
proof -
  let ?rows = "filter (\<lambda>r. cr_agent_id r = aid \<and> cr_status r = cmd_status_str Pending) (db_commands db)"
  have cmds: "map pc_command_id cmds = map cr_command_id (sort_key cr_created_at ?rows)"
    using assms(1) by (auto simp: get_pending_commands_def split: option.splits)
  have "distinct (map cr_command_id ?rows)" using assms(2) by (rule distinct_map_filter)
  then show "distinct (map pc_command_id cmds)" by (simp add: cmds distinct_map)
  have "pc_command_id ` set cmds = set (map cr_command_id (sort_key cr_created_at ?rows))"
    by (simp flip: cmds)
  then show "pc_command_id ` set cmds = cr_command_id ` {r \<in> set (db_commands db). cr_agent_id r = aid
      \<and> cr_status r = cmd_status_str Pending}" by simp
qed

subsection \<open>One request\<close>

text \<open>
  A request hands out only commands that wait, each once; afterwards none of them waits if the
  database accepted the updates, and no command went back.
\<close>

definition hands_out_once :: "server_env \<Rightarrow> server_db \<Rightarrow> server_db \<Rightarrow> string list \<Rightarrow> bool" where
  "hands_out_once env db db' out \<longleftrightarrow> commands_progress db db' \<and> distinct out \<and> set out \<subseteq> pending_ids db
     \<and> pending_ids db' \<subseteq> pending_ids db \<and> ((\<exists>k. se_io env k \<noteq> None) \<or> pending_ids db' \<inter> set out = {})"

lemma hands_out_nothing: "commands_progress db db' \<Longrightarrow> pending_ids db' \<subseteq> pending_ids db \<Longrightarrow> hands_out_once env db db' []"
  by (simp add: hands_out_once_def)

lemma hands_out_same: "db_commands db' = db_commands db \<Longrightarrow> hands_out_once env db db' []"
  using commands_same_pending [of db' db] by (simp add: hands_out_nothing list.rel_refl)

lemma register_commands:
  assumes "ss_context s = Some c" "authorized (Register reg)"
  shows "commands_in (snd (handle_register env reg s)) = []"
    and "db_commands (ss_db (fst (handle_register env reg s))) = db_commands (ss_db s)"
  by (simp_all add: register_ready [OF assms] split_def Let_def split: sum.split)

lemma telemetry_commands:
  assumes "ss_context s = Some c" "authorized (Telemetry path_id body)"
  shows "commands_in (snd (handle_telemetry env path_id body s)) = []"
    and "db_commands (ss_db (fst (handle_telemetry env path_id body s))) = db_commands (ss_db s)"
  by (simp_all add: telemetry_ready [OF assms] split_def Let_def split: sum.split)

lemma ack_commands:
  assumes "ss_context s = Some c" "authorized (CommandAck path_id cmd_id body)"
  shows "commands_in (snd (handle_command_ack env path_id cmd_id body s)) = []"
    and "ss_db (fst (handle_command_ack env path_id cmd_id body s))
      = fst (complete_command (se_io env 2) (now_text env) cmd_id (ss_db s))"
  by (simp_all add: ack_ready [OF assms] split_def Let_def split: sum.split)

lemma heartbeat_commands:
  assumes ctx: "ss_context s = Some c" and auth: "authorized (Heartbeat path_id body)"
    and ids: "distinct (map cr_command_id (db_commands (ss_db s)))"
  shows "hands_out_once env (ss_db s) (ss_db (fst (handle_heartbeat env path_id body s)))
    (commands_in (snd (handle_heartbeat env path_id body s)))"
proof -
  let ?u = "update_heartbeat (se_io env 2) (now_text env) path_id (ss_db s)"
  let ?p = "get_pending_commands (se_io env 3) path_id (fst ?u)"
  note eq = heartbeat_ready [OF ctx auth, of env, unfolded split_def Let_def]
  have same: "db_commands (fst ?u) = db_commands (ss_db s)" "pending_ids (fst ?u) = pending_ids (ss_db s)"
    by simp (rule commands_same_pending, simp)
  show ?thesis
  proof (cases "snd ?u")
    case (Inl e)
    then show ?thesis by (simp add: eq hands_out_same)
  next
    case (Inr u)
    show ?thesis
    proof (cases ?p)
      case (Inl e)
      with Inr show ?thesis by (simp add: eq hands_out_same)
    next
      case p: (Inr cmds)
      have ids': "distinct (map cr_command_id (db_commands (fst ?u)))" using ids by (simp add: same)
      note cmds = pending_commands_ids [OF p ids']
      have sub: "pc_command_id ` set cmds \<subseteq> pending_ids (fst ?u)" by (auto simp: cmds(2) pending_ids_def)
      have "commands_progress (fst ?u) (mark_all_delivered env 4 cmds (fst ?u))"
        using mark_all_progress [OF ids' cmds(1) sub] .
      moreover have "(\<exists>k. se_io env k \<noteq> None)
          \<or> pending_ids (mark_all_delivered env 4 cmds (fst ?u)) \<inter> pc_command_id ` set cmds = {}"
        using pending_mark_all [of env 4 cmds "fst ?u"] by blast
      ultimately have "hands_out_once env (ss_db s) (mark_all_delivered env 4 cmds (fst ?u)) (map pc_command_id cmds)"
        using cmds(1) sub pending_mark_all_subset [of env 4 cmds "fst ?u"]
        by (simp add: hands_out_once_def same)
      then show ?thesis using Inr p by (simp add: eq)
    qed
  qed
qed

lemma request_commands:
  assumes ctx: "ss_context s = Some c" and ids: "distinct (map cr_command_id (db_commands (ss_db s)))"
  shows "hands_out_once env (ss_db s) (ss_db (fst (handle_request env req s)))
    (commands_in (snd (handle_request env req s)))"
proof (cases "authorized req")
  case False
  have "commands_in (snd (handle_request env req s)) = []"
    using ctx False by (cases req) (auto simp: handler_defs with_context_ready Let_def)
  then show ?thesis using unauthorized_rejected [OF ctx False] by (simp add: hands_out_same)
next
  case True
  show ?thesis
  proof (cases req)
    case (Register reg)
    then show ?thesis using register_commands [OF ctx] True by (simp add: hands_out_same)
  next
    case (Telemetry path_id body)
    then show ?thesis using telemetry_commands [OF ctx] True by (simp add: hands_out_same)
  next
    case (CommandAck path_id cmd_id body)
    have "pending_ids (fst (complete_command io now cmd_id db)) \<subseteq> pending_ids db" for io now db
      by (cases io) (auto simp: pending_complete)
    then show ?thesis using ack_commands [OF ctx] True CommandAck by (simp add: hands_out_nothing complete_progress)
  next
    case (Heartbeat path_id body)
    then show ?thesis using heartbeat_commands [OF ctx _ ids] True by simp
  qed
qed

subsection \<open>Any sequence of requests\<close>

lemma run_commands:
  assumes "ss_context s = Some c" "distinct (map cr_command_id (db_commands (ss_db s)))"
  shows "commands_progress (ss_db s) (ss_db (fst (server_run reqs s)))"
  using assms
proof (induction reqs arbitrary: s)
  case Nil
  then show ?case by (simp add: commands_progress_refl)
next
  case (Cons r reqs)
  obtain env req where r: "r = (env, req)" by (cases r)
  let ?s = "fst (handle_request env req s)"
  have step: "commands_progress (ss_db s) (ss_db ?s)"
    using request_commands [OF Cons.prems, of env req] by (simp add: hands_out_once_def)
  moreover have "distinct (map cr_command_id (db_commands (ss_db ?s)))"
    using commands_progress_ids [OF step] Cons.prems(2) by simp
  ultimately show ?case
    using Cons.IH [of ?s] handle_request_context [OF Cons.prems(1), of env req] commands_progress_trans [OF step]
    by (simp add: server_run_Cons r del: handle_request.simps)
qed

lemma run_hands_out:
  assumes "ss_context s = Some c" "distinct (map cr_command_id (db_commands (ss_db s)))"
    and "\<And>env req k. (env, req) \<in> set reqs \<Longrightarrow> se_io env k = None"
  shows "distinct (concat (map commands_in (snd (server_run reqs s))))
    \<and> set (concat (map commands_in (snd (server_run reqs s)))) \<subseteq> pending_ids (ss_db s)"
  using assms
proof (induction reqs arbitrary: s)
  case Nil
  then show ?case by simp
next
  case (Cons r reqs)
  obtain env req where r: "r = (env, req)" by (cases r)
  let ?s = "fst (handle_request env req s)" and ?out = "commands_in (snd (handle_request env req s))"
  note step = request_commands [OF Cons.prems(1,2), of env req, unfolded hands_out_once_def]
  have io: "\<forall>k. se_io env k = None" using Cons.prems(3) r by auto
  let ?rest = "concat (map commands_in (snd (server_run reqs ?s)))"
  have "map cr_command_id (db_commands (ss_db ?s)) = map cr_command_id (db_commands (ss_db s))"
    using commands_progress_ids step by blast
  then have "distinct (map cr_command_id (db_commands (ss_db ?s)))" using Cons.prems(2) by simp
  moreover have "\<And>env req k. (env, req) \<in> set reqs \<Longrightarrow> se_io env k = None" using Cons.prems(3) by (meson list.set_intros(2))
  ultimately have ih: "distinct ?rest" "set ?rest \<subseteq> pending_ids (ss_db ?s)"
    using Cons.IH [OF handle_request_context [OF Cons.prems(1), of env req]] by blast+
  have "pending_ids (ss_db ?s) \<inter> set ?out = {}" using step io by metis
  with ih(2) have disj: "set ?out \<inter> set ?rest = {}" by blast
  have all: "concat (map commands_in (snd (server_run (r # reqs) s))) = ?out @ ?rest"
    by (simp add: server_run_Cons r del: handle_request.simps)
  have "set ?rest \<subseteq> pending_ids (ss_db s)" using ih(2) step by blast
  then show ?case unfolding all using ih(1) disj step by (simp only: distinct_append set_append) blast
qed

subsection \<open>Telemetry\<close>

lemma insert_events_tx_ids:
  assumes "insert_events_tx ej rf now aid es db = Inr (db', n)"
  shows "tr_event_id ` set (db_telemetry db') = tr_event_id ` set (db_telemetry db) \<union> event_id ` set es
    \<and> n = card (event_id ` set es - tr_event_id ` set (db_telemetry db))
    \<and> (\<exists>rows. db' = db\<lparr>db_telemetry := db_telemetry db @ rows\<rparr> \<and> length rows = n
         \<and> (distinct (map tr_event_id (db_telemetry db)) \<longrightarrow> distinct (map tr_event_id (db_telemetry db @ rows))))
    \<and> (\<forall>e \<in> set es. \<exists>payload. ej e = Inr payload)"
  using assms
proof (induction es arbitrary: db db' n)
  case Nil
  then show ?case by (auto intro: exI [of _ "[]"])
next
  case (Cons e es)
  obtain payload d k m where ins: "ej e = Inr payload"
      "insert_or_ignore (telemetry_row_of rf now aid e payload) db = Inr (d, k)"
      "insert_events_tx ej rf now aid es d = Inr (db', m)" "n = k + m"
    using Cons.prems by (auto split: sum.splits prod.splits)
  note ih = Cons.IH [OF ins(3)]
  let ?ids = "tr_event_id ` set (db_telemetry db)" and ?row = "telemetry_row_of rf now aid e payload"
  show ?case
  proof (cases "event_id e \<in> ?ids")
    case True
    then have "d = db" "k = 0" using ins(2) by (auto simp: insert_or_ignore_def telemetry_row_of_def)
    then show ?thesis using ih ins True by (auto simp: insert_Diff_if)
  next
    case False
    then have d: "d = db\<lparr>db_telemetry := db_telemetry db @ [?row]\<rparr>" "k = 1"
      using ins(2) by (auto simp: insert_or_ignore_def telemetry_row_of_def split: if_splits)
    have row: "tr_event_id ?row = event_id e" by (simp add: telemetry_row_of_def)
    have "insert (event_id e) (event_id ` set es) - ?ids
        = insert (event_id e) (event_id ` set es - insert (event_id e) ?ids)" using False by auto
    then have "card (event_id ` set (e # es) - ?ids) = Suc (card (event_id ` set es - insert (event_id e) ?ids))"
      by (simp del: insert_Diff1 insert_Diff_if)
    then have n: "n = card (event_id ` set (e # es) - ?ids)" using ih ins(4) d row by simp
    obtain rows where rows: "db' = d\<lparr>db_telemetry := db_telemetry d @ rows\<rparr>" "length rows = m"
      "distinct (map tr_event_id (db_telemetry d)) \<longrightarrow> distinct (map tr_event_id (db_telemetry d @ rows))"
      using ih by blast
    have "\<exists>rows. db' = db\<lparr>db_telemetry := db_telemetry db @ rows\<rparr> \<and> length rows = n
         \<and> (distinct (map tr_event_id (db_telemetry db)) \<longrightarrow> distinct (map tr_event_id (db_telemetry db @ rows)))"
      using rows ins(4) d False row by (intro exI [of _ "?row # rows"]) auto
    moreover have "tr_event_id ` set (db_telemetry db') = ?ids \<union> event_id ` set (e # es)" using ih d row by auto
    ultimately show ?thesis using n ih ins(1) by auto
  qed
qed

lemma insert_known_events:
  assumes "event_id ` set es \<subseteq> tr_event_id ` set (db_telemetry db)" "\<And>e. e \<in> set es \<Longrightarrow> \<exists>payload. ej e = Inr payload"
  shows "insert_events_tx ej rf now aid es db = Inr (db, 0)"
  using assms
proof (induction es)
  case Nil
  then show ?case by simp
next
  case (Cons e es)
  then obtain payload where "ej e = Inr payload" by force
  with Cons show ?case by (simp add: insert_or_ignore_def telemetry_row_of_def)
qed

lemma insert_events_atomic:
  "snd (insert_events io ej rf now aid es db) = Inl e \<Longrightarrow> fst (insert_events io ej rf now aid es db) = db"
  by (auto simp: insert_events_def split: option.splits sum.splits)

lemma insert_events_ok:
  assumes "insert_events io ej rf now aid es db = (db', Inr n)"
  shows "io = None" and "insert_events_tx ej rf now aid es db = Inr (db', n)"
  using assms by (auto simp: insert_events_def split: option.splits sum.splits)

definition telemetry_answer :: "nat \<Rightarrow> nat \<Rightarrow> response" where
  "telemetry_answer accepted sent =
     (OK, JObject [(''accepted'', JNat accepted), (''rejected'', JNat (sent - accepted))])"

lemma telemetry_accepted:
  assumes "ss_context s = Some c" "authorized (Telemetry path_id body)"
    and "fst (snd (handle_telemetry env path_id body s)) = OK"
  obtains db n where "insert_events (se_io env 2) (se_event_json env) (se_rfc3339 env) (now_text env) path_id
      (at_events body) (ss_db s) = (db, Inr n)"
    "handle_telemetry env path_id body s = (s\<lparr>ss_db := db\<rparr>, telemetry_answer n (length (at_events body)))"
  using assms(3) by (auto simp: telemetry_ready [OF assms(1,2)] telemetry_answer_def status_defs split: prod.splits sum.splits)

subsection \<open>Silent agents\<close>

text \<open>
  After a tick of the monitor an agent that was online is offline exactly when its last sign of life,
  to the second, lies before the current time less the timeout; the others keep their status.
\<close>

lemma tick_marks_silent:
  assumes "ss_context s = Some c" "se_io env 2 = None"
  shows "db_agents (ss_db (stale_agent_tick env s)) =
     map (\<lambda>r. if ar_status r = ''online''
               \<and> is_silent (se_datetime env) (se_rfc3339 env (se_now env - AGENT_OFFLINE_TIMEOUT)) r
             then r\<lparr>ar_status := ''offline''\<rparr> else r) (db_agents (ss_db s))"
  using assms by (simp add: stale_agent_tick_def ensure_global_def mark_stale_agents_offline_def Let_def)

subsection \<open>Properties\<close>


text \<open>
  C13. Telemetry may be sent again: once a batch was accepted, sending it again (at any later time) changes
  nothing and is answered with nothing accepted. The first answer counts the events that were new; a
  batch with repeated events stores each once, and the key of the table stays unique.
\<close>

theorem telemetry_idempotent:
  assumes "ss_context s = Some c" "authorized (Telemetry path_id body)"
    and first: "handle_telemetry env path_id body s = (s', answer)" "fst answer = OK"
    and again: "se_io env' 2 = None" "se_event_json env' = se_event_json env"
  shows "tr_event_id ` set (db_telemetry (ss_db s'))
      = tr_event_id ` set (db_telemetry (ss_db s)) \<union> event_id ` set (at_events body)
    \<and> answer = telemetry_answer
        (card (event_id ` set (at_events body) - tr_event_id ` set (db_telemetry (ss_db s)))) (length (at_events body))
    \<and> (distinct (map tr_event_id (db_telemetry (ss_db s))) \<longrightarrow> distinct (map tr_event_id (db_telemetry (ss_db s'))))
    \<and> handle_telemetry env' path_id body s' = (s', telemetry_answer 0 (length (at_events body)))"
proof -
  have ok: "fst (snd (handle_telemetry env path_id body s)) = OK" using first by simp
  obtain db n where ins: "insert_events (se_io env 2) (se_event_json env) (se_rfc3339 env) (now_text env) path_id
      (at_events body) (ss_db s) = (db, Inr n)"
    and res: "handle_telemetry env path_id body s = (s\<lparr>ss_db := db\<rparr>, telemetry_answer n (length (at_events body)))"
    using telemetry_accepted [OF assms(1,2) ok] by blast
  then have s': "s' = s\<lparr>ss_db := db\<rparr>" "answer = telemetry_answer n (length (at_events body))"
    using first(1) by simp_all
  note tx = insert_events_tx_ids [OF insert_events_ok(2) [OF ins]]
  have "insert_events_tx (se_event_json env') (se_rfc3339 env') (now_text env') path_id (at_events body) db = Inr (db, 0)"
    by (rule insert_known_events) (use tx again in auto)
  then have "handle_telemetry env' path_id body s' = (s', telemetry_answer 0 (length (at_events body)))"
    using assms(1,2) again
    by (simp add: telemetry_ready s' insert_events_def telemetry_answer_def del: authorized.simps)
  moreover have "distinct (map tr_event_id (db_telemetry (ss_db s))) \<longrightarrow> distinct (map tr_event_id (db_telemetry (ss_db s')))"
    using tx by (auto simp: s')
  ultimately show ?thesis using tx s' by simp
qed

subsection \<open>A server with one agent and one command\<close>

definition sample_env :: server_env where
  "sample_env = \<lparr>se_now = 0, se_io = (\<lambda>_. None), se_open = None, se_passphrase = ''p'', se_rfc3339 = show_int,
     se_datetime = (\<lambda>_. Some 0), se_event_json = (\<lambda>e. Inr (event_id e)), se_parse_json = (\<lambda>_. None)\<rparr>"

definition sample_server :: server_state where
  "sample_server = \<lparr>ss_db = \<lparr>
       db_agents = [\<lparr>ar_agent_id = ''a'', ar_hostname = ''h'', ar_os_version = ''11'', ar_agent_version = ''1'',
         ar_ip_address = [], ar_last_heartbeat_at = Some ''0'', ar_registered_at = ''0'', ar_status = ''online''\<rparr>],
       db_commands = [\<lparr>cr_command_id = ''c1'', cr_agent_id = ''a'', cr_command_type = ''scan'',
         cr_payload_json = None, cr_status = ''pending'', cr_created_at = ''0'', cr_delivered_at = None,
         cr_acked_at = None\<rparr>],
       db_telemetry = [], db_config = None, db_foreign_keys = True\<rparr>,
     ss_context = Some ''s'', ss_startup = None\<rparr>"

definition sample_heartbeat :: "string \<Rightarrow> api_request" where
  "sample_heartbeat psk = Heartbeat ''a'' \<lparr>hb_uuid = ''a'', hb_auth = Secret \<lparr>au_psk = psk\<rparr>\<rparr>"

definition sample_telemetry :: agent_telemetry where
  "sample_telemetry = \<lparr>at_uuid = ''a'', at_auth = Secret \<lparr>au_psk = AGENT_PSK_server\<rparr>, at_schema_version = 1,
     at_events = [Process \<lparr>pe_event_id = ''e'', pe_occurred_at = 5, pe_process_id = 4, pe_parent_process_id = None,
       pe_image_path = ''C'', pe_command_line = None, pe_md5_hash = None, pe_threat_score = Some 90,
       pe_verdict = TvBlocked\<rparr>]\<rparr>"

theorem auth_required_witness:
  "let reqs = [(sample_env, sample_heartbeat ''guess''), (sample_env, sample_heartbeat AGENT_PSK_server)] in
   fst (server_run reqs sample_server)
     = fst (server_run (filter (\<lambda>(env, req). authorized req) reqs) sample_server)
   \<and> map (\<lambda>r. fst r = UNAUTHORIZED) (snd (server_run reqs sample_server))
     = map (\<lambda>(env, req). \<not> authorized req) reqs"
  unfolding Let_def by (rule auth_required [of _ "''s''"]) (simp add: sample_server_def)


theorem telemetry_idempotent_witness:
  "let (s', answer) = handle_telemetry sample_env ''a'' sample_telemetry sample_server in
   handle_telemetry sample_env ''a'' sample_telemetry s' = (s', telemetry_answer 0 1)"
proof -
  let ?r = "handle_telemetry sample_env ''a'' sample_telemetry sample_server"
  have ok: "fst (snd ?r) = OK" by code_simp
  have auth: "authorized (Telemetry ''a'' sample_telemetry)"
    by (simp add: sample_telemetry_def validate_psk_def)
  have ctx: "ss_context sample_server = Some ''s''" by (simp add: sample_server_def)
  have len: "length (at_events sample_telemetry) = 1" by (simp add: sample_telemetry_def)
  show ?thesis
    using telemetry_idempotent [OF ctx auth prod.collapse [of ?r, symmetric] ok, of sample_env]
    by (simp add: split_def len sample_env_def)
qed

end
