(* ===== verification/Server_Startup.thy ===== *)
theory Server_Startup
  imports Server_Lifecycle
begin

text \<open>
  The start of the server and what follows from it: \<open>main\<close> with its arguments, the making of the tables
  (\<open>init_db_pool\<close> of \<open>db/mod.rs\<close>), the monitor of silent agents, the loop that binds the port again; and the life of a
  server that started, over requests and ticks of the monitor.
\<close>

subsection \<open>The tables\<close>

datatype init_statement = Create_Table string | Create_Index string

definition SQL_INIT_STATMENTS :: "init_statement list" where
  "SQL_INIT_STATMENTS =
     [Create_Table ''agents'', Create_Table ''commands'', Create_Table ''telemetry_events'',
      Create_Index ''idx_telemetry_agent_time'', Create_Table ''server_config'']"

text \<open>
  A statement makes what is not there yet; \<open>fails\<close> gives the error of a statement. The schema is the list of
  what was made, in order.
\<close>

fun run_init_statements ::
  "(init_statement \<Rightarrow> io_error) \<Rightarrow> init_statement list \<Rightarrow> init_statement list \<Rightarrow> init_statement list \<times> (string + unit)" where
  "run_init_statements fails [] schema = (schema, Inr ())"
| "run_init_statements fails (statement # rest) schema =
     (case fails statement of
        Some e \<Rightarrow> (schema, Inl (''Schema init failed: '' @ e))
      | None \<Rightarrow> run_init_statements fails rest (if statement \<in> set schema then schema else schema @ [statement]))"

definition init_server_db_pool ::
  "io_error \<Rightarrow> io_error \<Rightarrow> (init_statement \<Rightarrow> io_error) \<Rightarrow> init_statement list \<Rightarrow> init_statement list \<times> (string + unit)" where
  "init_server_db_pool build get fails schema =
     (case build of
        Some e \<Rightarrow> (schema, Inl e)
      | None \<Rightarrow>
          (case get of
             Some e \<Rightarrow> (schema, Inl (''Failed to get DB conn: '' @ e))
           | None \<Rightarrow> run_init_statements fails SQL_INIT_STATMENTS schema))"

text \<open>Making the tables keeps what is there, makes all of them when it succeeds, and a second time changes nothing.\<close>

lemma run_init_all:
  assumes "snd (run_init_statements fails statements schema) = Inr ()"
  shows "set (fst (run_init_statements fails statements schema)) = set schema \<union> set statements"
  using assms by (induction statements arbitrary: schema) (auto split: option.splits)

lemma run_init_done: "set statements \<subseteq> set schema \<Longrightarrow> fst (run_init_statements fails statements schema) = schema"
  by (induction statements) (auto split: option.split)

lemma run_init_prefix: "\<exists>made. fst (run_init_statements fails statements schema) = schema @ made"
proof (induction statements arbitrary: schema)
  case (Cons statement rest)
  show ?case
    using Cons [of schema] Cons [of "schema @ [statement]"] by (auto split: option.split)
qed simp

lemma init_twice:
  assumes "snd (init_server_db_pool None None fails schema) = Inr ()"
  shows "fst (init_server_db_pool build get fails' (fst (init_server_db_pool None None fails schema)))
    = fst (init_server_db_pool None None fails schema)"
  using assms run_init_all [of fails SQL_INIT_STATMENTS schema]
  by (simp add: init_server_db_pool_def run_init_done split: option.split)

subsection \<open>Main\<close>

text \<open>The arguments; the path is \<open>None\<close> where it is not UTF-8.\<close>

record server_args =
  sa_db_path :: "string option"
  sa_port :: "u16 option"

datatype server_end = Exit nat | Serving u16

definition server_main :: "server_env \<Rightarrow> server_args \<Rightarrow> server_state \<Rightarrow> server_state \<times> server_end" where
  "server_main env args s =
     (let port = (case sa_port args of Some inner \<Rightarrow> inner | None \<Rightarrow> SERVER_PORT) in
      case set_startup_config \<lparr>su_db_path = sa_db_path args, su_port = port\<rparr> s of
        (s, Inl e) \<Rightarrow> (s, Exit 1)
      | (s, Inr _) \<Rightarrow>
          (case sa_db_path args of
             None \<Rightarrow> (s, Exit 1)
           | Some db_path \<Rightarrow>
               (case se_open env of
                  Some e \<Rightarrow> (s, Exit 1)
                | None \<Rightarrow>
                    (let (db, context) = load_or_init (se_io env 0) (se_io env 1) (se_passphrase env) (ss_db s) in
                     case set_global context (s\<lparr>ss_db := db\<rparr>) of
                       (s, Inl e) \<Rightarrow> (s, Exit 1)
                     | (s, Inr _) \<Rightarrow> (s, Serving port)))))"

text \<open>The loop that serves: whether each run of the server ended well, and the waits between them.\<close>

fun serve_loop :: "nat \<Rightarrow> bool list \<Rightarrow> nat list \<times> bool" where
  "serve_loop backoff [] = ([], False)"
| "serve_loop backoff (ended_well # runs) =
     (if ended_well then ([], True) else apfst ((#) backoff) (serve_loop (min (backoff * 2) 30) runs))"

lemma serve_loop_waits:
  "serve_loop (backoff_secs k) runs =
     (map (\<lambda>i. backoff_secs (k + i)) [0..<length (takeWhile Not runs)], True \<in> set runs)"
proof (induction runs arbitrary: k)
  case (Cons r runs)
  have "map (\<lambda>i. backoff_secs (k + i)) [0..<Suc n] = backoff_secs k # map (\<lambda>i. backoff_secs (Suc k + i)) [0..<n]" for n
    by (simp add: upt_conv_Cons map_Suc_upt [symmetric] del: upt_Suc backoff_secs.simps)
  then show ?case using Cons [of "Suc k"] by (simp add: apfst_def map_prod_def del: upt_Suc)
qed simp

text \<open>The waits of a server double up to half a minute, and it runs again until a run ends well.\<close>

lemma serve_loop_main:
  "serve_loop 1 runs = (map backoff_secs [0..<length (takeWhile Not runs)], True \<in> set runs)"
  "w \<in> set (fst (serve_loop 1 runs)) \<Longrightarrow> 1 \<le> w \<and> w \<le> 30"
proof -
  show eq: "serve_loop 1 runs = (map backoff_secs [0..<length (takeWhile Not runs)], True \<in> set runs)" for runs
    using serve_loop_waits [of 0 runs] by simp
  have "1 \<le> backoff_secs n \<and> backoff_secs n \<le> 30" for n by (induction n) auto
  then show "w \<in> set (fst (serve_loop 1 runs)) \<Longrightarrow> 1 \<le> w \<and> w \<le> 30" unfolding eq by auto
qed

subsection \<open>The life of a server\<close>

text \<open>The configuration is the only row that no request and no tick touches.\<close>

lemma config_kept [simp]:
  "db_config (fst (register_agent io now registration db)) = db_config db"
  "db_config (fst (update_heartbeat io now agent_id db)) = db_config db"
  "db_config (fst (mark_command_delivered io now cmd_id db)) = db_config db"
  "db_config (fst (complete_command io now cmd_id db)) = db_config db"
  "db_config (fst (mark_stale_agents_offline io datetime cutoff db)) = db_config db"
  by (simp_all add: register_agent_def update_heartbeat_def mark_command_delivered_def complete_command_def
      mark_stale_agents_offline_def Let_def split: option.split)

lemma config_mark_all [simp]: "db_config (mark_all_delivered env k cmds db) = db_config db"
  by (induction cmds arbitrary: k db) simp_all

lemma config_insert_tx:
  "insert_events_tx event_json rfc3339 now agent_id events db = Inr (db', n) \<Longrightarrow> db_config db' = db_config db"
  by (induction events arbitrary: db db' n)
    (auto simp: insert_or_ignore_def split: sum.splits if_splits)

lemma config_insert [simp]:
  "db_config (fst (insert_events io event_json rfc3339 now agent_id events db)) = db_config db"
  using config_insert_tx
  by (auto simp: insert_events_def split: option.split sum.split)

lemma request_config:
  assumes "ss_context s = Some c"
  shows "db_config (ss_db (fst (handle_request env req s))) = db_config (ss_db s)"
proof (cases "authorized req")
  case True
  then show ?thesis
    by (cases req)
      (simp_all add: handlers_ready [OF assms] split_def Let_def del: authorized.simps split: sum.split)
next
  case False
  then show ?thesis using unauthorized_rejected [OF assms] by simp
qed

text \<open>
  A process that starts has neither a context nor a configuration, and finds the database as it was left. It
  starts well when its first write of the configuration, if there is one, succeeds.
\<close>

definition started :: "server_db \<Rightarrow> server_state" where
  "started db = \<lparr>ss_db = db, ss_context = None, ss_startup = None\<rparr>"

definition server_init :: "server_state \<Rightarrow> bool" where
  "server_init s \<longleftrightarrow> (\<exists>env args db port. se_io env 1 = None \<and> server_main env args (started db) = (s, Serving port))"

inductive server_step :: "server_state \<Rightarrow> server_state \<Rightarrow> bool" where
  request: "server_step s (fst (handle_request env req s))"
| tick: "server_step s (stale_agent_tick env s)"

inductive_cases server_stepE: "server_step s t"

definition server_inv :: "server_state \<Rightarrow> bool" where
  "server_inv s \<longleftrightarrow> ss_context s \<noteq> None \<and> db_config (ss_db s) = ss_context s"

lemma server_main_serving:
  assumes "server_main env args (started db) = (s, Serving port)"
  shows "ss_context s = Some (snd (load_or_init (se_io env 0) (se_io env 1) (se_passphrase env) db))"
    and "ss_db s = fst (load_or_init (se_io env 0) (se_io env 1) (se_passphrase env) db)"
    and "port = (case sa_port args of Some inner \<Rightarrow> inner | None \<Rightarrow> SERVER_PORT)"
  using assms
  by (auto simp: server_main_def started_def set_startup_config_def set_global_def Let_def case_prod_beta
      split: option.splits)

lemma load_or_init_config:
  "db_config (fst (load_or_init io None passphrase db)) = Some (snd (load_or_init io None passphrase db))"
  by (simp add: load_or_init_def fetch_persisted_config_def persist_config_def split: option.splits)

interpretation running: invariant_system server_init server_step server_inv
proof
  fix s
  assume "server_init s"
  then obtain env args db port where "se_io env 1 = None" "server_main env args (started db) = (s, Serving port)"
    by (auto simp: server_init_def)
  with server_main_serving [of env args db s port] show "server_inv s"
    by (simp add: server_inv_def load_or_init_config)
next
  fix s t
  assume inv: "server_inv s" and "server_step s t"
  obtain c where c: "ss_context s = Some c" using inv by (auto simp: server_inv_def)
  show "server_inv t"
    using \<open>server_step s t\<close>
  proof (rule server_stepE)
    fix env req
    assume "t = fst (handle_request env req s)"
    then show ?thesis
      using inv handle_request_context [OF c, of env req] request_config [OF c, of env req] c
      by (simp add: server_inv_def)
  next
    fix env
    assume "t = stale_agent_tick env s"
    then show ?thesis
      using inv c by (simp add: server_inv_def stale_agent_tick_def ensure_global_def)
  qed
qed

lemma request_available:
  assumes "ss_context s = Some c"
  shows "fst (snd (handle_request env req s)) \<noteq> SERVICE_UNAVAILABLE"
proof (cases "authorized req")
  case True
  then show ?thesis
    by (cases req)
      (simp_all add: handlers_ready [OF assms] split_def Let_def status_defs del: authorized.simps split: sum.split)
next
  case False
  then show ?thesis using unauthorized_rejected [OF assms] by (simp add: status_defs)
qed



end
