(* ===== verification/Server_Pages.thy ===== *)
theory Server_Pages
  imports Server_Routes
begin

text \<open>
  The server's web pages: \<open>utils/fmt.rs\<close>, \<open>routes/layout.rs\<close>, \<open>routes/dashboard.rs\<close>, \<open>routes/agent.rs\<close> and
  \<open>routes/events.rs\<close>. A page is the text that is sent. The files under \<open>web/\<close> are parameters, as is
  the fixed text of the layout, which is given by its parts between the places that are filled.
\<close>

subsection \<open>Texts\<close>

text \<open>The index of the first byte \<open>c\<close>.\<close>

fun find_char :: "char \<Rightarrow> string \<Rightarrow> nat option" where
  "find_char c [] = None"
| "find_char c (x # xs) = (if x = c then Some 0 else map_option Suc (find_char c xs))"

text \<open>The slice \<open>&s[a..b]\<close> panics (\<open>None\<close>) unless \<open>a \<le> b \<le> s.len()\<close>.\<close>

definition str_slice :: "nat \<Rightarrow> nat \<Rightarrow> string \<Rightarrow> string option" where
  "str_slice a b s = (if a \<le> b \<and> b \<le> length s then Some (take (b - a) (drop a s)) else None)"

definition format_timestamp :: "string \<Rightarrow> string option" where
  "format_timestamp ts =
     (case find_char (CHR ''T'') ts of
        None \<Rightarrow> Some ts
      | Some pos \<Rightarrow>
          (let end_pos = (case find_char (CHR ''.'') ts of
                            Some dot_pos \<Rightarrow> dot_pos
                          | None \<Rightarrow> (case find_char (CHR ''+'') ts of Some plus_pos \<Rightarrow> plus_pos | None \<Rightarrow> length ts)) in
           map_option (\<lambda>time. take pos ts @ '' '' @ time) (str_slice (pos + 1) end_pos ts)))"

definition escape_html :: "string \<Rightarrow> string" where
  \<open>escape_html input =
     replace_char (CHR 0x27) ''&#39;''
       (replace_char (CHR 0x22) ''&quot;''
         (replace_char (CHR ''>'') ''&gt;''
           (replace_char (CHR ''<'') ''&lt;''
             (replace_char (CHR ''&'') ''&amp;'' input))))\<close>

text \<open>\<open>str::replace\<close> with a string that is not empty, from the left.\<close>

function replace_str :: "string \<Rightarrow> string \<Rightarrow> string \<Rightarrow> string" where
  "replace_str pat new s =
     (case s of
        [] \<Rightarrow> []
      | c # cs \<Rightarrow>
          if pat \<noteq> [] \<and> starts_with s pat then new @ replace_str pat new (drop (length pat) s)
          else c # replace_str pat new cs)"
  by pat_completeness auto
termination by (relation "measure (length \<circ> snd \<circ> snd)") (auto simp: Suc_le_eq)

declare replace_str.simps [simp del]

definition fill :: "(string \<times> string) list \<Rightarrow> string \<Rightarrow> string" where
  "fill subst template = fold (\<lambda>(pat, new). replace_str pat new) subst template"

definition short_id :: "string \<Rightarrow> string" where
  "short_id agent_id = (if 8 < length agent_id then take 8 agent_id else agent_id)"

text \<open>A line break and the indentation of the next line of a raw string.\<close>

definition nl :: "nat \<Rightarrow> string" where "nl k = CHR 0x0A # replicate k (CHR '' '')"

text \<open>\<open>rsplit(['\\', '/']).next()\<close>: what follows the last separator.\<close>

definition image_name :: "string \<Rightarrow> string" where
  "image_name path = rev (takeWhile (\<lambda>c. c \<noteq> CHR 0x5C \<and> c \<noteq> CHR ''/'') (rev path))"

subsection \<open>Layout\<close>

record layout_text =
  lt_head :: string
  lt_title_end :: string
  lt_events_link :: string
  lt_nav_end :: string
  lt_main_end :: string
  lt_tail :: string

definition layout_page :: "layout_text \<Rightarrow> string \<Rightarrow> string \<Rightarrow> string \<Rightarrow> string \<Rightarrow> string" where
  "layout_page lt title active registration_secret content =
     lt_head lt @ title @ lt_title_end lt @ (if active = ''fleet'' then ''active'' else [])
     @ lt_events_link lt @ (if active = ''events'' then ''active'' else []) @ lt_nav_end lt
     @ content @ lt_main_end lt @ escape_html registration_secret @ lt_tail lt"

subsection \<open>Events\<close>

record event_cells =
  ec_process_name :: string
  ec_process_id :: string
  ec_threat_score :: string
  ec_verdict_text :: string
  ec_verdict_class :: string

text \<open>The cells of an event, from its payload if it parses; \<open>parse_event\<close> is \<open>serde_json::from_str\<close>.\<close>

definition event_cells_of :: "(string \<Rightarrow> telemetry_event option) \<Rightarrow> telemetry_list_item \<Rightarrow> event_cells" where
  "event_cells_of parse_event e =
     (case parse_event (tl_payload_json e) of
        Some (Process p) \<Rightarrow>
          (let v = (case pe_verdict p of TvAllowed \<Rightarrow> ''allowed'' | TvBlocked \<Rightarrow> ''blocked'') in
           \<lparr>ec_process_name = image_name (pe_image_path p),
            ec_process_id = show_nat (unat (pe_process_id p)),
            ec_threat_score = (case pe_threat_score p of Some v \<Rightarrow> show_int (sint v) | None \<Rightarrow> ''-''),
            ec_verdict_text = v, ec_verdict_class = v\<rparr>)
      | None \<Rightarrow>
          \<lparr>ec_process_name = (if tl_event_type e = [] then ''unknown'' else tl_event_type e),
           ec_process_id = ''-'', ec_threat_score = ''-'', ec_verdict_text = ''unknown'',
           ec_verdict_class = ''allowed''\<rparr>)"

definition cells_html :: "event_cells \<Rightarrow> string" where
  \<open>cells_html c =
     nl 12 @ ''<td><code class="mono">'' @ escape_html (ec_process_name c) @ ''</code></td>'' @
     nl 12 @ ''<td><code class="mono">'' @ escape_html (ec_process_id c) @ ''</code></td>'' @
     nl 12 @ ''<td><span class="threat-score">'' @ escape_html (ec_threat_score c) @ ''</span></td>'' @
     nl 12 @ ''<td><span class="badge '' @ escape_html (ec_verdict_class c) @ ''">''
       @ escape_html (ec_verdict_text c) @ ''</span></td>'' @
     nl 8 @ ''</tr>''\<close>

definition row_start :: "string \<Rightarrow> string \<Rightarrow> string" where
  \<open>row_start eid timestamp =
     ''<tr data-event-id="'' @ escape_html eid @ ''">'' @
     nl 12 @ ''<td>'' @ escape_html timestamp @ ''</td>''\<close>

definition event_agent :: "telemetry_list_item \<Rightarrow> string" where
  \<open>event_agent e =
     (let hostname = (case tl_agent_hostname e of Some h \<Rightarrow> if h = [] then ''unknown'' else h | None \<Rightarrow> ''unknown'') in
      nl 12 @ ''<td><a href="/agents/'' @ escape_html (tl_agent_id e) @ ''" class="table-link">''
        @ escape_html hostname @ ''</a> <code class="mono">'' @ escape_html (short_id (tl_agent_id e))
        @ ''</code></td>'')\<close>

definition render_event_row :: "(string \<Rightarrow> telemetry_event option) \<Rightarrow> telemetry_list_item \<Rightarrow> string option" where
  "render_event_row parse_event e =
     map_option (\<lambda>timestamp. row_start (tl_event_id e) timestamp @ event_agent e
         @ cells_html (event_cells_of parse_event e))
       (format_timestamp (tl_occurred_at e))"

definition render_timeline_row :: "(string \<Rightarrow> telemetry_event option) \<Rightarrow> telemetry_list_item \<Rightarrow> string option" where
  "render_timeline_row parse_event e =
     map_option (\<lambda>timestamp. row_start (tl_event_id e) timestamp @ cells_html (event_cells_of parse_event e))
       (format_timestamp (tl_occurred_at e))"

text \<open>Rows one after the other; the first panic ends the handler.\<close>

fun concat_rows :: "('e \<Rightarrow> string option) \<Rightarrow> 'e list \<Rightarrow> string option" where
  "concat_rows row [] = Some []"
| "concat_rows row (e # es) =
     (case row e of None \<Rightarrow> None | Some r \<Rightarrow> map_option (\<lambda>rs. r @ rs) (concat_rows row es))"

definition has_verdict :: "telemetry_verdict \<Rightarrow> (string \<Rightarrow> telemetry_event option) \<Rightarrow> telemetry_list_item \<Rightarrow> bool" where
  "has_verdict v parse_event e =
     (case parse_event (tl_payload_json e) of Some (Process p) \<Rightarrow> pe_verdict p = v | None \<Rightarrow> False)"

definition empty_state :: "string \<Rightarrow> nat \<Rightarrow> nat \<Rightarrow> string \<Rightarrow> string \<Rightarrow> string" where
  \<open>empty_state colspan outer indent icon msg =
     ''<tr>'' @ nl indent @ ''<td colspan="'' @ colspan @ ''">'' @
     nl (indent + 4) @ ''<div class="empty-state">'' @
     nl (indent + 8) @ ''<div class="icon">'' @ icon @ ''</div>'' @
     nl (indent + 8) @ ''<p>'' @ msg @ ''</p>'' @
     nl (indent + 4) @ ''</div>'' @ nl indent @ ''</td>'' @ nl outer @ ''</tr>''\<close>

definition render_events_content ::
  "string \<Rightarrow> (string \<Rightarrow> telemetry_event option) \<Rightarrow> telemetry_list_item list \<Rightarrow> string option" where
  "render_events_content template parse_event events =
     map_option (\<lambda>rows. fill
         [(''{total_events}'', show_nat (length events)),
          (''{blocked_count}'', show_nat (length (filter (has_verdict TvBlocked parse_event) events))),
          (''{allowed_count}'', show_nat (length (filter (has_verdict TvAllowed parse_event) events))),
          (''{event_rows}'', rows)] template)
       (if events = [] then Some (empty_state ''6'' 12 16 ''[!]''
            ''No events recorded yet. Events will appear here once agents report telemetry.'')
        else concat_rows (render_event_row parse_event) events)"

definition render_timeline_rows ::
  "(string \<Rightarrow> telemetry_event option) \<Rightarrow> telemetry_list_item list \<Rightarrow> string option" where
  "render_timeline_rows parse_event events =
     (if events = [] then Some (empty_state ''5'' 12 16 (utf8_encode 0x1F4CB) ''No events for this agent yet.'')
      else concat_rows (render_timeline_row parse_event) events)"

subsection \<open>Agents\<close>

text \<open>\<open>as_deref().map(format_timestamp).unwrap_or("Never")\<close>.\<close>

definition heartbeat_text :: "string option \<Rightarrow> string option" where
  "heartbeat_text t = (case t of Some ts \<Rightarrow> format_timestamp ts | None \<Rightarrow> Some ''Never'')"

definition render_agent_row :: "agent_info \<Rightarrow> string option" where
  \<open>render_agent_row a =
     map_option (\<lambda>last_heartbeat.
       ''<tr>'' @
       nl 24 @ ''<td>'' @
       nl 28 @ ''<span class="status">'' @
       nl 32 @ ''<span class="status-dot '' @ agent_status_str (ai_status a) @ ''"></span>'' @
       nl 32 @ agent_status_str (ai_status a) @
       nl 28 @ ''</span>'' @
       nl 24 @ ''</td>'' @
       nl 24 @ ''<td><a href="/agents/'' @ ai_agent_id a @ ''" class="table-link">'' @ ai_hostname a @ ''</a></td>'' @
       nl 24 @ ''<td><code class="mono">'' @ short_id (ai_agent_id a) @ ''</code></td>'' @
       nl 24 @ ''<td>'' @ ai_os_version a @ ''</td>'' @
       nl 24 @ ''<td>'' @ ai_agent_version a @ ''</td>'' @
       nl 24 @ ''<td>'' @ ai_ip_address a @ ''</td>'' @
       nl 24 @ ''<td>'' @ last_heartbeat @ ''</td>'' @
       nl 20 @ ''</tr>'')
     (heartbeat_text (ai_last_heartbeat_at a))\<close>

definition status_count :: "agent_status \<Rightarrow> agent_info list \<Rightarrow> nat" where
  "status_count st agents = length (filter (\<lambda>a. ai_status a = st) agents)"

definition render_dashboard_content :: "string \<Rightarrow> agent_info list \<Rightarrow> string option" where
  "render_dashboard_content template agents =
     map_option (\<lambda>rows. fill
         [(''{total_agents}'', show_nat (length agents)),
          (''{online_count}'', show_nat (status_count Online agents)),
          (''{stale_count}'', show_nat (status_count Stale agents)),
          (''{offline_count}'', show_nat (status_count Offline agents)),
          (''{agent_rows}'', rows)] template)
       (if agents = [] then Some (empty_state ''7'' 8 12 (utf8_encode 0x1F4E1)
            ''No agents registered yet. Deploy an agent to get started.'')
        else concat_rows render_agent_row agents)"

definition render_agent_content ::
  "string \<Rightarrow> (string \<Rightarrow> telemetry_event option) \<Rightarrow> agent_info \<Rightarrow> telemetry_list_item list \<Rightarrow> string option" where
  "render_agent_content template parse_event a events =
     (case (render_timeline_rows parse_event events, format_timestamp (ai_registered_at a),
            heartbeat_text (ai_last_heartbeat_at a)) of
        (Some timeline_rows, Some registered_at, Some last_heartbeat) \<Rightarrow> Some (fill
          [(''{short_id}'', short_id (ai_agent_id a)), (''{id}'', ai_agent_id a), (''{hostname}'', ai_hostname a),
           (''{status_class}'', agent_status_str (ai_status a)), (''{status}'', agent_status_str (ai_status a)),
           (''{os_version}'', ai_os_version a), (''{agent_version}'', ai_agent_version a),
           (''{ip_address}'', ai_ip_address a), (''{registered_at}'', registered_at),
           (''{last_heartbeat}'', last_heartbeat), (''{timeline_rows}'', timeline_rows)] template)
      | _ \<Rightarrow> None)"

definition render_agent_not_found :: "string \<Rightarrow> string" where
  \<open>render_agent_not_found path_id =
     ''<div class="breadcrumb">'' @
     nl 12 @ ''<a href="/">Fleet</a>'' @
     nl 12 @ ''<span class="separator">'' @ utf8_encode 0x203A @ ''</span>'' @
     nl 12 @ ''<span>Agent Not Found</span>'' @
     nl 8 @ ''</div>'' @ [CHR 0x0A] @
     nl 8 @ ''<div class="page-header">'' @
     nl 12 @ ''<h2>Agent Not Found</h2>'' @
     nl 12 @ ''<p>No agent found with ID: <span class="mono">'' @ path_id @ ''</span></p>'' @
     nl 8 @ ''</div>'' @ [CHR 0x0A] @
     nl 8 @ ''<div class="empty-state">'' @
     nl 12 @ ''<div class="icon">'' @ utf8_encode 0x2753 @ ''</div>'' @
     nl 12 @ ''<p>The agent you'' @ [CHR 0x27] @ ''re looking for doesn'' @ [CHR 0x27] @ ''t exist or hasn''
       @ [CHR 0x27] @ ''t been registered yet.</p>'' @
     nl 8 @ ''</div>''\<close>

subsection \<open>Page handlers\<close>

text \<open>
  A page handler gives the new state (the context may be set up) and the status with the page; \<open>None\<close> is
  a panic. A failed query shows as an empty list.
\<close>

definition or_empty :: "'e + 'a list \<Rightarrow> 'a list" where
  "or_empty r = (case r of Inl _ \<Rightarrow> [] | Inr xs \<Rightarrow> xs)"

definition serve_page ::
  "server_env \<Rightarrow> layout_text \<Rightarrow> string \<Rightarrow> string \<Rightarrow> (server_db \<Rightarrow> string option) \<Rightarrow> server_state
     \<Rightarrow> server_state \<times> (nat \<times> string) option" where
  "serve_page env lt title active content s =
     (case ensure_global env s of
        (s', Inl _) \<Rightarrow> (s', Some (SERVICE_UNAVAILABLE, ''Service unavailable''))
      | (s', Inr registration_secret) \<Rightarrow>
          (s', map_option (\<lambda>c. (OK, layout_page lt title active registration_secret c)) (content (ss_db s'))))"

definition serve_dashboard :: "server_env \<Rightarrow> layout_text \<Rightarrow> string \<Rightarrow> server_state \<Rightarrow> server_state \<times> (nat \<times> string) option" where
  "serve_dashboard env lt template =
     serve_page env lt ''Fleet Overview'' ''fleet''
       (\<lambda>db. render_dashboard_content template (or_empty (get_all_agents (se_io env 2) db)))"

definition serve_events ::
  "server_env \<Rightarrow> layout_text \<Rightarrow> string \<Rightarrow> (string \<Rightarrow> telemetry_event option) \<Rightarrow> server_state
     \<Rightarrow> server_state \<times> (nat \<times> string) option" where
  "serve_events env lt template parse_event =
     serve_page env lt ''Event Feed'' ''events''
       (\<lambda>db. render_events_content template parse_event
          (or_empty (get_recent_events (se_io env 2) (se_datetime env) 200 db)))"

definition serve_agent ::
  "server_env \<Rightarrow> layout_text \<Rightarrow> string \<Rightarrow> (string \<Rightarrow> telemetry_event option) \<Rightarrow> string \<Rightarrow> server_state
     \<Rightarrow> server_state \<times> (nat \<times> string) option" where
  "serve_agent env lt template parse_event path_id =
     serve_page env lt ''Agent Detail'' []
       (\<lambda>db. case get_agent_by_id (se_io env 2) path_id db of
           Inr (Some a) \<Rightarrow> render_agent_content template parse_event a
             (or_empty (get_recent_events_for_agent (se_io env 3) (se_datetime env) (ai_agent_id a) 100 db))
         | _ \<Rightarrow> Some (render_agent_not_found path_id))"

subsection \<open>Escaping\<close>

text \<open>The five replacements one after the other are one pass: the ampersand comes first.\<close>

definition escape_char :: "char \<Rightarrow> string" where
  \<open>escape_char c =
     (if c = CHR ''&'' then ''&amp;'' else if c = CHR ''<'' then ''&lt;'' else if c = CHR ''>'' then ''&gt;''
      else if c = CHR 0x22 then ''&quot;'' else if c = CHR 0x27 then ''&#39;'' else [c])\<close>

lemma escape_html_pass: "escape_html s = concat (map escape_char s)"
  by (induction s) (simp_all add: escape_html_def escape_char_def)

definition markup :: "char \<Rightarrow> bool" where
  "markup c \<longleftrightarrow> c = CHR ''<'' \<or> c = CHR ''>'' \<or> c = CHR 0x22 \<or> c = CHR 0x27"

lemma escape_char_plain: "filter markup (escape_char c) = []"
  by (simp add: escape_char_def markup_def)

lemma escape_html_plain [simp]: "filter markup (escape_html s) = []"
  by (induction s) (simp_all add: escape_html_pass escape_char_plain)

text \<open>What a browser shows: the entities are read back.\<close>

definition entities :: "(string \<times> char) list" where
  "entities = [(''&amp;'', CHR ''&''), (''&lt;'', CHR ''<''), (''&gt;'', CHR ''>''), (''&quot;'', CHR 0x22),
     (''&#39;'', CHR 0x27)]"

function unescape_html :: "string \<Rightarrow> string" where
  "unescape_html [] = []"
| "unescape_html (c # cs) =
     (case find (\<lambda>(e, _). starts_with (c # cs) e) entities of
        Some (e, x) \<Rightarrow> x # unescape_html (drop (length e - 1) cs)
      | None \<Rightarrow> c # unescape_html cs)"
  by pat_completeness auto
termination by (relation "measure length") auto

declare unescape_html.simps(2) [simp del]

lemma unescape_char: "unescape_html (escape_char c @ s) = c # unescape_html s"
  by (auto simp: escape_char_def unescape_html.simps(2) entities_def starts_with_def)

lemma unescape_escape: "unescape_html (escape_html s) = s"
  by (induction s) (simp_all add: escape_html_pass unescape_char)

subsection \<open>Rows\<close>

text \<open>The markup of a row is that of its fixed text.\<close>

definition event_row_markup :: string where
  \<open>event_row_markup = filter markup (row_start [] [] @ event_agent
     \<lparr>tl_event_id = [], tl_agent_id = [], tl_agent_hostname = None, tl_event_type = [], tl_occurred_at = [],
      tl_payload_json = []\<rparr> @ cells_html
     \<lparr>ec_process_name = [], ec_process_id = [], ec_threat_score = [], ec_verdict_text = [], ec_verdict_class = []\<rparr>)\<close>

lemma filter_row_start: "filter markup (row_start a b) = filter markup (row_start [] [])"
  by (simp add: row_start_def)

lemma filter_cells: "filter markup (cells_html c) = filter markup (cells_html c')"
  by (simp add: cells_html_def)

lemma filter_event_agent: "filter markup (event_agent e) = filter markup (event_agent e')"
  by (simp add: event_agent_def Let_def)

lemma event_row_inert:
  "map_option (filter markup) (render_event_row parse_event e)
     = map_option (\<lambda>_. event_row_markup) (format_timestamp (tl_occurred_at e))"
  unfolding render_event_row_def event_row_markup_def
  by (cases "format_timestamp (tl_occurred_at e)")
    (simp_all only: option.map filter_append, metis filter_row_start filter_cells filter_event_agent)

lemma concat_rows_inert:
  assumes "\<And>e. map_option (filter markup) (row e) = map_option (\<lambda>_. m) (ok e)"
  shows "map_option (filter markup) (concat_rows row es)
     = (if \<forall>e \<in> set es. ok e \<noteq> None then Some (concat (replicate (length es) m)) else None)"
proof (induction es)
  case Nil
  then show ?case by simp
next
  case (Cons e es)
  have "(row e = None) = (ok e = None)" "\<And>r. row e = Some r \<Longrightarrow> filter markup r = m"
    using assms [of e] by (cases "row e"; cases "ok e"; simp)+
  with Cons show ?case by (cases "row e"; cases "concat_rows row es") (auto split: if_splits)
qed

text \<open>A time printed as RFC 3339 never makes the slicing panic: the date is shown before the time.\<close>

lemma find_char_append: "c \<notin> set a \<Longrightarrow> find_char c (a @ c # b) = Some (length a)"
  by (induction a) auto

lemma find_char_None: "c \<notin> set s \<Longrightarrow> find_char c s = None"
  by (induction s) auto

lemma format_timestamp_rfc3339:
  assumes "CHR ''T'' \<notin> set date" "CHR ''.'' \<notin> set date \<union> set time" 
  shows "format_timestamp (date @ ''T'' @ time @ ''.'' @ rest) = Some (date @ '' '' @ time)"
proof -
  have "find_char (CHR ''.'') ((date @ ''T'' @ time) @ CHR ''.'' # rest) = Some (length (date @ ''T'' @ time))"
    using assms by (intro find_char_append) auto
  moreover have "find_char (CHR ''T'') (date @ CHR ''T'' # time @ ''.'' @ rest) = Some (length date)"
    using assms by (intro find_char_append) auto
  ultimately show ?thesis by (simp add: format_timestamp_def str_slice_def)
qed

subsection \<open>Properties\<close>

text \<open>
  Text of an agent cannot become markup in a list of events: whatever ids, host names, paths and
  types the agents report, the markup of the rows is that of the fixed text, once for each event.
  Escaping is one pass, leaves no character of markup, and a browser shows the text that was escaped.
\<close>

theorem event_rows_inert:
  "unescape_html (escape_html s) = s \<and> filter markup (escape_html s) = []
   \<and> map_option (filter markup) (concat_rows (render_event_row parse_event) es)
     = (if list_all (\<lambda>e. format_timestamp (tl_occurred_at e) \<noteq> None) es
        then Some (concat (replicate (length es) event_row_markup)) else None)"
  using concat_rows_inert [of "render_event_row parse_event" event_row_markup
      "\<lambda>e. format_timestamp (tl_occurred_at e)" es, OF event_row_inert]
  by (simp add: unescape_escape list_all_iff del: map_option_eq_Some)

text \<open>
  The rows of the dashboard are not escaped: the host name an agent registers with adds its own markup to
  the page of every operator.
\<close>

theorem dashboard_row_injection:
  "\<exists>a h. map_option (filter markup) (render_agent_row (a\<lparr>ai_hostname := h\<rparr>))
     \<noteq> map_option (filter markup) (render_agent_row a)"
proof -
  let ?a = "\<lparr>ai_agent_id = ''a'', ai_hostname = ''h'', ai_os_version = [], ai_agent_version = [],
    ai_ip_address = [], ai_last_heartbeat_at = None, ai_registered_at = ''0'', ai_status = Online\<rparr>"
  have "filter markup (the (render_agent_row (?a\<lparr>ai_hostname := ''<script>''\<rparr>)))
      \<noteq> filter markup (the (render_agent_row ?a))"
    by (simp add: render_agent_row_def heartbeat_text_def short_id_def agent_status_str_def markup_def nl_def)
  then have "map_option (filter markup) (render_agent_row (?a\<lparr>ai_hostname := ''<script>''\<rparr>))
      \<noteq> map_option (filter markup) (render_agent_row ?a)"
    by (simp add: render_agent_row_def heartbeat_text_def)
  then show ?thesis by blast
qed

end
