(* ===== verification/Server_Layout.thy ===== *)
theory Server_Layout
  imports Server_Pages
begin

text \<open>
  The fixed text of every page of the server, as \<open>page\<close> of \<open>routes/layout.rs\<close> writes it, in the parts between the
  places that are filled, and what a page is with it.
\<close>

text \<open>The lines of a raw string.\<close>

fun text_lines :: "string list \<Rightarrow> string" where
  "text_lines [] = []"
| "text_lines [l] = l"
| "text_lines (l # ls) = l @ CHR 0x0A # text_lines ls"

definition page_head :: string where
  \<open>page_head = text_lines
     [''<!DOCTYPE html>'',
      ''<html lang="en">'',
      ''<head>'',
      ''    <meta charset="UTF-8">'',
      ''    <meta name="viewport" content="width=device-width, initial-scale=1.0">'',
      ''    <title>'']\<close>

definition page_title_end :: string where
  \<open>page_title_end = text_lines
     ['' - Galatea Server</title>'',
      ''    <link rel="stylesheet" href="/static/css/style.css">'',
      ''</head>'',
      ''<body>'',
      ''<div class="layout">'',
      ''    <aside class="sidebar">'',
      ''        <div class="sidebar-header">'',
      ''            <div class="logo">G</div>'',
      ''            <div>'',
      ''                <h1>Galatea</h1>'',
      ''                <span class="version">Server v0.1.0</span>'',
      ''            </div>'',
      ''        </div>'',
      ''        <nav class="sidebar-nav">'',
      ''            <a href="/" class="'']\<close>

definition page_events_link :: string where
  \<open>page_events_link = text_lines
     [''">'',
      ''                <span class="icon">[+]</span> Fleet Overview'',
      ''            </a>'',
      ''            <a href="/events" class="'']\<close>

definition page_nav_end :: string where
  \<open>page_nav_end = text_lines
     [''">'',
      ''                <span class="icon">[!]</span> Event Feed'',
      ''            </a>'',
      ''        </nav>'',
      ''        <div class="theme-control">'',
      ''            <label for="theme-select">Theme</label>'',
      ''            <select id="theme-select" aria-label="Select theme">'',
      ''                <option value="dark">Dark</option>'',
      ''                <option value="light">Light</option>'',
      ''                <option value="defender">Defender</option>'',
      ''                <option value="treadstone">Treadstone</option>'',
      ''            </select>'',
      ''            <button type="button" class="secret-trigger" data-modal-open="agent-secret-modal">'',
      ''                Agent Registration Secret'',
      ''            </button>'',
      ''        </div>'',
      ''        <div class="sidebar-footer">'',
      ''            Galatea EDR - Research Project'',
      ''        </div>'',
      ''    </aside>'',
      ''    <main class="main">'',
      ''        '']\<close>

definition page_main_end :: string where
  \<open>page_main_end = text_lines
     [[],
      ''    </main>'',
      ''</div>'',
      ''<div id="agent-secret-modal" class="modal-overlay" hidden>'',
      ''    <div class="modal-dialog" role="dialog" aria-modal="true" aria-labelledby="agent-secret-title">'',
      ''        <div class="modal-header">'',
      ''            <h3 id="agent-secret-title">Agent Registration Secret</h3>'',
      ''            <button type="button" class="modal-close" data-modal-close="agent-secret-modal" aria-label="Close">x</button>'',
      ''        </div>'',
      ''        <p class="modal-description">Use this secret when enrolling new agents.</p>'',
      ''        <pre class="modal-secret mono">'']\<close>

definition page_tail :: string where
  \<open>page_tail = text_lines
     [''</pre>'',
      ''        <div class="modal-actions">'',
      ''            <button type="button" class="modal-close-button" data-modal-close="agent-secret-modal">Close</button>'',
      ''        </div>'',
      ''    </div>'',
      ''</div>'',
      ''<script src="/static/js/theme.js"></script>'',
      ''<script>'',
      ''(() => {'',
      ''    const modalId = "agent-secret-modal";'',
      ''    const modal = document.getElementById(modalId);'',
      ''    if (!modal) {'',
      ''        return;'',
      ''    }'',
      [],
      ''    const openers = document.querySelectorAll('[data-modal-open="' + modalId + '"]');'',
      ''    const closers = modal.querySelectorAll('[data-modal-close="' + modalId + '"]');'',
      ''    const openModal = () => {'',
      ''        modal.hidden = false;'',
      ''    };'',
      ''    const closeModal = () => {'',
      ''        modal.hidden = true;'',
      ''    };'',
      [],
      ''    openers.forEach((button) => {'',
      ''        button.addEventListener("click", openModal);'',
      ''    });'',
      ''    closers.forEach((button) => {'',
      ''        button.addEventListener("click", closeModal);'',
      ''    });'',
      ''    modal.addEventListener("click", (event) => {'',
      ''        if (event.target === modal) {'',
      ''            closeModal();'',
      ''        }'',
      ''    });'',
      ''    window.addEventListener("keydown", (event) => {'',
      ''        if (event.key === "Escape" && !modal.hidden) {'',
      ''            closeModal();'',
      ''        }'',
      ''    });'',
      ''})();'',
      ''</script>'',
      ''</body>'',
      ''</html>'']\<close>

definition page_layout :: layout_text where
  "page_layout = \<lparr>lt_head = page_head, lt_title_end = page_title_end, lt_events_link = page_events_link, lt_nav_end = page_nav_end, lt_main_end = page_main_end, lt_tail = page_tail\<rparr>"

text \<open>The titles and the names of the entries come from the code, the content from the page.\<close>

definition page :: "string \<Rightarrow> string \<Rightarrow> string \<Rightarrow> string \<Rightarrow> string" where
  "page = layout_page page_layout"

text \<open>
  The fixed text is filled in five places and nowhere else: the markup of a page is that of the text with its title and
  its content, whatever the registration secret is and whichever entry of the menu is active.
\<close>

lemma page_inert:
  "filter markup (page title active registration_secret content) =
     filter markup (page_head @ title @ page_title_end @ page_events_link @ page_nav_end @ content
       @ page_main_end @ page_tail)"
  by (simp add: page_def layout_page_def page_layout_def markup_def)

text \<open>What a page shows of the secret is the secret.\<close>

lemma page_shows_secret:
  "\<exists>before after shown. page title active registration_secret content = before @ shown @ after
     \<and> unescape_html shown = registration_secret"
  by (intro exI [of _ "escape_html registration_secret"] exI [of _ page_tail]
      exI [of _ "page_head @ title @ page_title_end @ (if active = ''fleet'' then ''active'' else [])
        @ page_events_link @ (if active = ''events'' then ''active'' else []) @ page_nav_end @ content @ page_main_end"])
    (simp add: page_def layout_page_def page_layout_def unescape_escape)

end
