(* ===== verification/Userland_Hooks.thy ===== *)
theory Userland_Hooks
  imports Fs_Wire
begin

text \<open>
  The library that the agent injects: \<open>galatea-userland-hooks\<close>. The memory of the process maps an address
  to a byte. What Windows answers is a parameter: the threads of a snapshot, whether a thread opens,
  the addresses of functions and whether a protection changes. \<open>None\<close> is a panic. The assembly of the
  hook functions (\<open>stubs.rs\<close>) is left out: what is modelled ends with the jump to them.
\<close>

subsection \<open>Memory\<close>

type_synonym memory = "u64 \<Rightarrow> u8"

definition write_bytes :: "u64 \<Rightarrow> u8 list \<Rightarrow> memory \<Rightarrow> memory" where
  "write_bytes addr bs m = (\<lambda>a. if unat (a - addr) < length bs then bs ! unat (a - addr) else m a)"

definition read_bytes :: "u64 \<Rightarrow> nat \<Rightarrow> memory \<Rightarrow> u8 list" where
  "read_bytes addr n m = map (\<lambda>i. m (addr + of_nat i)) [0..<n]"

definition read_u32 :: "u64 \<Rightarrow> memory \<Rightarrow> u32" where
  "read_u32 addr m = of_nat (le_nat (read_bytes addr 4 m))"

definition read_u64 :: "u64 \<Rightarrow> memory \<Rightarrow> u64" where
  "read_u64 addr m = of_nat (le_nat (read_bytes addr 8 m))"

subsection \<open>System call numbers\<close>

definition NT_FUNC_NAMES :: "string list" where
  "NT_FUNC_NAMES = [''ZwOpenProcess'', ''ZwAllocateVirtualMemory'', ''NtWriteVirtualMemory'',
     ''NtProtectVirtualMemory'', ''NtCreateThreadEx'']"

text \<open>The first four bytes are those of \<open>mov r10, rcx; mov eax, imm32\<close>; the number is the operand.\<close>

definition ssn_at :: "u64 \<Rightarrow> memory \<Rightarrow> u32 option" where
  "ssn_at funcaddr m =
     (if read_u32 funcaddr m = 0xb8d18b4c
      then Some (ucast (drop_bit 32 (read_u64 funcaddr m)) AND 0xfff) else None)"

fun collect_ssn :: "(string \<Rightarrow> u64 option) \<Rightarrow> memory \<Rightarrow> string list \<Rightarrow> (string \<rightharpoonup> u32) \<Rightarrow> (string \<rightharpoonup> u32)" where
  "collect_ssn proc m [] repo = repo"
| "collect_ssn proc m (name # names) repo =
     collect_ssn proc m names
       (case proc name of
          None \<Rightarrow> repo
        | Some funcaddr \<Rightarrow> (case ssn_at funcaddr m of None \<Rightarrow> repo | Some num \<Rightarrow> repo(name \<mapsto> num)))"

definition SYSCALL_NUMBER :: "(string \<Rightarrow> u64 option) option \<Rightarrow> memory \<Rightarrow> (string \<rightharpoonup> u32)" where
  "SYSCALL_NUMBER ntdll m =
     (case ntdll of None \<Rightarrow> Map.empty | Some proc \<Rightarrow> collect_ssn proc m NT_FUNC_NAMES Map.empty)"

subsection \<open>Addresses\<close>

record stub_address =
  sa_edr :: u64
  sa_ntdll :: u64

text \<open>The map has two keys, and its order is that of the keys.\<close>

definition stub_addresses ::
  "(string \<Rightarrow> u64 option) option \<Rightarrow> u64 \<Rightarrow> u64 \<Rightarrow> (string \<times> stub_address) list option" where
  "stub_addresses ntdll nt_open_process virtual_alloc_ex =
     (case ntdll of
        None \<Rightarrow> None
      | Some proc \<Rightarrow>
          (case (proc ''ZwOpenProcess'', proc ''ZwAllocateVirtualMemory'') of
             (Some zwop, Some zwavm) \<Rightarrow> Some
               [(''NtAllocateVirtualMemory'', \<lparr>sa_edr = virtual_alloc_ex, sa_ntdll = zwavm\<rparr>),
                (''NtOpenProcess'', \<lparr>sa_edr = nt_open_process, sa_ntdll = zwop\<rparr>)]
           | _ \<Rightarrow> None))"

subsection \<open>Patching\<close>

definition PATCH_LEN :: nat where "PATCH_LEN = 32"

definition patch_bytes :: "u64 \<Rightarrow> u8 list" where
  "patch_bytes addr64 = map (\<lambda>i. ucast (drop_bit (i * 8) addr64 AND 0xFF)) [0..<8]"

text \<open>One stub: no-ops over its bytes, then \<open>mov rax, imm64\<close> with the address of the hook and \<open>jmp rax\<close>.\<close>

definition patch_stub :: "stub_address \<Rightarrow> memory \<Rightarrow> memory" where
  "patch_stub item m =
     write_bytes (sa_ntdll item + 10) [0xFF, 0xE0]
       (write_bytes (sa_ntdll item + 2) (patch_bytes (sa_edr item))
         (write_bytes (sa_ntdll item) [0x48, 0xB8]
           (write_bytes (sa_ntdll item) (replicate PATCH_LEN 0x90) m)))"

text \<open>\<open>protect\<close> says whether the protection of a stub could be lifted, and restored.\<close>

fun patch_all :: "(u64 \<Rightarrow> bool \<times> bool) \<Rightarrow> stub_address list \<Rightarrow> memory \<Rightarrow> memory option" where
  "patch_all protect [] m = Some m"
| "patch_all protect (item # items) m =
     (if \<not> fst (protect (sa_ntdll item)) then None
      else
        (let m' = patch_stub item m in
         if \<not> snd (protect (sa_ntdll item)) then None else patch_all protect items m'))"

text \<open>The system call numbers are read before the first stub is overwritten.\<close>

definition patch ::
  "(string \<Rightarrow> u64 option) option \<Rightarrow> (u64 \<Rightarrow> bool \<times> bool) \<Rightarrow> (string \<times> stub_address) list \<Rightarrow> memory
     \<Rightarrow> ((string \<rightharpoonup> u32) \<times> memory) option" where
  "patch ntdll protect addresses m =
     (let repo = SYSCALL_NUMBER ntdll m in
      if repo ''ZwOpenProcess'' = None then None
      else map_option (Pair repo) (patch_all protect (map snd addresses) m))"

subsection \<open>Threads\<close>

text \<open>An entry of the snapshot: the owner process and the thread; \<open>None\<close>: the snapshot fails.\<close>

definition get_thread_ids :: "u32 \<Rightarrow> u32 \<Rightarrow> (u32 \<times> u32) list option \<Rightarrow> u32 list option" where
  "get_thread_ids pid current_thread snapshot =
     map_option (\<lambda>entries. map snd (filter (\<lambda>(owner, tid). owner = pid \<and> tid \<noteq> current_thread) entries)) snapshot"

text \<open>\<open>suspended\<close> counts how often a thread is suspended; the handles that were opened are the result.\<close>

fun suspend_threads :: "(u32 \<Rightarrow> bool) \<Rightarrow> u32 list \<Rightarrow> (u32 \<Rightarrow> nat) \<Rightarrow> (u32 \<Rightarrow> nat) \<times> u32 list" where
  "suspend_threads opens [] suspended = (suspended, [])"
| "suspend_threads opens (tid # tids) suspended =
     (if opens tid then
        (let (suspended', handles) = suspend_threads opens tids (suspended(tid := Suc (suspended tid))) in
         (suspended', tid # handles))
      else suspend_threads opens tids suspended)"

definition suspend_all_threads ::
  "u32 \<Rightarrow> u32 \<Rightarrow> (u32 \<times> u32) list option \<Rightarrow> (u32 \<Rightarrow> bool) \<Rightarrow> (u32 \<Rightarrow> nat) \<Rightarrow> ((u32 \<Rightarrow> nat) \<times> u32 list) option" where
  "suspend_all_threads pid current_thread snapshot opens suspended =
     map_option (\<lambda>tids. suspend_threads opens tids suspended) (get_thread_ids pid current_thread snapshot)"

fun resume_all_threads :: "u32 list \<Rightarrow> (u32 \<Rightarrow> nat) \<Rightarrow> (u32 \<Rightarrow> nat)" where
  "resume_all_threads [] suspended = suspended"
| "resume_all_threads (tid # tids) suspended =
     resume_all_threads tids (suspended(tid := suspended tid - 1))"

record hook_env =
  he_pid :: u32
  he_current_thread :: u32
  he_snapshot :: "(u32 \<times> u32) list option"
  he_opens :: "u32 \<Rightarrow> bool"
  he_ntdll :: "(string \<Rightarrow> u64 option) option"
  he_protect :: "u64 \<Rightarrow> bool \<times> bool"
  he_nt_open_process :: u64
  he_virtual_alloc_ex :: u64

text \<open>\<open>init_hooks\<close>: the numbers, the memory and the threads at its end, or a panic.\<close>

definition init_hooks ::
  "hook_env \<Rightarrow> memory \<Rightarrow> (u32 \<Rightarrow> nat) \<Rightarrow> ((string \<rightharpoonup> u32) \<times> memory \<times> (u32 \<Rightarrow> nat)) option" where
  "init_hooks env m suspended =
     (case suspend_all_threads (he_pid env) (he_current_thread env) (he_snapshot env) (he_opens env) suspended of
        None \<Rightarrow> None
      | Some (suspended', handles) \<Rightarrow>
          (case stub_addresses (he_ntdll env) (he_nt_open_process env) (he_virtual_alloc_ex env) of
             None \<Rightarrow> None
           | Some addresses \<Rightarrow>
               (case patch (he_ntdll env) (he_protect env) addresses m of
                  None \<Rightarrow> None
                | Some (repo, m') \<Rightarrow> Some (repo, m', resume_all_threads handles suspended'))))"

text \<open>Loading the library starts a thread of \<open>init_hooks\<close>, and succeeds whether or not the thread starts.\<close>

definition DLL_PROCESS_ATTACH :: u32 where "DLL_PROCESS_ATTACH = 1"

definition dll_main :: "u32 \<Rightarrow> nat \<times> int" where
  "dll_main reason = (if reason = DLL_PROCESS_ATTACH then 1 else 0, 1)"

subsection \<open>Lemmas\<close>

lemma nth_le_bytes: "i < k \<Longrightarrow> le_bytes k n ! i = of_nat (n div 256 ^ i)"
proof (induction k arbitrary: i n)
  case 0
  then show ?case by simp
next
  case (Suc k)
  have byte: "(of_nat (x mod 256) :: u8) = of_nat x" for x
    by (simp add: word_of_nat_eq_iff take_bit_eq_mod)
  show ?case
  proof (cases i)
    case 0
    then show ?thesis by (simp add: byte)
  next
    case (Suc j)
    then show ?thesis using Suc.IH [of j "n div 256"] Suc.prems by (simp add: div_mult2_eq)
  qed
qed

lemma patch_byte: "ucast (drop_bit (i * 8) (w :: u64) AND 0xFF) = (of_nat (unat w div 256 ^ i) :: u8)"
proof -
  have byte: "ucast (x AND 0xFF) = (of_nat (unat x) :: u8)" for x :: u64
  proof -
    have low: "x AND 0xFF = take_bit 8 x" by (simp add: take_bit_eq_mask mask_eq_exp_minus_1)
    show ?thesis unfolding low by (auto intro!: bit_word_eqI simp: bit_simps)
  qed
  have "unat (drop_bit (i * 8) w) = unat w div 256 ^ i"
    by (simp only: unat_drop_bit_eq) (simp add: drop_bit_eq_div power_mult mult.commute [of i])
  then show ?thesis unfolding byte by (rule arg_cong)
qed

lemma patch_bytes_eq: "patch_bytes w = u64_bytes w"
  by (rule nth_equalityI) (simp_all add: patch_bytes_def u64_bytes_def nth_le_bytes patch_byte)

text \<open>A patched stub: twelve bytes of code and twenty no-ops.\<close>

definition trampoline :: "u64 \<Rightarrow> u8 list" where
  "trampoline edr = [0x48, 0xB8] @ u64_bytes edr @ [0xFF, 0xE0] @ replicate 20 0x90"

lemma length_trampoline: "length (trampoline edr) = PATCH_LEN"
  by (simp add: trampoline_def PATCH_LEN_def)

text \<open>Two writes where the second is inside the first.\<close>

lemma write_inside:
  assumes "unat off + length bs \<le> length cs" "length cs < 2 ^ 63"
  shows "write_bytes (addr + off) bs (write_bytes addr cs m)
     = write_bytes addr (take (unat off) cs @ bs @ drop (unat off + length bs) cs) m"
proof
  fix a
  have off: "a - (addr + off) = (a - addr) - off" by simp
  have "unat (a - (addr + off)) = (if unat off \<le> unat (a - addr) then unat (a - addr) - unat off
      else unat (a - addr) + 2 ^ 64 - unat off)"
    unfolding off by (simp add: unat_sub_if')
  then show "write_bytes (addr + off) bs (write_bytes addr cs m) a
      = write_bytes addr (take (unat off) cs @ bs @ drop (unat off + length bs) cs) m a"
    using assms by (auto simp: write_bytes_def nth_append min_def)
qed

lemma patch_stub_trampoline: "patch_stub item m = write_bytes (sa_ntdll item) (trampoline (sa_edr item)) m"
  by (simp add: patch_stub_def write_inside [where off = 0, simplified] write_inside patch_bytes_eq
      trampoline_def PATCH_LEN_def)

text \<open>What a write leaves: the bytes written, and everything else.\<close>

lemma read_write_same:
  assumes "length bs < 2 ^ 64" "n \<le> length bs"
  shows "read_bytes addr n (write_bytes addr bs m) = take n bs"
proof (rule nth_equalityI)
  show "length (read_bytes addr n (write_bytes addr bs m)) = length (take n bs)"
    using assms by (simp add: read_bytes_def)
  fix i
  assume "i < length (read_bytes addr n (write_bytes addr bs m))"
  then have i: "i < n" by (simp add: read_bytes_def)
  then have "unat (of_nat i :: u64) = i" using assms by (simp add: unat_of_nat_u64)
  then show "read_bytes addr n (write_bytes addr bs m) ! i = take n bs ! i"
    using i assms by (simp add: read_bytes_def write_bytes_def)
qed

lemma write_bytes_other: "length bs \<le> unat (a - addr) \<Longrightarrow> write_bytes addr bs m a = m a"
  by (simp add: write_bytes_def)

text \<open>The instruction at an address, when it is \<open>mov rax, imm64; jmp rax\<close>: where it jumps to.\<close>

definition decode_jump :: "u64 \<Rightarrow> memory \<Rightarrow> u64 option" where
  "decode_jump addr m =
     (if read_bytes addr 2 m = [0x48, 0xB8] \<and> read_bytes (addr + 10) 2 m = [0xFF, 0xE0]
      then Some (of_nat (le_nat (read_bytes (addr + 2) 8 m))) else None)"

lemma read_bytes_offset: "read_bytes (addr + of_nat k) n m = drop k (read_bytes addr (k + n) m)"
  by (rule nth_equalityI) (simp_all add: read_bytes_def ac_simps)

lemma patched_window: "read_bytes (sa_ntdll item) PATCH_LEN (patch_stub item m) = trampoline (sa_edr item)"
  using read_write_same [of "trampoline (sa_edr item)" PATCH_LEN "sa_ntdll item" m] length_trampoline [of "sa_edr item"]
  by (simp add: patch_stub_trampoline PATCH_LEN_def)

lemma read_bytes_take: "n \<le> k \<Longrightarrow> read_bytes addr n m = take n (read_bytes addr k m)"
  by (simp add: read_bytes_def take_map)

lemma decode_window:
  assumes "read_bytes addr PATCH_LEN m = trampoline edr"
  shows "decode_jump addr m = Some edr"
proof -
  have w: "take k (read_bytes addr PATCH_LEN m) = take k (trampoline edr)" for k by (simp add: assms)
  have "read_bytes addr 2 m = take 2 (trampoline edr)"
    using read_bytes_take [of 2 PATCH_LEN addr m] w by (simp add: PATCH_LEN_def)
  moreover have "read_bytes (addr + 10) 2 m = drop 10 (take 12 (trampoline edr))"
    using read_bytes_offset [of addr 10 2 m] read_bytes_take [of 12 PATCH_LEN addr m] w by (simp add: PATCH_LEN_def)
  moreover have "read_bytes (addr + 2) 8 m = drop 2 (take 10 (trampoline edr))"
    using read_bytes_offset [of addr 2 8 m] read_bytes_take [of 10 PATCH_LEN addr m] w by (simp add: PATCH_LEN_def)
  ultimately show ?thesis by (simp add: decode_jump_def trampoline_def)
qed

text \<open>Stubs that do not overlap.\<close>

definition apart :: "u64 \<Rightarrow> u64 \<Rightarrow> bool" where
  "apart a b \<longleftrightarrow> PATCH_LEN \<le> unat (a - b) \<and> PATCH_LEN \<le> unat (b - a)"

lemma apart_address:
  assumes "apart a b" "k < PATCH_LEN"
  shows "PATCH_LEN \<le> unat (a + of_nat k - b)"
proof -
  have k: "unat (of_nat k :: u64) = k" using assms(2) by (simp add: unat_of_nat_u64 PATCH_LEN_def)
  have split: "a + of_nat k - b = (a - b) + of_nat k" by simp
  have "unat (a - b) + unat (b - a) \<le> 2 ^ 64"
    using unat_bound [of a] unat_bound [of b] by (simp add: unat_sub_if')
  then have "unat (a - b) + PATCH_LEN \<le> 2 ^ 64" using assms(1) by (simp add: apart_def)
  then have "unat (a - b) + k < 2 ^ 64" using assms(2) by simp
  then have "unat (a + of_nat k - b) = unat (a - b) + k"
    unfolding split by (simp add: unat_plus_if' k)
  then show ?thesis using assms(1) by (simp add: apart_def)
qed

lemma read_bytes_apart:
  "apart a (sa_ntdll item) \<Longrightarrow> read_bytes a PATCH_LEN (patch_stub item m) = read_bytes a PATCH_LEN m"
  by (simp add: read_bytes_def patch_stub_trampoline write_bytes_other length_trampoline apart_address)

lemma patch_all_windows:
  assumes "patch_all protect items m = Some m'"
    and "\<And>a. a \<in> set items \<Longrightarrow> apart (sa_ntdll a) x \<and> apart x (sa_ntdll a)"
  shows "read_bytes x PATCH_LEN m' = read_bytes x PATCH_LEN m"
  using assms
proof (induction items arbitrary: m)
  case Nil
  then show ?case by simp
next
  case (Cons item items)
  then have "patch_all protect items (patch_stub item m) = Some m'" by (auto simp: Let_def split: if_splits)
  with Cons.IH Cons.prems(2) show ?case by (simp add: read_bytes_apart)
qed

lemma patch_all_jumps:
  assumes "patch_all protect items m = Some m'" "item \<in> set items"
    and "sorted_wrt (\<lambda>a b. apart (sa_ntdll a) (sa_ntdll b)) items"
  shows "read_bytes (sa_ntdll item) PATCH_LEN m' = trampoline (sa_edr item)"
  using assms
proof (induction items arbitrary: m)
  case Nil
  then show ?case by simp
next
  case (Cons i items)
  then have rest: "patch_all protect items (patch_stub i m) = Some m'" by (auto simp: Let_def split: if_splits)
  show ?case
  proof (cases "item \<in> set items")
    case True
    then show ?thesis using Cons.IH rest Cons.prems(3) by simp
  next
    case False
    then have "item = i" using Cons.prems(2) by simp
    moreover have "read_bytes (sa_ntdll i) PATCH_LEN m' = read_bytes (sa_ntdll i) PATCH_LEN (patch_stub i m)"
      by (rule patch_all_windows [OF rest]) (use Cons.prems(3) in \<open>auto simp: apart_def\<close>)
    ultimately show ?thesis by (simp add: patched_window)
  qed
qed

lemma patch_all_other:
  assumes "patch_all protect items m = Some m'" "\<And>i. i \<in> set items \<Longrightarrow> PATCH_LEN \<le> unat (a - sa_ntdll i)"
  shows "m' a = m a"
  using assms
proof (induction items arbitrary: m)
  case Nil
  then show ?case by simp
next
  case (Cons i items)
  then have "patch_all protect items (patch_stub i m) = Some m'" by (auto simp: Let_def split: if_splits)
  with Cons show ?case by (simp add: patch_stub_trampoline write_bytes_other length_trampoline)
qed

subsection \<open>System call numbers\<close>

text \<open>The bytes of a system call stub of ntdll, and its number; a patched stub has none any more.\<close>

lemma ssn_of_stub:
  assumes "read_bytes a 8 m = [0x4c, 0x8b, 0xd1, 0xb8] @ u32_bytes num" "unat num < 0x1000"
  shows "ssn_at a m = Some num"
proof -
  have "read_bytes a 4 m = [0x4c, 0x8b, 0xd1, 0xb8]" using assms(1) read_bytes_take [of 4 8 a m] by simp
  then have head: "read_u32 a m = 0xb8d18b4c" by (simp add: read_u32_def)
  have num: "read_u64 a m = of_nat (0xb8d18b4c + 2 ^ 32 * unat num)"
    by (simp add: read_u64_def assms(1))
  have "unat num < 2 ^ 32" using unat_bound [of num] by simp
  then have u: "unat (read_u64 a m) = 0xb8d18b4c + 2 ^ 32 * unat num"
    unfolding num by (subst unat_of_nat_u64) simp_all
  have "unat (drop_bit 32 (read_u64 a m)) = unat num"
    by (simp only: unat_drop_bit_eq u) (simp add: drop_bit_eq_div)
  then have "ucast (drop_bit 32 (read_u64 a m)) = num" 
    using \<open>unat num < 2 ^ 32\<close> by (simp add: word_unat_eq_iff unsigned_ucast_eq take_bit_nat_eq_self)
  moreover have "num AND 0xfff = num"
  proof -
    have "num AND 0xfff = take_bit 12 num" by (simp add: take_bit_eq_mask mask_eq_exp_minus_1)
    also have "\<dots> = num" using assms(2) by (simp add: word_unat_eq_iff unsigned_take_bit_eq take_bit_nat_eq_self)
    finally show ?thesis .
  qed
  ultimately show ?thesis by (simp add: ssn_at_def head)
qed

lemma ssn_patched:
  assumes "read_bytes a PATCH_LEN m = trampoline edr"
  shows "ssn_at a m = None"
proof -
  obtain x y zs where "u64_bytes edr = x # y # zs"
    using length_bytes(1) [of edr] by (cases "u64_bytes edr" rule: remdups_adj.cases) simp_all
  then have "read_bytes a 4 m = [0x48, 0xB8, x, y]"
    using assms read_bytes_take [of 4 PATCH_LEN a m] by (simp add: trampoline_def PATCH_LEN_def)
  then have k: "read_u32 a m = of_nat (0x48 + 256 * le_nat [0xB8, x, y])"
    by (simp add: read_u32_def)
  have "unat (read_u32 a m) mod 256 = 0x48"
    unfolding k unat_of_nat take_bit_eq_mod by (simp add: mod_mod_cancel del: le_nat.simps)
  then have "read_u32 a m \<noteq> 0xb8d18b4c" by auto
  then show ?thesis by (simp add: ssn_at_def)
qed

subsection \<open>Threads\<close>

lemma suspend_threads_handles: "snd (suspend_threads opens tids s) = filter opens tids"
  by (induction tids arbitrary: s) (auto simp: split_def)

lemma suspend_threads_count: "fst (suspend_threads opens tids s) t = s t + count_list (filter opens tids) t"
  by (induction tids arbitrary: s) (auto simp: split_def Let_def)

lemma resume_threads_count: "resume_all_threads tids s t = s t - count_list tids t"
  by (induction tids arbitrary: s) auto

lemma suspend_resume: "resume_all_threads (filter opens tids) (fst (suspend_threads opens tids s)) = s"
  by (rule ext) (simp add: resume_threads_count suspend_threads_count)

text \<open>The thread that installs the hooks is not among those it suspends, nor is any other process's.\<close>

lemma own_thread_runs:
  "get_thread_ids pid current (Some entries) = Some tids \<Longrightarrow>
     set tids = {tid. (pid, tid) \<in> set entries \<and> tid \<noteq> current}"
  by (force simp: get_thread_ids_def)

subsection \<open>Properties\<close>

text \<open>
  C39. Installing the hooks, when it ends without a panic: both functions of ntdll jump to their hooks and to
  nothing else, every byte outside the two windows of 32 bytes is as it was, every thread is as often
  suspended as before, and the system call numbers are those of the memory before the change (after it,
  they could not be found any more).
\<close>

theorem hooks_installed:
  assumes "init_hooks env m suspended = Some (repo, m', suspended')"
    and "he_ntdll env = Some proc" "proc ''ZwOpenProcess'' = Some zwop" "proc ''ZwAllocateVirtualMemory'' = Some zwavm"
    and "apart zwop zwavm"
  shows "decode_jump zwop m' = Some (he_nt_open_process env)
     \<and> decode_jump zwavm m' = Some (he_virtual_alloc_ex env)
     \<and> (\<forall>a. unat (a - zwop) < PATCH_LEN \<or> unat (a - zwavm) < PATCH_LEN \<or> m' a = m a)
     \<and> suspended' = suspended
     \<and> repo = SYSCALL_NUMBER (Some proc) m \<and> ssn_at zwop m' = None \<and> ssn_at zwavm m' = None"
proof -
  let ?items = "[\<lparr>sa_edr = he_virtual_alloc_ex env, sa_ntdll = zwavm\<rparr>,
      \<lparr>sa_edr = he_nt_open_process env, sa_ntdll = zwop\<rparr>]"
  obtain tids where tids: "get_thread_ids (he_pid env) (he_current_thread env) (he_snapshot env) = Some tids"
    and p: "patch_all (he_protect env) ?items m = Some m'" "repo = SYSCALL_NUMBER (Some proc) m"
    and s: "suspended' = resume_all_threads (snd (suspend_threads (he_opens env) tids suspended))
        (fst (suspend_threads (he_opens env) tids suspended))"
    using assms(1-4)
    by (auto simp: init_hooks_def suspend_all_threads_def stub_addresses_def patch_def Let_def
        split: option.splits prod.splits if_splits)
  have sorted: "sorted_wrt (\<lambda>a b. apart (sa_ntdll a) (sa_ntdll b)) ?items"
    using assms(5) by (simp add: apart_def)
  have w1: "read_bytes zwop PATCH_LEN m' = trampoline (he_nt_open_process env)"
    using patch_all_jumps [OF p(1) _ sorted, of "\<lparr>sa_edr = he_nt_open_process env, sa_ntdll = zwop\<rparr>"] by simp
  have w2: "read_bytes zwavm PATCH_LEN m' = trampoline (he_virtual_alloc_ex env)"
    using patch_all_jumps [OF p(1) _ sorted, of "\<lparr>sa_edr = he_virtual_alloc_ex env, sa_ntdll = zwavm\<rparr>"] by simp
  have other: "unat (a - zwop) < PATCH_LEN \<or> unat (a - zwavm) < PATCH_LEN \<or> m' a = m a" for a
  proof -
    have "m' a = m a" if "PATCH_LEN \<le> unat (a - zwop)" "PATCH_LEN \<le> unat (a - zwavm)"
      by (rule patch_all_other [OF p(1)]) (use that in auto)
    then show ?thesis by linarith
  qed
  show ?thesis
    using decode_window [OF w1] decode_window [OF w2] other p(2) ssn_patched [OF w1] ssn_patched [OF w2]
    by (simp add: s suspend_threads_handles suspend_resume)
qed

text \<open>A process with two threads and the two stubs at 0x1000 and 0x2000.\<close>

definition sample_hook_env :: hook_env where
  "sample_hook_env = \<lparr>he_pid = 8, he_current_thread = 2, he_snapshot = Some [(8, 1), (8, 2), (9, 3)],
     he_opens = (\<lambda>_. True),
     he_ntdll = Some (\<lambda>name. if name = ''ZwOpenProcess'' then Some 0x1000
       else if name = ''ZwAllocateVirtualMemory'' then Some 0x2000 else None),
     he_protect = (\<lambda>_. (True, True)), he_nt_open_process = 0x7000, he_virtual_alloc_ex = 0x7100\<rparr>"

definition sample_memory :: memory where
  "sample_memory = write_bytes 0x1000 ([0x4c, 0x8b, 0xd1, 0xb8] @ u32_bytes 0x26) (\<lambda>_. 0)"

lemma sample_ssn: "ssn_at 0x1000 sample_memory = Some 0x26"
  by (rule ssn_of_stub) (simp_all add: sample_memory_def read_write_same)

lemma sample_hooks: "\<exists>repo m' suspended'. init_hooks sample_hook_env sample_memory (\<lambda>_. 0) = Some (repo, m', suspended')"
proof -
  have "SYSCALL_NUMBER (he_ntdll sample_hook_env) sample_memory ''ZwOpenProcess'' = Some 0x26"
    by (simp add: SYSCALL_NUMBER_def sample_hook_env_def NT_FUNC_NAMES_def sample_ssn split: option.split)
  then show ?thesis
    by (simp add: init_hooks_def suspend_all_threads_def get_thread_ids_def stub_addresses_def patch_def Let_def
        sample_hook_env_def split: prod.split)
qed

theorem hooks_installed_witness:
  "\<exists>repo m' suspended'. init_hooks sample_hook_env sample_memory (\<lambda>_. 0) = Some (repo, m', suspended')
     \<and> decode_jump 0x1000 m' = Some 0x7000 \<and> decode_jump 0x2000 m' = Some 0x7100 \<and> suspended' = (\<lambda>_. 0)"
proof -
  obtain repo m' suspended' where h: "init_hooks sample_hook_env sample_memory (\<lambda>_. 0) = Some (repo, m', suspended')"
    using sample_hooks by blast
  have "apart 0x1000 0x2000" by (simp add: apart_def PATCH_LEN_def)
  then show ?thesis
    using hooks_installed [OF h, of _ "0x1000" "0x2000"] h by (simp add: sample_hook_env_def)
qed

end
