(* ===== verification/Agent_Engines.thy ===== *)
theory Agent_Engines
  imports Agent_Analyzer
begin

text \<open>
  How the agent gets what its analysis works with: the name of the signer out of the provider data of
  \<open>WinVerifyTrust\<close> (\<open>authenticode.rs\<close>), the model (\<open>MlEngine::new\<close> of \<open>ml.rs\<close> and its loading in \<open>main.rs\<close>),
  and the table of signatures (\<open>init_db_pool\<close> of \<open>db.rs\<close>).
\<close>

subsection \<open>Strict decoding of UTF-16\<close>

text \<open>\<open>String::from_utf16\<close>: a surrogate without its partner is an error.\<close>

fun from_utf16 :: "u16 list \<Rightarrow> string option" where
  "from_utf16 [] = Some []"
| "from_utf16 [u] =
     (if is_high_surrogate (unat u) \<or> is_low_surrogate (unat u) then None else Some (utf8_encode (unat u)))"
| "from_utf16 (u # v # us) =
     (if is_high_surrogate (unat u) then
        (if is_low_surrogate (unat v)
         then map_option ((@) (utf8_encode (0x10000 + (unat u - 0xD800) * 0x400 + (unat v - 0xDC00)))) (from_utf16 us)
         else None)
      else if is_low_surrogate (unat u) then None
      else map_option ((@) (utf8_encode (unat u))) (from_utf16 (v # us)))"

text \<open>Where it succeeds it gives what the lossy decoding gives.\<close>

lemma from_utf16_lossy_agrees: "from_utf16 us = Some s \<Longrightarrow> from_utf16_lossy us = s"
  by (induction us arbitrary: s rule: from_utf16.induct) (auto split: if_splits)

lemma from_utf16_wide: "is_ascii s \<Longrightarrow> from_utf16 (wide s) = Some s"
proof (induction s rule: induct_list012)
  case 1
  then show ?case by simp
next
  case (2 c)
  then show ?case
    by (simp add: unat_wide_char is_ascii_def is_high_surrogate_def is_low_surrogate_def utf8_encode_ascii)
next
  case (3 c d s)
  have "from_utf16 (wide (d # s)) = Some (d # s)" using 3 by (simp add: is_ascii_def)
  with 3(3) show ?case
    by (simp add: unat_wide_char is_ascii_def is_high_surrogate_def is_low_surrogate_def utf8_encode_ascii)
qed

subsection \<open>The name of the signer\<close>

text \<open>
  The provider data as far as they are read: the first signer and the first certificate of its chain, each
  with the count beside its pointer; \<open>None\<close> for a null pointer. A certificate is a value of its own type.
\<close>

record 'c provider_signer =
  sg_cert_count :: u32
  sg_first_cert :: "'c option option"

record 'c provider_data =
  pd_signer_count :: u32
  pd_first_signer :: "'c provider_signer option"

definition INVALID_HANDLE :: u64 where "INVALID_HANDLE = - 1"

text \<open>
  \<open>provider_data_of\<close> is \<open>WTHelperProvDataFromStateData\<close>, \<open>cert_name\<close> is \<open>CertGetNameStringW\<close>: from the certificate and a
  buffer, if one is given, the number of code units and the buffer afterwards.
\<close>

definition get_signer_name ::
  "(u64 \<Rightarrow> 'c provider_data option) \<Rightarrow> ('c \<Rightarrow> u16 list option \<Rightarrow> u32 \<times> u16 list) \<Rightarrow> u64 \<Rightarrow> string option" where
  "get_signer_name provider_data_of cert_name state_data =
     (if state_data = INVALID_HANDLE \<or> state_data = 0 then None
      else case provider_data_of state_data of
        None \<Rightarrow> None
      | Some prov_data \<Rightarrow>
          (case pd_first_signer prov_data of
             None \<Rightarrow> None
           | Some signer \<Rightarrow>
               if pd_signer_count prov_data = 0 then None
               else case sg_first_cert signer of
                 None \<Rightarrow> None
               | Some cert_node \<Rightarrow>
                   if sg_cert_count signer = 0 then None
                   else case cert_node of
                     None \<Rightarrow> None
                   | Some cert_context \<Rightarrow>
                       (let len = fst (cert_name cert_context None) in
                        if len = 0 then None
                        else
                          (let (res, buffer) = cert_name cert_context (Some (replicate (unat len) 0)) in
                           if res = 0 then None
                           else from_utf16
                             (if buffer \<noteq> [] \<and> last buffer = 0 then butlast buffer else buffer)))))"

text \<open>
  What is documented of \<open>CertGetNameStringW\<close>: it counts the name with its final zero, and fills a buffer that is
  large enough with the name and the zero.
\<close>

definition names_certs :: "('c \<Rightarrow> u16 list option \<Rightarrow> u32 \<times> u16 list) \<Rightarrow> ('c \<Rightarrow> u16 list) \<Rightarrow> bool" where
  "names_certs cert_name name_of \<longleftrightarrow>
     (\<forall>c. fst (cert_name c None) = of_nat (length (name_of c) + 1) \<and> length (name_of c) + 1 < 2 ^ 32
        \<and> cert_name c (Some (replicate (length (name_of c) + 1) 0)) = (of_nat (length (name_of c) + 1), name_of c @ [0]))"

lemma get_signer_name_read:
  assumes "names_certs cert_name name_of" and "state_data \<noteq> INVALID_HANDLE" "state_data \<noteq> 0"
    and "provider_data_of state_data = Some
      \<lparr>pd_signer_count = n, pd_first_signer = Some \<lparr>sg_cert_count = k, sg_first_cert = Some (Some c)\<rparr>\<rparr>"
    and "n \<noteq> 0" "k \<noteq> 0"
  shows "get_signer_name provider_data_of cert_name state_data = from_utf16 (name_of c)"
proof -
  define l where "l = length (name_of c) + 1"
  define w where "w = (of_nat l :: u32)"
  have cert: "fst (cert_name c None) = w" "l < 2 ^ 32" "cert_name c (Some (replicate l 0)) = (w, name_of c @ [0])"
    using assms(1) by (simp_all add: names_certs_def l_def w_def)
  have len: "unat w = l" using cert(2) by (simp add: w_def unat_of_nat)
  then have "w \<noteq> 0" by (auto simp: l_def)
  then show ?thesis
    using assms(2-6) by (simp add: get_signer_name_def Let_def cert(1,3) len)
qed

subsection \<open>The state of WinVerifyTrust\<close>

datatype state_action = State_Verify | State_Close

record wintrust_data =
  wd_file_path :: "u16 list"
  wd_state_action :: state_action
  wd_state_data :: u64

text \<open>
  \<open>win_verify_trust\<close> answers with the data as it leaves them and the status. The second component of the result
  lists the data of the calls that are made.
\<close>

definition verify_file ::
  "(wintrust_data \<Rightarrow> wintrust_data \<times> u32) \<Rightarrow> (u64 \<Rightarrow> string option) \<Rightarrow> u16 list
     \<Rightarrow> signature_status \<times> wintrust_data list" where
  "verify_file win_verify_trust signer_name file_path =
     (let win_trust_data = \<lparr>wd_file_path = file_path @ [0], wd_state_action = State_Verify, wd_state_data = 0\<rparr>;
          (verified, status) = win_verify_trust win_trust_data;
          signer = (if status \<noteq> TRUST_E_NOSIGNATURE then signer_name (wd_state_data verified) else None);
          closing = verified\<lparr>wd_state_action := State_Close\<rparr> in
      (verify_signature (status, signer), [win_trust_data, closing]))"

text \<open>
  The state that the verification opens is closed once, with its handle, whatever the status; the name is read before that;
  and a file without a signature has no signer and is not trusted.
\<close>

lemma verify_file_closes:
  "\<exists>opened closed. snd (verify_file win_verify_trust signer_name file_path) = [opened, closed]
     \<and> wd_state_action opened = State_Verify \<and> wd_state_action closed = State_Close
     \<and> wd_state_data closed = wd_state_data (fst (win_verify_trust opened))"
  by (simp add: verify_file_def Let_def case_prod_beta)

lemma verify_file_status:
  assumes "fst (verify_file win_verify_trust signer_name file_path) = r"
  shows "\<not> ss_is_signed r \<Longrightarrow> ss_signer r = None \<and> \<not> ss_is_trusted r \<and> \<not> ss_is_revoked r"
    and "ss_is_revoked r \<Longrightarrow> ss_is_signed r \<and> \<not> ss_is_trusted r"
  using assms
  by (auto simp: verify_file_def verify_signature_def Let_def case_prod_beta TRUST_E_NOSIGNATURE_def
      CERT_E_REVOKED_def)

subsection \<open>The model\<close>

text \<open>Each step of the builder may fail; \<open>load\<close> is \<open>commit_from_file\<close>.\<close>

definition ml_engine_new ::
  "(string + 'b) \<Rightarrow> ('b \<Rightarrow> string + 'b) \<Rightarrow> ('b \<Rightarrow> string + 'b) \<Rightarrow> (string \<Rightarrow> 'b \<Rightarrow> string + 'm)
     \<Rightarrow> string \<Rightarrow> string + 'm" where
  "ml_engine_new builder optimization_level intra_threads load model_path =
     (case builder of
        Inl e \<Rightarrow> Inl e
      | Inr b0 \<Rightarrow>
          (case optimization_level b0 of
             Inl e \<Rightarrow> Inl e
           | Inr b1 \<Rightarrow>
               (case intra_threads b1 of
                  Inl e \<Rightarrow> Inl e
                | Inr b2 \<Rightarrow>
                    (case load model_path b2 of
                       Inl e \<Rightarrow> Inl (''Failed to load model from '' @ model_path @ '': '' @ e)
                     | Inr session \<Rightarrow> Inr session))))"

text \<open>\<open>model_path\<close> is the path of the model if the file exists, and its text if it is UTF-8.\<close>

definition load_ml_engine :: "(string \<Rightarrow> string + 'm) \<Rightarrow> string option option \<Rightarrow> 'm option" where
  "load_ml_engine new model_path =
     (case model_path of
        None \<Rightarrow> None
      | Some None \<Rightarrow> None
      | Some (Some path) \<Rightarrow> (case new path of Inr engine \<Rightarrow> Some engine | Inl e \<Rightarrow> None))"

text \<open>A model that fails to load is no error of the start: the stage of the model is left out.\<close>

lemma no_model_no_stage:
  assumes "load_ml_engine new model_path = None" and "env_ml env = load_ml_engine new model_path"
  shows "stage_ml_check env file_buffer file_pe ctx = (ctx, Continue)"
  using assms by (simp add: stage_ml_check_def)

subsection \<open>The table of signatures\<close>

datatype db_error = Pool_Error string | Db_Message string

text \<open>The results of building the pool, of taking a connection and of making the table.\<close>

definition init_db_pool ::
  "(string + 'pool) \<Rightarrow> ('pool \<Rightarrow> string + 'conn) \<Rightarrow> ('conn \<Rightarrow> string + unit) \<Rightarrow> db_error + 'pool" where
  "init_db_pool build get make_table =
     (case build of
        Inl e \<Rightarrow> Inl (Pool_Error e)
      | Inr pool \<Rightarrow>
          (case get pool of
             Inl e \<Rightarrow> Inl (Db_Message (''Failed to get DB conn: '' @ e))
           | Inr conn \<Rightarrow>
               (case make_table conn of
                  Inl e \<Rightarrow> Inl (Db_Message (''Schema init failed: '' @ e))
                | Inr _ \<Rightarrow> Inr pool)))"

text \<open>The row that the defaults of the table make of a hash alone: a known bad file.\<close>

definition default_row :: "string \<Rightarrow> sig_row" where
  "default_row hash = \<lparr>row_hash = hash, row_type = 0, row_verdict = 100, row_meta = None\<rparr>"

text \<open>Such a row is never found: its column \<open>meta\<close> is null, and the query for it fails.\<close>

lemma default_row_never_found:
  assumes "\<forall>r \<in> set rows. row_hash r \<noteq> hash"
  shows "check_signature (Some (default_row hash # rows)) hash = None"
    and "check_signature (Some rows) hash = None"
proof -
  have "find (\<lambda>r. row_hash r = hash) rows = None" using assms by (auto simp: find_None_iff)
  then show "check_signature (Some (default_row hash # rows)) hash = None" "check_signature (Some rows) hash = None"
    by (simp_all add: check_signature_def default_row_def row_record_def)
qed

end
