(* ===== verification/Agent_Startup.thy ===== *)
theory Agent_Startup
  imports Agent_Engines Fs_Telemetry Server_Lifecycle
begin

text \<open>
  The agent's own process: \<open>main.rs\<close>, the driver service of \<open>communication/driver/mgmt.rs\<close>, the registration
  with the server (\<open>communication/network/server.rs\<close>), what the probes find out (\<open>probes/\<close>), the injector
  and the log file. System calls, the shell and the file system are parameters.
\<close>

subsection \<open>The driver service\<close>

definition DRIVER_SERVICE_NAME :: string where "DRIVER_SERVICE_NAME = ''Galatea''"
definition DRIVER_FILE_NAME :: string where "DRIVER_FILE_NAME = ''driver/galatea_kernel_sensor.sys''"

text \<open>The shell runs a command in a world, and gives its output or an error.\<close>

type_synonym 'w shell = "string \<Rightarrow> 'w \<Rightarrow> 'w \<times> (string + string)"

definition service_exists :: "'w shell \<Rightarrow> string \<Rightarrow> 'w \<Rightarrow> 'w \<times> bool" where
  "service_exists run name w =
     (case run (''sc query '' @ name) w of (w', r) \<Rightarrow> (w', case r of Inr _ \<Rightarrow> True | Inl _ \<Rightarrow> False))"

definition is_service_running :: "'w shell \<Rightarrow> string \<Rightarrow> 'w \<Rightarrow> 'w \<times> bool" where
  "is_service_running run name w =
     (case run (''sc query '' @ name) w of
        (w', r) \<Rightarrow> (w', case r of Inr out \<Rightarrow> str_contains out ''RUNNING'' | Inl _ \<Rightarrow> False))"

definition install_driver_service :: "'w shell \<Rightarrow> string \<Rightarrow> string \<Rightarrow> 'w \<Rightarrow> 'w \<times> (string + unit)" where
  \<open>install_driver_service run name path w =
     (let cmd = ''sc create '' @ name @ '' type= kernel binPath= "'' @ path @ ''"'' in
      case run cmd w of
        (w', r) \<Rightarrow> (w', case r of Inr _ \<Rightarrow> Inr ()
          | Inl e \<Rightarrow> Inl (''Failed to install service: '' @ e @ ''. Cmd: '' @ cmd)))\<close>

definition start_driver_service :: "'w shell \<Rightarrow> string \<Rightarrow> 'w \<Rightarrow> 'w \<times> (string + unit)" where
  "start_driver_service run name w =
     (case run (''sc start '' @ name) w of
        (w', r) \<Rightarrow> (w', case r of Inr _ \<Rightarrow> Inr ()
          | Inl e \<Rightarrow> Inl (''Failed to start service: '' @ e @ ''. (Is TestSigning enabled?)'')))"

definition stop_driver_service :: "'w shell \<Rightarrow> string \<Rightarrow> 'w \<Rightarrow> 'w \<times> (string + unit)" where
  "stop_driver_service run name w = (case run (''sc stop '' @ name) w of (w', _) \<Rightarrow> (w', Inr ()))"

definition uninstall_driver_service :: "'w shell \<Rightarrow> string \<Rightarrow> 'w \<Rightarrow> 'w \<times> (string + unit)" where
  "uninstall_driver_service run name w =
     (case run (''sc delete '' @ name) w of
        (w', r) \<Rightarrow> (w', case r of Inr _ \<Rightarrow> Inr () | Inl e \<Rightarrow> Inl (''Failed to delete service: '' @ e)))"

text \<open>\<open>driver_path\<close> is the driver's file beside the executable, if it is there.\<close>

definition resolve_driver_path :: "string option \<Rightarrow> string + string" where
  "resolve_driver_path prod_path =
     (case prod_path of
        Some p \<Rightarrow> Inr p
      | None \<Rightarrow> Inl (''Could not locate '' @ [CHR 0x27] @ DRIVER_FILE_NAME @ [CHR 0x27]
                    @ ''. Checked local dir and target/dist.''))"

definition ensure_running :: "'w shell \<Rightarrow> 'w \<Rightarrow> 'w \<times> (string + unit)" where
  "ensure_running run w =
     (case is_service_running run DRIVER_SERVICE_NAME w of
        (w', running) \<Rightarrow> if running then (w', Inr ()) else start_driver_service run DRIVER_SERVICE_NAME w')"

definition init_driver :: "'w shell \<Rightarrow> bool \<Rightarrow> string option \<Rightarrow> 'w \<Rightarrow> 'w \<times> (string + unit)" where
  "init_driver run elevated prod_path w =
     (if \<not> elevated then (w, Inr ())
      else
        (case resolve_driver_path prod_path of
           Inl e \<Rightarrow> (w, Inl e)
         | Inr path \<Rightarrow>
             (case service_exists run DRIVER_SERVICE_NAME w of
                (w', True) \<Rightarrow> ensure_running run w'
              | (w', False) \<Rightarrow>
                  (case install_driver_service run DRIVER_SERVICE_NAME path w' of
                     (w'', Inl e) \<Rightarrow> (w'', Inl e)
                   | (w'', Inr _) \<Rightarrow> ensure_running run w''))))"

subsection \<open>Registration with the server\<close>

text \<open>\<open>new_uuid\<close> is a fresh UUID.\<close>

definition registration_body :: "string \<Rightarrow> agent_registration" where
  "registration_body new_uuid =
     \<lparr>reg_uuid = new_uuid,
      reg_host_info = \<lparr>hi_hostname = ''fake'', hi_os_version = ''test'', hi_agent_version = ''0.1.0'',
        hi_ip_address = None\<rparr>,
      reg_auth = Secret \<lparr>au_psk = AGENT_PSK\<rparr>\<rparr>"

text \<open>\<open>post\<close> sends the body to an address and gives the answer's text; an error status is an error.\<close>

definition register_with_server ::
  "(string \<Rightarrow> agent_registration \<Rightarrow> 'w \<Rightarrow> 'w \<times> (string + string)) \<Rightarrow> string \<Rightarrow> string \<Rightarrow> 'w \<Rightarrow> 'w \<times> (string + unit)" where
  "register_with_server post new_uuid server_uri w =
     (case post (server_uri @ ''/api/v1/agents/register'') (registration_body new_uuid) w of
        (w', r) \<Rightarrow> (w', map_sum id (\<lambda>_. ()) r))"

subsection \<open>Main\<close>

text \<open>
  What \<open>main\<close> does that is seen outside: the handles it opens and closes, what it starts, and the events it
  gives to the workers.
\<close>

datatype main_handle = Listener | Control

datatype main_effect =
    Opened main_handle
  | Closed main_handle
  | Filter_Listener_Started
  | Registered_Agent
  | Ipc_Started
  | Registered_With_Server
  | Gave_Worker galatea_event

datatype main_end = Finished | Bailed string

text \<open>
  What each step answers. An event is what \<open>DeviceIoControl\<close> gave and how many bytes it returned; \<open>None\<close>
  ends the loop. \<open>me_packers\<close> is \<open>None\<close> when there is no file of signatures, \<open>me_handler\<close> when the build sets no handler of
  Ctrl+C; \<open>me_db_path\<close> is \<open>None\<close> when the directory is not UTF-8 (the paths of the signatures and of the model are in the
  same directory). The model is loaded by \<open>load_ml_engine\<close> and changes no step.
\<close>

record main_env =
  me_handler :: "(string + unit) option"
  me_db_path :: "string option"
  me_init_driver :: "string + unit"
  me_db :: "string + unit"
  me_packers :: "(string + unit) option"
  me_filter_port :: "string + unit"
  me_open_listener :: bool
  me_open_control :: bool
  me_register :: bool
  me_register_server :: "string + unit"
  me_events :: "(galatea_event \<times> nat) option list"

fun event_loop :: "(galatea_event \<times> nat) option list \<Rightarrow> main_effect list" where
  "event_loop [] = []"
| "event_loop (None # _) = []"
| "event_loop (Some (event, bytes_returned) # rest) =
     (if bytes_returned < size_of_event then event_loop rest else Gave_Worker event # event_loop rest)"

definition main_loop :: "main_env \<Rightarrow> main_effect list \<times> main_end" where
  "main_loop env =
     (let (effects, ended) =
        (if \<not> me_open_listener env then ([], Bailed ''Could not open driver handle'')
         else if \<not> me_open_control env then
           ([Opened Listener, Closed Listener], Bailed ''Could not open control handle'')
         else if \<not> me_register env then
           ([Opened Listener, Opened Control, Closed Listener, Closed Control],
            Bailed ''Registration Handshake Failed'')
         else
           ([Opened Listener, Opened Control, Registered_Agent, Ipc_Started]
            @ (case me_register_server env of Inr _ \<Rightarrow> [Registered_With_Server] | Inl _ \<Rightarrow> [])
            @ event_loop (me_events env) @ [Closed Listener, Closed Control], Finished)) in
      ((case me_filter_port env of Inr _ \<Rightarrow> [Filter_Listener_Started] | Inl _ \<Rightarrow> []) @ effects, ended))"

definition agent_main :: "main_env \<Rightarrow> main_effect list \<times> main_end" where
  "agent_main env =
     (case me_handler env of
        Some (Inl e) \<Rightarrow> ([], Bailed ''Failed to initialize signal handling'')
      | _ \<Rightarrow>
          (case me_init_driver env of
             Inl e \<Rightarrow> ([], Bailed e)
           | Inr _ \<Rightarrow>
               (case me_db_path env of
                  None \<Rightarrow> ([], Bailed ''Invalid UTF-8 database path'')
                | Some path \<Rightarrow>
                    (case me_db env of
                       Inl e \<Rightarrow> ([], Bailed e)
                     | Inr _ \<Rightarrow>
                         (case me_packers env of
                            Some (Inl e) \<Rightarrow> ([], Bailed (''Failed to load signatures: '' @ e))
                          | _ \<Rightarrow> main_loop env)))))"

text \<open>
  The handler of Ctrl+C cancels the requests of the listener, if it is stored already; the request
  that waits then fails.
\<close>

definition ctrl_c_handler :: "u64 \<Rightarrow> u64 option" where
  "ctrl_c_handler global_listener_handle =
     (if global_listener_handle \<noteq> 0 then Some global_listener_handle else None)"

text \<open>Whatever would have come behind it, a request that fails ends the loop.\<close>

lemma event_loop_cancelled: "event_loop (events @ None # rest) = event_loop events"
  by (induction events rule: event_loop.induct) simp_all

subsection \<open>Probes\<close>

text \<open>
  \<open>get_process_info\<close>: what the system calls gave for a process that opened. The path is the part of the
  buffer that was filled, the times are the two halves of the creation time; \<open>NtQueryInformationProcess\<close> gives its status
  and the structure.
\<close>

record process_basic_information =
  pb_exit_status :: u64
  pb_peb_base_address :: u64
  pb_affinity_mask :: u64
  pb_base_priority :: i32
  pb_unique_process_id :: u64
  pb_inherited_from_unique_process_id :: u64

definition get_parent_pid :: "u32 \<times> process_basic_information \<Rightarrow> u64 option" where
  "get_parent_pid answer =
     (case answer of (status, pbi) \<Rightarrow>
        if status = 0 then Some (pb_inherited_from_unique_process_id pbi) else None)"

record process_calls =
  pr_image_path :: "u16 list option"
  pr_basic_information :: "u32 \<times> process_basic_information"
  pr_creation_time :: "(u32 \<times> u32) option"

definition FILETIME_TO_UNIX_EPOCH :: u64 where "FILETIME_TO_UNIX_EPOCH = 116444736000000000"

definition filetime_u64 :: "u32 \<Rightarrow> u32 \<Rightarrow> u64" where
  "filetime_u64 high low = push_bit 32 (ucast high) OR ucast low"

text \<open>\<open>from_timestamp\<close> is chrono's: the instant of seconds and nanoseconds, if it can be represented.\<close>

definition filetime_instant :: "(int \<Rightarrow> u32 \<Rightarrow> instant option) \<Rightarrow> u64 \<Rightarrow> instant option" where
  "filetime_instant from_timestamp ft =
     (if FILETIME_TO_UNIX_EPOCH < ft then
        (let unix_nanos = (ft - FILETIME_TO_UNIX_EPOCH) * 100;
             unix_secs = unix_nanos div 1000000000;
             nanos = ucast (unix_nanos mod 1000000000) in
         from_timestamp (sint unix_secs) nanos)
      else None)"

definition get_process_creation_time ::
  "(int \<Rightarrow> u32 \<Rightarrow> instant option) \<Rightarrow> (u32 \<times> u32) option \<Rightarrow> instant option" where
  "get_process_creation_time from_timestamp file_times =
     (case file_times of None \<Rightarrow> None | Some (high, low) \<Rightarrow> filetime_instant from_timestamp (filetime_u64 high low))"

definition get_process_image_path :: "u16 list option \<Rightarrow> string option" where
  "get_process_image_path buffer = map_option from_utf16_lossy buffer"

definition get_command_line :: "string option" where "get_command_line = None"

definition get_process_info ::
  "(int \<Rightarrow> u32 \<Rightarrow> instant option) \<Rightarrow> process_calls option \<Rightarrow> u64 \<Rightarrow> process_info option" where
  "get_process_info from_timestamp calls pid =
     (case calls of
        None \<Rightarrow> None
      | Some c \<Rightarrow>
          (let path = get_process_image_path (pr_image_path c) in
           Some \<lparr>pi_pid = pid,
                 pi_name = (case Option.bind path path_file_name of Some name \<Rightarrow> name | None \<Rightarrow> []),
                 pi_path = (case path of Some p \<Rightarrow> p | None \<Rightarrow> []),
                 pi_parent_pid = get_parent_pid (pr_basic_information c),
                 pi_command_line = get_command_line,
                 pi_creation_time = get_process_creation_time from_timestamp (pr_creation_time c)\<rparr>))"

text \<open>\<open>get_file_index\<close>: the two halves of the file index, if the file exists, opens and answers.\<close>

definition get_file_index :: "bool \<Rightarrow> bool \<Rightarrow> (u32 \<times> u32) option \<Rightarrow> u64 option" where
  "get_file_index path_exists opens information =
     (if \<not> path_exists then None
      else if \<not> opens then None
      else (case information of
              Some (high, low) \<Rightarrow> Some (push_bit 32 (ucast high) OR ucast low)
            | None \<Rightarrow> None))"

subsection \<open>Injection\<close>

text \<open>
  What the injector leaves in the target and in the agent: the handles and the memory it took. A step that
  fails ends it with the error; nothing is given back.
\<close>

datatype inject_effect = Process_Opened | Memory_Taken nat | Memory_Written string | Thread_Started

record inject_env =
  ie_open :: "string + unit"
  ie_kernel32 :: "string + unit"
  ie_load_library :: bool
  ie_alloc :: bool
  ie_write :: bool
  ie_thread :: bool

definition inject_dll :: "inject_env \<Rightarrow> string \<Rightarrow> inject_effect list \<times> (string + unit)" where
  "inject_dll env dll_path =
     (case ie_open env of
        Inl e \<Rightarrow> ([], Inl e)
      | Inr _ \<Rightarrow>
          if CHR 0x00 \<in> set dll_path then ([Process_Opened], Inl ''nul byte found in provided data'')
          else
            (case ie_kernel32 env of
               Inl e \<Rightarrow> ([Process_Opened], Inl e)
             | Inr _ \<Rightarrow>
                 if \<not> ie_load_library env then ([Process_Opened], Inl ''Bad LoadLibraryA ptr'')
                 else if \<not> ie_alloc env then ([Process_Opened], Inl ''Failed to alloc memory'')
                 else
                   (let path_len = Suc (length dll_path) in
                    if \<not> ie_write env then
                      ([Process_Opened, Memory_Taken path_len], Inl ''Failed to write Memory'')
                    else if \<not> ie_thread env then
                      ([Process_Opened, Memory_Taken path_len, Memory_Written (dll_path @ [CHR 0x00])],
                       Inl ''Failed to create remote Thread'')
                    else
                      ([Process_Opened, Memory_Taken path_len, Memory_Written (dll_path @ [CHR 0x00]),
                        Thread_Started], Inr ()))))"

subsection \<open>The log file\<close>

datatype log_level = Level_Error | Level_Info | Level_Warn | Level_Debug

definition level_chunk :: "log_level \<Rightarrow> string" where
  "level_chunk l = (case l of Level_Error \<Rightarrow> ''[!] '' | Level_Info \<Rightarrow> ''[+] '' | Level_Warn \<Rightarrow> ''[~]'' | Level_Debug \<Rightarrow> ''[*]'')"

text \<open>The lock may be poisoned; a failed write is ignored.\<close>

definition file_log :: "bool \<Rightarrow> bool \<Rightarrow> log_level \<Rightarrow> string \<Rightarrow> string \<Rightarrow> string" where
  "file_log locks writes level args file =
     (if locks \<and> writes then file @ level_chunk level @ args @ [CHR 0x0A] else file)"

definition file_log_error :: "bool \<Rightarrow> bool \<Rightarrow> log_level \<Rightarrow> string \<Rightarrow> string \<Rightarrow> string" where
  "file_log_error = file_log"

text \<open>A logger of a file that opens (it is made if it is missing); what is there stays.\<close>

definition file_logger_new :: "(string \<Rightarrow> string + string) \<Rightarrow> string \<Rightarrow> string + string" where
  "file_logger_new open_append log_path =
     (case open_append log_path of Inl e \<Rightarrow> Inl e | Inr content \<Rightarrow> Inr content)"

text \<open>\<open>parent\<close> is that of a path, if it has one.\<close>

definition exe_directory_try :: "string + string \<Rightarrow> (string \<Rightarrow> string option) \<Rightarrow> string + string" where
  "exe_directory_try current_exe parent =
     (case current_exe of
        Inl e \<Rightarrow> Inl (''Failed to locate current executable: '' @ e)
      | Inr exe \<Rightarrow>
          (case parent exe of
             None \<Rightarrow> Inl (''Executable has no parent directory: '' @ exe)
           | Some p \<Rightarrow> Inr p))"

text \<open>\<open>exe_directory\<close>: beside the executable, else the current directory, else that of the build.\<close>

definition exe_directory :: "string + string \<Rightarrow> string option \<Rightarrow> string \<Rightarrow> string" where
  "exe_directory exe_parent current_dir manifest_dir =
     (case exe_parent of
        Inr parent \<Rightarrow> parent
      | Inl _ \<Rightarrow> (case current_dir of Some d \<Rightarrow> d | None \<Rightarrow> manifest_dir))"

subsection \<open>Lemmas\<close>

lemma join_halves:
  "unat (push_bit 32 (ucast (high :: u32)) OR ucast (low :: u32) :: u64) = 2 ^ 32 * unat high + unat low"
proof -
  have b: "unat high < 2 ^ 32" "unat low < 2 ^ 32" using unsigned_less [of high] unsigned_less [of low] by simp_all
  have h: "unat (push_bit 32 (ucast high) :: u64) = push_bit 32 (unat high)"
  proof -
    have "push_bit 32 (unat high) < 2 ^ 64" using b(1) by (simp add: push_bit_eq_mult)
    moreover have "unat (ucast high :: u64) = unat high" using b(1) by (simp add: unsigned_ucast_eq take_bit_nat_eq_self)
    ultimately show ?thesis by (simp only: unsigned_push_bit_eq) (simp add: take_bit_nat_eq_self)
  qed
  have l: "unat (ucast low :: u64) = unat low" using b(2) by (simp add: unsigned_ucast_eq take_bit_nat_eq_self)
  have disjoint: "push_bit 32 (unat high) AND unat low = 0"
  proof (rule bit_eqI)
    fix n
    have "\<not> bit low n" if "32 \<le> n" using bit_imp_le_length [of low n] that by auto
    then show "bit (push_bit 32 (unat high) AND unat low) n = bit 0 n" by (auto simp: bit_simps)
  qed
  have "unat (push_bit 32 (ucast high) OR ucast low :: u64) = push_bit 32 (unat high) OR unat low"
    by (simp only: unsigned_or_eq h l)
  also have "\<dots> = push_bit 32 (unat high) + unat low" by (rule disjunctive_add_eq_or [OF disjoint, symmetric])
  finally show ?thesis by (simp add: push_bit_eq_mult)
qed

lemma find_snoc: "(\<And>x. x \<in> set xs \<Longrightarrow> \<not> P x) \<Longrightarrow> find P (xs @ ys) = find P ys"
  by (induction xs) auto

lemma timestamp_parts:
  fixes w :: u64 and from_timestamp :: "int \<Rightarrow> u32 \<Rightarrow> instant option"
  assumes "\<And>secs nanos. 0 \<le> secs \<Longrightarrow> secs < 2 ^ 35 \<Longrightarrow> unat nanos < 1000000000 \<Longrightarrow>
      from_timestamp secs nanos = Some (secs * 1000000000 + int (unat nanos))"
  shows "from_timestamp (sint (w div 1000000000)) (ucast (w mod 1000000000)) = Some (int (unat w))"
proof -
  have secs: "unat (w div 1000000000) = unat w div 1000000000" unfolding unat_div by simp
  have small: "unat w div 1000000000 < 2 ^ 35" using unat_bound [of w] by simp
  have sint: "sint (w div 1000000000) = int (unat w div 1000000000)"
    using small secs by (simp add: sint_uint signed_take_bit_int_eq_self uint_nat)
  have lt: "unat w mod 1000000000 < 1000000000" by simp
  then have "unat w mod 1000000000 < 2 ^ 32" by (rule less_trans) simp
  moreover have "unat (w mod 1000000000) = unat w mod 1000000000" unfolding unat_mod by simp
  ultimately have nanos: "unat (ucast (w mod 1000000000) :: u32) = unat w mod 1000000000"
    by (simp add: unsigned_ucast_eq take_bit_nat_eq_self)
  have "int (unat w div 1000000000) < int (2 ^ 35)" using small by (simp only: of_nat_less_iff)
  then have "int (unat w div 1000000000) < 2 ^ 35" by (simp only: of_nat_power of_nat_numeral)
  moreover have "unat (ucast (w mod 1000000000) :: u32) < 1000000000" by (simp only: nanos lt)
  ultimately have "from_timestamp (int (unat w div 1000000000)) (ucast (w mod 1000000000))
      = Some (int (unat w div 1000000000) * 1000000000 + int (unat (ucast (w mod 1000000000) :: u32)))"
    by (intro assms of_nat_0_le_iff)
  then have "from_timestamp (sint (w div 1000000000)) (ucast (w mod 1000000000))
      = Some (int (unat w div 1000000000) * 1000000000 + int (unat w mod 1000000000))"
    by (simp only: sint nanos)
  moreover have "int (unat w div 1000000000 * 1000000000 + unat w mod 1000000000) = int (unat w)"
    by (simp only: div_mult_mod_eq)
  ultimately show ?thesis by (simp only: of_nat_add of_nat_mult of_nat_numeral)
qed

text \<open>
  A creation time is exact as long as it lies before the year 2554, where the product of the conversion
  leaves 64 bits: \<open>ft\<close> counts 100 nanoseconds from 1601.
\<close>

lemma filetime_exact:
  assumes "FILETIME_TO_UNIX_EPOCH < ft" "(unat ft - unat FILETIME_TO_UNIX_EPOCH) * 100 < 2 ^ 64"
    and "\<And>secs nanos. 0 \<le> secs \<Longrightarrow> secs < 2 ^ 35 \<Longrightarrow> unat nanos < 1000000000 \<Longrightarrow>
      from_timestamp secs nanos = Some (secs * 1000000000 + int (unat nanos))"
  shows "filetime_instant from_timestamp ft
    = Some (int ((unat ft - unat FILETIME_TO_UNIX_EPOCH) * 100))"
proof -
  have sub: "unat (ft - FILETIME_TO_UNIX_EPOCH) = unat ft - unat FILETIME_TO_UNIX_EPOCH"
    using assms(1) by (simp add: unat_sub less_imp_le)
  have "unat ((ft - FILETIME_TO_UNIX_EPOCH) * 100) = (unat ft - unat FILETIME_TO_UNIX_EPOCH) * 100"
    using assms(2) by (simp only: unat_word_ariths sub) (simp add: take_bit_nat_eq_self)
  then show ?thesis
    using timestamp_parts [OF assms(3), of "(ft - FILETIME_TO_UNIX_EPOCH) * 100"] assms(1)
    unfolding filetime_instant_def Let_def by simp
qed

text \<open>Different files have different indices, however the system splits them.\<close>

lemma file_index_inject:
  "get_file_index True True (Some (h, l)) = get_file_index True True (Some (h', l')) \<longleftrightarrow> h = h' \<and> l = l'"
proof -
  have "2 ^ 32 * unat h + unat l = 2 ^ 32 * unat h' + unat l' \<longleftrightarrow> unat h = unat h' \<and> unat l = unat l'"
  proof -
    have low: "(2 ^ 32 * n + unat l) mod 2 ^ 32 = unat l" for n and l :: u32
      using unat_bound [of l] by simp
    show ?thesis using low [of "unat h" l] low [of "unat h'" l'] by (metis add_right_cancel mult_left_cancel power_not_zero zero_neq_numeral)
  qed
  then show ?thesis by (simp add: get_file_index_def word_unat_eq_iff join_halves)
qed

subsection \<open>Properties\<close>

lemma event_loop_handles [simp]:
  "count_list (event_loop evs) (Opened h) = 0" "count_list (event_loop evs) (Closed h) = 0"
  by (induction evs rule: event_loop.induct) auto

definition given_events :: "main_effect list \<Rightarrow> galatea_event list" where
  "given_events fx = concat (map (\<lambda>f. case f of Gave_Worker e \<Rightarrow> [e] | _ \<Rightarrow> []) fx)"

lemma given_events_loop: "given_events (event_loop evs) =
    map fst (filter (\<lambda>(e, n). size_of_event \<le> n) (map the (takeWhile (\<lambda>x. x \<noteq> None) evs)))"
  by (induction evs rule: event_loop.induct) (auto simp: given_events_def)

lemma given_events_Nil [simp]: "given_events [] = []"
  by (simp add: given_events_def)

lemma given_events_append [simp]: "given_events (a @ b) = given_events a @ given_events b"
  by (simp add: given_events_def)

text \<open>
  Whatever the steps of the start answer, the agent closes each handle exactly as often as it opened it, it
  opens each at most once, and events are given to the workers only after the kernel accepted the agent: in the
  order they came, without the ones that were cut short.
\<close>

theorem main_releases_handles:
  "count_list (fst (agent_main env)) (Opened h) = count_list (fst (agent_main env)) (Closed h)
   \<and> count_list (fst (agent_main env)) (Opened h) \<le> 1
   \<and> given_events (fst (agent_main env)) =
      (if Registered_Agent \<in> set (fst (agent_main env))
       then map fst (filter (\<lambda>(e, n). size_of_event \<le> n) (map the (takeWhile (\<lambda>x. x \<noteq> None) (me_events env))))
       else [])
   \<and> (snd (agent_main env) = Finished) = (Registered_Agent \<in> set (fst (agent_main env)))"
proof -
  have loop: "count_list (fst (main_loop env)) (Opened h) = count_list (fst (main_loop env)) (Closed h)"
    "count_list (fst (main_loop env)) (Opened h) \<le> 1"
    "given_events (fst (main_loop env)) =
      (if Registered_Agent \<in> set (fst (main_loop env)) then given_events (event_loop (me_events env)) else [])"
    "(snd (main_loop env) = Finished) = (Registered_Agent \<in> set (fst (main_loop env)))"
    by (cases h; auto simp: main_loop_def given_events_def split: sum.splits)+
  then show ?thesis
    by (simp add: agent_main_def given_events_loop split: sum.split option.split)
qed

text \<open>
  C40. The agent's registration passes the server's check: a server whose database takes the row answers 201, and
  its table has one row more, an online agent of that id, which the server then finds; the other rows are as
  they were. The answer is an error when the id is taken.
\<close>

theorem agent_registers:
  assumes "ss_context s = Some c" "se_io env 2 = None" "new_uuid \<notin> ar_agent_id ` set (db_agents (ss_db s))"
  shows "fst (snd (handle_register env (registration_body new_uuid) s)) = CREATED
     \<and> (\<exists>row. db_agents (ss_db (fst (handle_register env (registration_body new_uuid) s))) = db_agents (ss_db s) @ [row]
         \<and> row_to_agent row = Inr \<lparr>ai_agent_id = new_uuid, ai_hostname = ''fake'', ai_os_version = ''test'',
             ai_agent_version = ''0.1.0'', ai_ip_address = [], ai_last_heartbeat_at = Some (now_text env),
             ai_registered_at = now_text env, ai_status = Online\<rparr>
         \<and> get_agent_by_id None new_uuid (ss_db (fst (handle_register env (registration_body new_uuid) s)))
             = map_sum id Some (row_to_agent row))
     \<and> fst (snd (handle_register env' (registration_body new_uuid)
           (fst (handle_register env (registration_body new_uuid) s)))) = INTERNAL_SERVER_ERROR"
proof -
  let ?body = "registration_body new_uuid"
  have auth: "authorized (Register ?body)"
    by (simp add: registration_body_def validate_psk_def AGENT_PSK_def AGENT_PSK_server_def)
  let ?row = "\<lparr>ar_agent_id = new_uuid, ar_hostname = ''fake'', ar_os_version = ''test'', ar_agent_version = ''0.1.0'',
      ar_ip_address = [], ar_last_heartbeat_at = Some (now_text env), ar_registered_at = now_text env,
      ar_status = agent_status_str Online\<rparr>"
  let ?s = "s\<lparr>ss_db := ss_db s\<lparr>db_agents := db_agents (ss_db s) @ [?row]\<rparr>\<rparr>"
  have reg: "handle_register env ?body s = (?s, CREATED, JObject [(''agent_id'', JString new_uuid)])"
    unfolding handle_register_def with_context_ready [OF assms(1)] using auth assms(2,3)
    by (simp add: register_agent_def registration_body_def)
  have find: "find (\<lambda>r. ar_agent_id r = new_uuid) (db_agents (ss_db s) @ [?row]) = Some ?row"
    using find_snoc [of "db_agents (ss_db s)" "\<lambda>r. ar_agent_id r = new_uuid" "[?row]"] assms(3) by auto
  have row: "row_to_agent ?row = Inr \<lparr>ai_agent_id = new_uuid, ai_hostname = ''fake'', ai_os_version = ''test'',
      ai_agent_version = ''0.1.0'', ai_ip_address = [], ai_last_heartbeat_at = Some (now_text env),
      ai_registered_at = now_text env, ai_status = Online\<rparr>"
    by (simp add: row_to_agent_def)
  have ctx: "ss_context ?s = Some c" using assms(1) by simp
  have again: "fst (snd (handle_register env' ?body ?s)) = INTERNAL_SERVER_ERROR"
    unfolding handle_register_def with_context_ready [OF ctx] using auth
    by (simp add: register_agent_def registration_body_def split: option.split)
  show ?thesis unfolding reg
    using again row find by (auto simp: get_agent_by_id_def intro!: exI [of _ ?row])
qed

theorem agent_registers_witness:
  "fst (snd (handle_register sample_env (registration_body ''b'') sample_server)) = CREATED"
proof -
  have ready: "ss_context sample_server = Some ''s''" "se_io sample_env 2 = None"
    "''b'' \<notin> ar_agent_id ` set (db_agents (ss_db sample_server))"
    by (simp_all add: sample_server_def sample_env_def)
  show ?thesis using agent_registers [OF ready] by (rule conjunct1)
qed

end
